theory Spec2Isabelle
  imports Complex_Main "HOL-Library.Sublist" "HOL-Library.Log_Nat"
begin

section \<open>Python strings\<close>

text \<open>
  A Python \<open>str\<close> is modelled as a \<open>string\<close> whose characters are the code points below
  256. The string methods used by the sources are written out for that range:
  \<open>str.isspace\<close> holds of the code points 9 to 13, 28 to 32, 133 and 160, and
  \<open>str.lower\<close> moves the capital letters (65 to 90, and 192 to 222 except 215) up by 32.
\<close>

definition isspace :: "char \<Rightarrow> bool" where
  "isspace c =
     (let n = (of_char c :: nat)
      in (9 \<le> n \<and> n \<le> 13) \<or> (28 \<le> n \<and> n \<le> 32) \<or> n = 133 \<or> n = 160)"

definition strip :: "string \<Rightarrow> string" where
  "strip s = rev (dropWhile isspace (rev (dropWhile isspace s)))"

definition startswith :: "string \<Rightarrow> string \<Rightarrow> bool" where
  \<comment> \<open>\<open>s.startswith(p)\<close>\<close>
  "startswith s p = prefix p s"

definition contains :: "string \<Rightarrow> string \<Rightarrow> bool" where
  \<comment> \<open>\<open>sub in s\<close> for two strings\<close>
  "contains sub s = sublist sub s"

section \<open>Python exceptions and floats\<close>

text \<open>
  The exceptions that the modelled code can raise. A function that can raise returns
  \<open>exn + 'a\<close>: \<open>Inl e\<close> is the exception raised.
\<close>

datatype exn =
  AttributeError | TypeError | ValueError | IndexError | KeyError | ZeroDivisionError
  | OverflowError

text \<open>
  A Python \<open>float\<close> is an IEEE 754 binary64 number. The model keeps the finite ones, as
  the reals they denote; \<open>inf\<close> and \<open>nan\<close> are not values of the model. An operation on
  floats is the operation on the reals followed by \<open>nearest\<close>, the rounding to the
  nearest double, ties to the even mantissa: with \<open>exponent x\<close> the binary exponent of
  \<open>x\<close> (\<open>2 ^ exponent x \<le> \<bar>x\<bar> < 2 ^ (exponent x + 1)\<close>), the doubles around \<open>x\<close> are the
  multiples of \<open>2 ^ (exponent x - 52)\<close>, and of \<open>2 ^ - 1074\<close> below the normal range.
  A result beyond the largest double is not cut off by \<open>nearest\<close>; the conversion of an
  integer, which raises \<open>OverflowError\<close> there, checks for it.
\<close>

definition round_half_even :: "real \<Rightarrow> int" where
  "round_half_even x =
     (let f = \<lfloor>x\<rfloor>; d = x - of_int f
      in if d < 1 / 2 then f else if d > 1 / 2 then f + 1 else if even f then f else f + 1)"

definition exponent :: "real \<Rightarrow> int" where
  "exponent x =
     (if \<bar>x\<bar> \<ge> 1 then bitlen \<lfloor>\<bar>x\<bar>\<rfloor> - 1 else - bitlen (\<lceil>1 / \<bar>x\<bar>\<rceil> - 1))"

definition nearest :: "real \<Rightarrow> real" where
  "nearest x =
     (if x = 0 then 0
      else (let e = max (exponent x) (- 1022) - 52
            in of_int (round_half_even (x * 2 powi (- e))) * 2 powi e))"

definition float_of_int :: "int \<Rightarrow> exn + real" where
  \<comment> \<open>the conversion of an \<open>int\<close> that meets a float, and \<open>float(i)\<close>\<close>
  "float_of_int i =
     (let r = nearest (of_int i) in if \<bar>r\<bar> \<ge> 2 ^ 1024 then Inl OverflowError else Inr r)"

section \<open>The safety filter of \<open>get_all_commands\<close> (app.py)\<close>

text \<open>
  \<open>get_all_commands\<close> walks the scenes of the chat storyboard, whose scenes carry their
  commands as plain strings. For each scene it emits a header line and then the scene's
  commands, each one tested against the teleport patterns and replaced by a comment line
  when it matches.
\<close>

definition blocked :: "string \<Rightarrow> bool" where
  \<comment> \<open>the condition of the \<open>if\<close> in the inner loop\<close>
  "blocked cmd =
     (startswith (strip cmd) ''tp @'' \<or> contains '' tp @a'' cmd \<or> contains '' tp @p'' cmd)"

definition placeholder :: "string \<Rightarrow> string" where
  "placeholder cmd = ''# BLOCKED UNSAFE COMMAND: '' @ cmd"

primrec safety_filter :: "string list \<Rightarrow> string list" where
  \<comment> \<open>the inner loop: \<open>safe_cmds\<close> for one scene's \<open>commands\<close>\<close>
  "safety_filter [] = []"
| "safety_filter (cmd # cmds) =
     (if blocked cmd then placeholder cmd else cmd) # safety_filter cmds"

record chat_scene =
  scene_name :: "string option"
  scene_commands :: "string list"

primrec scene_lines :: "chat_scene list \<Rightarrow> string list" where
  "scene_lines [] = []"
| "scene_lines (scene # scenes) =
     (''# === '' @ (case scene_name scene of None \<Rightarrow> ''Scene'' | Some n \<Rightarrow> n) @ '' ==='')
       # safety_filter (scene_commands scene) @ scene_lines scenes"

definition get_all_commands :: "chat_scene list option \<Rightarrow> string list" where
  \<comment> \<open>\<open>None\<close> is the global \<open>storyboard\<close> before any story was parsed\<close>
  "get_all_commands storyboard =
     (case storyboard of None \<Rightarrow> [] | Some scenes \<Rightarrow> scene_lines scenes)"

text \<open>
  The \<open>run\<close> branch of \<open>chat\<close> walks the list that \<open>get_all_commands\<close> returns and
  sends a line to the server unless it starts with \<open>#\<close> or is blank: only the other
  lines are commands that are run.
\<close>

definition executable :: "string \<Rightarrow> bool" where
  \<comment> \<open>the negation of \<open>cmd.startswith("#") or not cmd.strip()\<close>\<close>
  "executable cmd = (\<not> (startswith cmd ''#'' \<or> strip cmd = []))"

section \<open>The scheduler: \<open>MinecraftRCON.execute_sequence\<close> (src/rcon_client.py)\<close>

text \<open>
  \<open>execute_sequence\<close> sorts the command dicts by tick, opens one RCON connection and walks
  the sorted list. The model makes its three effects explicit:
  \<^item> the connection is a transport with a state of its own; \<open>mcr.command(c)\<close> answers
    with a response (\<open>Inr\<close>) or raises an exception (\<open>Inl\<close>, carrying \<open>str(e)\<close>), and
    opening the connection either raises or gives the initial state;
  \<^item> every call \<open>time.sleep(ms / 1000.0)\<close> is logged as \<open>Sleep ms\<close>, every call
    \<open>mcr.command(c)\<close> as \<open>Submit c\<close>;
  \<^item> the pacing can raise: the division \<open>n / 1000.0\<close> converts the integer \<open>n\<close> to
    a float and raises \<open>OverflowError\<close> when \<open>n\<close> has no finite double, and
    \<open>time.sleep\<close> (CPython 3.5 and later) raises \<open>OverflowError\<close> when the length in
    nanoseconds does not fit a signed 64-bit integer and \<open>ValueError\<close> when the length
    is negative; like every exception raised inside the \<open>with\<close> block and outside the
    inner \<open>try\<close>, these end the loop, the commands that remain are not run, and the
    exception is reported as a connection error.
  Closing the connection at the end of the \<open>with\<close> block is taken not to raise. A
  command dict has the optional keys \<open>tick\<close> and \<open>command\<close>, an integer and a string.
\<close>

record cmd_data =
  cd_tick :: "int option"
  cd_command :: "string option"

record CommandResult =
  success :: bool
  response :: string
  result_tick :: int
  result_command :: string

datatype event = Sleep int | Submit string

record 's transport =
  mcrcon_available :: bool
  connect :: "string + 's"
  mcr_command :: "'s \<Rightarrow> string \<Rightarrow> (string + string) \<times> 's"

record 's run =
  results :: "CommandResult list"
  last_tick :: int
  mcr :: 's
  trace :: "event list"

definition get_tick :: "cmd_data \<Rightarrow> int" where
  \<comment> \<open>\<open>cmd_data.get('tick', 0)\<close>\<close>
  "get_tick c = (case cd_tick c of None \<Rightarrow> 0 | Some t \<Rightarrow> t)"

definition get_command :: "cmd_data \<Rightarrow> string" where
  \<comment> \<open>\<open>cmd_data.get('command', '')\<close>\<close>
  "get_command c = (case cd_command c of None \<Rightarrow> [] | Some x \<Rightarrow> x)"

definition time_sleep :: "real \<Rightarrow> string option" where
  \<comment> \<open>\<open>time.sleep(secs)\<close>: the text of the exception that it raises, if any\<close>
  "time_sleep secs =
     (let ns = nearest (secs * 10 ^ 9)
      in if ns < - (2 ^ 63) \<or> 2 ^ 63 \<le> ns
           then Some ''timestamp too large to convert to C _PyTime_t''
         else if secs < 0 then Some ''sleep length must be non-negative''
         else None)"

definition sleepable :: "int \<Rightarrow> bool" where
  \<comment> \<open>a pause of \<open>ms\<close> milliseconds is one that \<open>time.sleep(ms / 1000.0)\<close> carries out\<close>
  "sleepable ms =
     (case float_of_int ms of
        Inl e \<Rightarrow> False
      | Inr x \<Rightarrow> time_sleep (nearest (x / 1000)) = None)"

definition wait_for_tick :: "int \<Rightarrow> bool \<Rightarrow> int \<Rightarrow> 's run \<Rightarrow> 's run \<times> string option" where
  \<comment> \<open>the pacing \<open>if\<close> of the loop body; the second component is the exception, if any\<close>
  "wait_for_tick tick_delay_ms realtime tick st =
     (if realtime \<and> tick > last_tick st then
        (let wait_ms = (tick - last_tick st) * tick_delay_ms in
         case float_of_int wait_ms of
           Inl e \<Rightarrow> (st, Some ''int too large to convert to float'')
         | Inr x \<Rightarrow>
             (let wait_time = nearest (x / 1000)
              in (st\<lparr>trace := trace st @ [Sleep wait_ms]\<rparr>, time_sleep wait_time)))
      else (st, None))"

definition submit :: "('s \<Rightarrow> string \<Rightarrow> (string + string) \<times> 's) \<Rightarrow> int \<Rightarrow> string \<Rightarrow> 's run \<Rightarrow> 's run" where
  \<comment> \<open>the rest of the loop body, after the pacing\<close>
  "submit cmd tick command st =
     (if startswith command ''#'' then
        st\<lparr>results := results st
               @ [\<lparr>success = True, response = ''Skipped'', result_tick = tick,
                   result_command = command\<rparr>]\<rparr>
      else
        (case cmd (mcr st) command of
           (Inr resp, s') \<Rightarrow>
             st\<lparr>results := results st
                    @ [\<lparr>success = True, response = resp, result_tick = tick,
                        result_command = command\<rparr>],
                last_tick := tick, mcr := s', trace := trace st @ [Submit command]\<rparr>
         | (Inl e, s') \<Rightarrow>
             st\<lparr>results := results st
                    @ [\<lparr>success = False, response = e, result_tick = tick,
                        result_command = command\<rparr>],
                last_tick := tick, mcr := s', trace := trace st @ [Submit command]\<rparr>))"

fun sequence_loop ::
  "('s \<Rightarrow> string \<Rightarrow> (string + string) \<times> 's) \<Rightarrow> int \<Rightarrow> bool \<Rightarrow> cmd_data list \<Rightarrow> 's run
     \<Rightarrow> 's run \<times> string option" where
  "sequence_loop cmd tick_delay_ms realtime [] st = (st, None)"
| "sequence_loop cmd tick_delay_ms realtime (cmd_data # rest) st =
     (case wait_for_tick tick_delay_ms realtime (get_tick cmd_data) st of
        (st', Some e) \<Rightarrow> (st', Some e)
      | (st', None) \<Rightarrow>
          sequence_loop cmd tick_delay_ms realtime rest
            (submit cmd (get_tick cmd_data) (get_command cmd_data) st'))"

definition execute_sequence ::
  "'s transport \<Rightarrow> cmd_data list \<Rightarrow> int \<Rightarrow> bool \<Rightarrow> CommandResult list \<times> event list" where
  "execute_sequence t commands tick_delay_ms realtime =
     (if \<not> mcrcon_available t then
        ([\<lparr>success = False, response = ''RCON not available'', result_tick = 0,
           result_command = []\<rparr>], [])
      else
        (let sorted_cmds = sort_key get_tick commands in
         case connect t of
           Inl e \<Rightarrow>
             ([\<lparr>success = False, response = ''Connection error: '' @ e, result_tick = 0,
                result_command = []\<rparr>], [])
         | Inr s0 \<Rightarrow>
             (case sequence_loop (mcr_command t) tick_delay_ms realtime sorted_cmds
                     \<lparr>results = [], last_tick = 0, mcr = s0, trace = []\<rparr> of
                (st, None) \<Rightarrow> (results st, trace st)
              | (st, Some e) \<Rightarrow>
                  (results st
                     @ [\<lparr>success = False, response = ''Connection error: '' @ e,
                         result_tick = 0, result_command = []\<rparr>],
                   trace st))))"

subsection \<open>The scheduler as the specification words it\<close>

text \<open>
  The scheduler as section 4.6 of the specification words it, to compare the loop with:
  the pacing of a sorted command list from a cursor, the transport's answers to the real
  commands, and the result recorded for one command.
\<close>

definition is_comment :: "cmd_data \<Rightarrow> bool" where
  "is_comment c = startswith (get_command c) ''#''"

fun pacing :: "int \<Rightarrow> int \<Rightarrow> cmd_data list \<Rightarrow> event list" where
  "pacing tick_delay_ms cursor [] = []"
| "pacing tick_delay_ms cursor (c # cs) =
     (if get_tick c > cursor then [Sleep ((get_tick c - cursor) * tick_delay_ms)] else [])
     @ (if is_comment c then pacing tick_delay_ms cursor cs
        else Submit (get_command c) # pacing tick_delay_ms (get_tick c) cs)"

fun answers ::
  "('s \<Rightarrow> string \<Rightarrow> (string + string) \<times> 's) \<Rightarrow> 's \<Rightarrow> cmd_data list
     \<Rightarrow> (string + string) option list" where
  "answers cmd s [] = []"
| "answers cmd s (c # cs) =
     (if is_comment c then None # answers cmd s cs
      else (case cmd s (get_command c) of (r, s') \<Rightarrow> Some r # answers cmd s' cs))"

definition result_of :: "cmd_data \<Rightarrow> (string + string) option \<Rightarrow> CommandResult" where
  "result_of c a =
     (case a of
        None \<Rightarrow>
          \<lparr>success = True, response = ''Skipped'', result_tick = get_tick c,
           result_command = get_command c\<rparr>
      | Some (Inr resp) \<Rightarrow>
          \<lparr>success = True, response = resp, result_tick = get_tick c,
           result_command = get_command c\<rparr>
      | Some (Inl e) \<Rightarrow>
          \<lparr>success = False, response = e, result_tick = get_tick c,
           result_command = get_command c\<rparr>)"

definition submitted :: "event list \<Rightarrow> string list" where
  \<comment> \<open>the commands handed to the transport, in order\<close>
  "submitted evs = concat (map (\<lambda>e. case e of Submit c \<Rightarrow> [c] | Sleep _ \<Rightarrow> []) evs)"

section \<open>Python values (src/bbs_commands.py)\<close>

text \<open>
  The storyboard handed to \<open>BBSCommandGenerator\<close> is whatever \<open>json.loads\<close> returned, so
  the generator is modelled over untyped JSON values, and every operation that Python
  can refuse is a function into \<open>exn + 'a\<close>: \<open>Inl e\<close> is the exception raised, which ends
  the run, since the generator catches nothing outside \<open>_parse_pos\<close>.

  Five functions of the Python runtime are not written out and are parameters of the
  model, collected in a record: \<open>float(s)\<close> for a string (\<open>None\<close> is \<open>ValueError\<close>), the
  format \<open>.1f\<close> of a float, \<open>str\<close> of a float, a list or a dict, and \<open>math.cos\<close> and
  \<open>math.sin\<close>, which are those of the C library.
\<close>

datatype json =
  JNull | JBool bool | JInt int | JFloat real | JStr string | JList "json list"
  | JDict "(string \<times> json) list"

record pyrt =
  float_of_str :: "string \<Rightarrow> real option"
  format_1f :: "real \<Rightarrow> string"
  repr :: "json \<Rightarrow> string"
  math_cos :: "real \<Rightarrow> real"
  math_sin :: "real \<Rightarrow> real"

definition ebind :: "exn + 'a \<Rightarrow> ('a \<Rightarrow> exn + 'b) \<Rightarrow> exn + 'b" where
  \<comment> \<open>sequencing: an exception in the first step skips the rest\<close>
  "ebind m f = (case m of Inl e \<Rightarrow> Inl e | Inr x \<Rightarrow> f x)"

primrec efold :: "('a \<Rightarrow> 's \<Rightarrow> exn + 's) \<Rightarrow> 'a list \<Rightarrow> 's \<Rightarrow> exn + 's" where
  \<comment> \<open>a \<open>for\<close> loop whose body updates a state or raises\<close>
  "efold body [] s = Inr s"
| "efold body (x # xs) s = ebind (body x s) (efold body xs)"

definition get :: "json \<Rightarrow> string \<Rightarrow> json \<Rightarrow> exn + json" where
  \<comment> \<open>\<open>d.get(key, default)\<close>; only a dict has the method\<close>
  "get d key dflt =
     (case d of
        JDict kvs \<Rightarrow> Inr (case map_of kvs key of None \<Rightarrow> dflt | Some v \<Rightarrow> v)
      | _ \<Rightarrow> Inl AttributeError)"

definition iter :: "json \<Rightarrow> exn + json list" where
  \<comment> \<open>\<open>for x in v\<close>: the items of a list, the characters of a string, the keys of a dict\<close>
  "iter v =
     (case v of
        JList xs \<Rightarrow> Inr xs
      | JStr s \<Rightarrow> Inr (map (\<lambda>c. JStr [c]) s)
      | JDict kvs \<Rightarrow> Inr (map (\<lambda>kv. JStr (fst kv)) kvs)
      | _ \<Rightarrow> Inl TypeError)"

definition index :: "json \<Rightarrow> nat \<Rightarrow> exn + json" where
  \<comment> \<open>\<open>v[i]\<close> for a literal index \<open>i\<close>; the keys of a decoded dict are strings\<close>
  "index v i =
     (case v of
        JList xs \<Rightarrow> if i < length xs then Inr (xs ! i) else Inl IndexError
      | JStr s \<Rightarrow> if i < length s then Inr (JStr [s ! i]) else Inl IndexError
      | JDict kvs \<Rightarrow> Inl KeyError
      | _ \<Rightarrow> Inl TypeError)"

definition lower_char :: "char \<Rightarrow> char" where
  "lower_char c =
     (let n = (of_char c :: nat)
      in if (65 \<le> n \<and> n \<le> 90) \<or> (192 \<le> n \<and> n \<le> 222 \<and> n \<noteq> 215)
         then char_of (n + 32) else c)"

definition lower :: "string \<Rightarrow> string" where
  "lower s = map lower_char s"

definition replace :: "char \<Rightarrow> string \<Rightarrow> string \<Rightarrow> string" where
  \<comment> \<open>\<open>s.replace(a, b)\<close> for a pattern \<open>a\<close> of one character\<close>
  "replace a b s = concat (map (\<lambda>c. if c = a then b else [c]) s)"

definition str_lower :: "json \<Rightarrow> exn + string" where
  \<comment> \<open>\<open>v.lower()\<close>: only a string has the method\<close>
  "str_lower v = (case v of JStr s \<Rightarrow> Inr (lower s) | _ \<Rightarrow> Inl AttributeError)"

definition clean :: "json \<Rightarrow> exn + string" where
  \<comment> \<open>\<open>v.lower().replace(" ", "_")\<close>\<close>
  "clean v = ebind (str_lower v) (\<lambda>s. Inr (replace CHR '' '' ''_'' s))"

fun split_ws :: "string \<Rightarrow> string \<Rightarrow> string list" where
  \<comment> \<open>\<open>s.split()\<close>, with the word being read as the first argument\<close>
  "split_ws w [] = (if w = [] then [] else [w])"
| "split_ws w (c # s) =
     (if isspace c then (if w = [] then split_ws [] s else w # split_ws [] s)
      else split_ws (w @ [c]) s)"

definition split :: "string \<Rightarrow> string list" where
  "split s = split_ws [] s"

fun digits :: "nat \<Rightarrow> string" where
  "digits n = (if n < 10 then [char_of (48 + n)] else digits (n div 10) @ [char_of (48 + n mod 10)])"

declare digits.simps [simp del]

definition str_int :: "int \<Rightarrow> string" where
  "str_int i = (if i < 0 then ''-'' @ digits (nat (- i)) else digits (nat i))"

definition str :: "pyrt \<Rightarrow> json \<Rightarrow> string" where
  \<comment> \<open>\<open>str(v)\<close>, which is also how an f-string renders \<open>{v}\<close>\<close>
  "str rt v =
     (case v of
        JStr s \<Rightarrow> s
      | JInt i \<Rightarrow> str_int i
      | JBool b \<Rightarrow> (if b then ''True'' else ''False'')
      | JNull \<Rightarrow> ''None''
      | _ \<Rightarrow> repr rt v)"

definition truthy :: "json \<Rightarrow> bool" where
  "truthy v =
     (case v of
        JNull \<Rightarrow> False | JBool b \<Rightarrow> b | JInt i \<Rightarrow> i \<noteq> 0 | JFloat r \<Rightarrow> r \<noteq> 0
      | JStr s \<Rightarrow> s \<noteq> [] | JList xs \<Rightarrow> xs \<noteq> [] | JDict kvs \<Rightarrow> kvs \<noteq> [])"

subsection \<open>Numbers\<close>

text \<open>
  \<open>bool\<close> is a subclass of \<open>int\<close>. An integer is converted to a float when it meets one;
  the conversion raises \<open>OverflowError\<close> when the nearest double is no longer finite.
  Sums and differences (\<open>arith\<close>) are exact on integers, as in the code. On a float and
  a number they are idealised: the model gives the exact sum of the two values, where
  the code rounds an integer operand and then the sum to the nearest double; the
  exception of the conversion is kept. The products and quotients below are rounded as
  in the code.
\<close>

definition is_int :: "json \<Rightarrow> bool" where
  "is_int v = (case v of JInt _ \<Rightarrow> True | JBool _ \<Rightarrow> True | _ \<Rightarrow> False)"

definition int_val :: "json \<Rightarrow> int" where
  "int_val v = (case v of JInt i \<Rightarrow> i | JBool b \<Rightarrow> (if b then 1 else 0) | _ \<Rightarrow> 0)"

definition is_number :: "json \<Rightarrow> bool" where
  "is_number v = (case v of JInt _ \<Rightarrow> True | JBool _ \<Rightarrow> True | JFloat _ \<Rightarrow> True | _ \<Rightarrow> False)"

definition num_val :: "json \<Rightarrow> real" where
  "num_val v = (case v of JFloat r \<Rightarrow> r | _ \<Rightarrow> of_int (int_val v))"

definition as_float :: "json \<Rightarrow> exn + real" where
  \<comment> \<open>the operand of a mixed operation; the argument is a number\<close>
  "as_float v = (case v of JFloat r \<Rightarrow> Inr r | _ \<Rightarrow> float_of_int (int_val v))"

definition float :: "pyrt \<Rightarrow> json \<Rightarrow> exn + real" where
  \<comment> \<open>\<open>float(v)\<close>\<close>
  "float rt v =
     (case v of
        JStr s \<Rightarrow> (case float_of_str rt s of None \<Rightarrow> Inl ValueError | Some r \<Rightarrow> Inr r)
      | JFloat r \<Rightarrow> Inr r
      | JInt i \<Rightarrow> float_of_int i
      | JBool b \<Rightarrow> Inr (if b then 1 else 0)
      | _ \<Rightarrow> Inl TypeError)"

definition arith :: "(int \<Rightarrow> int \<Rightarrow> int) \<Rightarrow> (real \<Rightarrow> real \<Rightarrow> real) \<Rightarrow> json \<Rightarrow> json \<Rightarrow> exn + json" where
  \<comment> \<open>a binary operation on two numbers: on the integers, or else on the floats\<close>
  "arith iop fop a b =
     (if is_int a \<and> is_int b then Inr (JInt (iop (int_val a) (int_val b)))
      else ebind (as_float a) (\<lambda>x. ebind (as_float b) (\<lambda>y.
             Inr (JFloat (fop (num_val a) (num_val b))))))"

definition py_add :: "json \<Rightarrow> json \<Rightarrow> exn + json" where
  \<comment> \<open>\<open>a + b\<close>\<close>
  "py_add a b =
     (if is_number a \<and> is_number b then arith (+) (+) a b
      else (case (a, b) of
              (JStr s, JStr t) \<Rightarrow> Inr (JStr (s @ t))
            | (JList xs, JList ys) \<Rightarrow> Inr (JList (xs @ ys))
            | _ \<Rightarrow> Inl TypeError))"

definition py_sub :: "json \<Rightarrow> json \<Rightarrow> exn + json" where
  \<comment> \<open>\<open>a - b\<close>\<close>
  "py_sub a b = (if is_number a \<and> is_number b then arith (-) (-) a b else Inl TypeError)"

definition mul_int :: "json \<Rightarrow> int \<Rightarrow> exn + json" where
  \<comment> \<open>\<open>a * n\<close> for an integer constant \<open>n\<close>: a string or a list is repeated\<close>
  "mul_int a n =
     (case a of
        JStr s \<Rightarrow> Inr (JStr (concat (replicate (nat n) s)))
      | JList xs \<Rightarrow> Inr (JList (concat (replicate (nat n) xs)))
      | JFloat r \<Rightarrow> Inr (JFloat (nearest (r * of_int n)))
      | _ \<Rightarrow> if is_int a then Inr (JInt (int_val a * n)) else Inl TypeError)"

definition floordiv_int :: "json \<Rightarrow> int \<Rightarrow> exn + json" where
  \<comment> \<open>\<open>a // n\<close> for a positive integer constant \<open>n\<close>\<close>
  "floordiv_int a n =
     (case a of
        JFloat r \<Rightarrow> Inr (JFloat (nearest (of_int \<lfloor>r / of_int n\<rfloor>)))
      | _ \<Rightarrow> if is_int a then Inr (JInt (int_val a div n)) else Inl TypeError)"

definition min_int :: "int \<Rightarrow> json \<Rightarrow> exn + json" where
  \<comment> \<open>\<open>min(n, b)\<close> for an integer constant \<open>n\<close>: \<open>b\<close> is taken when \<open>b < n\<close>\<close>
  "min_int n b =
     (if is_number b then Inr (if num_val b < of_int n then b else JInt n) else Inl TypeError)"

definition max_num :: "json \<Rightarrow> json \<Rightarrow> exn + json" where
  \<comment> \<open>\<open>max(a, b)\<close> for a number \<open>a\<close>: \<open>b\<close> is taken when \<open>b > a\<close>\<close>
  "max_num a b =
     (if is_number b then Inr (if num_val b > num_val a then b else a) else Inl TypeError)"

definition truediv_int :: "json \<Rightarrow> int \<Rightarrow> exn + real" where
  \<comment> \<open>\<open>a / n\<close> for a number \<open>a\<close> and a positive integer constant \<open>n\<close>\<close>
  "truediv_int a n =
     (case a of
        JFloat r \<Rightarrow> Inr (nearest (r / of_int n))
      | _ \<Rightarrow>
          (let q = nearest (of_int (int_val a) / of_int n)
           in if \<bar>q\<bar> \<ge> 2 ^ 1024 then Inl OverflowError else Inr q))"

subsection \<open>Dictionary keys\<close>

text \<open>
  A list or a dict is not hashable. Numbers that are equal are the same key, whatever
  their type.
\<close>

datatype hkey = KNone | KNum real | KStr string

definition hash_key :: "json \<Rightarrow> exn + hkey" where
  "hash_key v =
     (case v of
        JNull \<Rightarrow> Inr KNone
      | JStr s \<Rightarrow> Inr (KStr s)
      | JList _ \<Rightarrow> Inl TypeError
      | JDict _ \<Rightarrow> Inl TypeError
      | _ \<Rightarrow> Inr (KNum (num_val v)))"

definition lookup :: "(string \<times> string) list \<Rightarrow> json \<Rightarrow> json \<Rightarrow> exn + json" where
  \<comment> \<open>\<open>table.get(key, default)\<close> for a literal table with string keys and values\<close>
  "lookup table key dflt =
     ebind (hash_key key) (\<lambda>k.
       Inr (case k of
              KStr s \<Rightarrow> (case map_of table s of None \<Rightarrow> dflt | Some v \<Rightarrow> JStr v)
            | _ \<Rightarrow> dflt))"

section \<open>The command generator (src/bbs_commands.py)\<close>

record BBSCommand =
  tick :: json
  command :: string
  description :: string
  command_type :: string

record CommandSequence =
  name :: json
  commands :: "BBSCommand list"
  duration_ticks :: json

definition add :: "json \<Rightarrow> string \<Rightarrow> string \<Rightarrow> string \<Rightarrow> CommandSequence \<Rightarrow> exn + CommandSequence" where
  \<comment> \<open>\<open>CommandSequence.add(tick, command, description, cmd_type)\<close>; \<open>duration_ticks\<close> starts
      as 0 and stays a number, so \<open>max\<close> raises exactly when the tick is not a number\<close>
  "add tk cmd desc cmd_type seq =
     ebind (max_num (duration_ticks seq) tk) (\<lambda>d.
       Inr (seq\<lparr>commands := commands seq
                   @ [\<lparr>tick = tk, command = cmd, description = desc, command_type = cmd_type\<rparr>],
                duration_ticks := d\<rparr>))"

record registry_entry =
  entry_name :: json
  entry_position :: json
  entry_type :: string

record BBSCommandGenerator =
  base_x :: int
  base_y :: int
  base_z :: int
  actor_registry :: "hkey \<Rightarrow> registry_entry option"

definition init :: "int \<times> int \<times> int \<Rightarrow> BBSCommandGenerator" where
  \<comment> \<open>\<open>__init__\<close>: the only place where the registry is set to the empty dict\<close>
  "init base_position =
     (case base_position of
        (x, y, z) \<Rightarrow> \<lparr>base_x = x, base_y = y, base_z = z, actor_registry = Map.empty\<rparr>)"

text \<open>
  The registry is an attribute of the generator object, and the assignment
  \<open>self.actor_registry[actor_id] = ...\<close> of the spawn branch changes it in place: what a
  compilation has registered before it raises is still there afterwards, and the caller
  (the loop of \<open>run_agent.py\<close>, which catches the exception of \<open>agent.generate_commands\<close>)
  keeps the generator after an exception. The methods that can
  reach that assignment therefore give the generator back in both cases: \<open>Inr (x, g)\<close> is
  the return of \<open>x\<close> and \<open>Inl (e, g)\<close> the exception \<open>e\<close>, each with the generator \<open>g\<close> as
  the method leaves it.
\<close>

type_synonym 'a outcome = "(exn \<times> BBSCommandGenerator) + ('a \<times> BBSCommandGenerator)"

definition attempt :: "BBSCommandGenerator \<Rightarrow> exn + 'a \<Rightarrow> ('a \<Rightarrow> 'b outcome) \<Rightarrow> 'b outcome" where
  \<comment> \<open>a step that does not write the registry and then raises, or that writes it last:
      its exception leaves the generator \<open>self\<close> as it was\<close>
  "attempt self m f = (case m of Inl e \<Rightarrow> Inl (e, self) | Inr x \<Rightarrow> f x)"

definition gbind ::
  "'a outcome \<Rightarrow> ('a \<Rightarrow> BBSCommandGenerator \<Rightarrow> 'b outcome) \<Rightarrow> 'b outcome" where
  \<comment> \<open>sequencing: the rest runs with the generator that the first step leaves\<close>
  "gbind m f = (case m of Inl eg \<Rightarrow> Inl eg | Inr (x, self) \<Rightarrow> f x self)"

primrec gfold ::
  "('a \<Rightarrow> 's \<Rightarrow> BBSCommandGenerator \<Rightarrow> 's outcome) \<Rightarrow> 'a list \<Rightarrow> 's \<Rightarrow> BBSCommandGenerator
     \<Rightarrow> 's outcome" where
  \<comment> \<open>a \<open>for\<close> loop whose body may write the registry\<close>
  "gfold body [] s self = Inr (s, self)"
| "gfold body (x # xs) s self = gbind (body x s self) (gfold body xs)"

definition after :: "'a outcome \<Rightarrow> BBSCommandGenerator" where
  \<comment> \<open>the generator as a call leaves it, whether it returns or raises\<close>
  "after m = (case m of Inl (e, self) \<Rightarrow> self | Inr (x, self) \<Rightarrow> self)"

definition dq :: string where
  \<comment> \<open>the double quote\<close>
  "dq = [CHR 0x22]"

definition sq :: string where
  \<comment> \<open>the single quote\<close>
  "sq = [CHR 0x27]"

definition pos_default :: json where
  "pos_default = JList [JInt 0, JInt 64, JInt 0]"

subsection \<open>Entities and selectors\<close>

definition titan_entities :: "(string \<times> string) list" where
  "titan_entities =
     [(''titan'', ''titans:zombie_titan''),
      (''zombie_titan'', ''titans:zombie_titan''),
      (''creeper_titan'', ''titans:creeper_titan''),
      (''skeleton_titan'', ''titans:skeleton_titan''),
      (''spider_titan'', ''titans:spider_titan''),
      (''blaze_titan'', ''titans:blaze_titan''),
      (''ghast_titan'', ''titans:ghast_titan''),
      (''slime_titan'', ''titans:slime_titan''),
      (''ender_colossus'', ''titans:ender_colossus''),
      (''witherzilla'', ''titans:witherzilla''),
      (''ultima_iron_golem'', ''titans:ultima_iron_golem_titan'')]"

definition entity_id_of :: "string \<Rightarrow> string \<Rightarrow> string" where
  \<comment> \<open>"Determine Entity ID" in the spawn branch, from \<open>actor_type\<close> and \<open>clean_name\<close>\<close>
  "entity_id_of actor_type clean_name =
     (if actor_type \<noteq> ''unknown'' \<and> actor_type \<noteq> ''actor'' \<and> \<not> contains ''titan'' actor_type
      then ''minecraft:'' @ actor_type
      else
        (case map_of titan_entities clean_name of
           Some e \<Rightarrow> e
         | None \<Rightarrow>
             if contains ''titan'' clean_name then
               (case find (\<lambda>p. contains p clean_name)
                       [''zombie'', ''creeper'', ''skeleton'', ''spider'', ''blaze'', ''ghast'',
                        ''slime''] of
                  Some p \<Rightarrow> ''titans:'' @ p @ ''_titan''
                | None \<Rightarrow> ''titans:zombie_titan'')
             else if contains ''dragon'' clean_name then ''minecraft:ender_dragon''
             else ''minecraft:'' @ clean_name))"

definition spawn_command :: "string \<Rightarrow> string \<Rightarrow> string \<Rightarrow> string" where
  \<comment> \<open>the custom name and the summon command of the spawn branch\<close>
  "spawn_command actor_name actor_type entity_id =
     (let nbt_data =
            (if lower actor_name \<noteq> actor_type \<and> \<not> contains (lower actor_name) entity_id
             then ''{CustomName:'' @ sq @ ''{'' @ dq @ ''text'' @ dq @ '':'' @ dq @ actor_name
                    @ dq @ ''}'' @ sq @ ''}''
             else [])
      in if contains ''ender_dragon'' entity_id
         then ''execute at @p run summon '' @ entity_id @ '' ~ ~ ~ {DragonPhase:0}''
         else ''execute at @p run summon '' @ entity_id @ '' ~ ~ ~ '' @ nbt_data)"

definition get_target_selector :: "json \<Rightarrow> json \<Rightarrow> exn + string" where
  "get_target_selector nm actor_type =
     ebind (clean nm) (\<lambda>clean_name.
     ebind (clean actor_type) (\<lambda>clean_type.
       (let known_types = [''zombie'', ''skeleton'', ''creeper'', ''cow'', ''sheep'', ''pig'',
                           ''chicken'', ''dragon'', ''titan''];
            is_generic = (clean_name \<in> set known_types \<or> clean_name = clean_type)
        in if is_generic \<or> contains ''dragon'' clean_name then
             (let entity_type0 = (if clean_type \<noteq> ''unknown'' then clean_type else clean_name);
                  entity_type =
                    (if contains ''dragon'' clean_name then ''minecraft:ender_dragon''
                     else if contains ''titan'' clean_name then ''titans:zombie_titan''
                     else if \<not> contains '':'' entity_type0 then ''minecraft:'' @ entity_type0
                     else entity_type0)
              in Inr (''@e[type='' @ entity_type @ '',sort=nearest,limit=1]''))
           else
             (case nm of
                JStr s \<Rightarrow> Inr (''@e[name='' @ dq @ s @ dq @ '',sort=nearest,limit=1]'')
              | _ \<Rightarrow> Inl AttributeError))))"

subsection \<open>Actors\<close>

definition coordinate_like :: "string \<Rightarrow> bool" where
  \<comment> \<open>\<open>re.match(r'[\\d\\s\\.\\-~]+', s)\<close>: the first character is in the class\<close>
  "coordinate_like s =
     (case s of
        [] \<Rightarrow> False
      | c # _ \<Rightarrow>
          (48 \<le> (of_char c :: nat) \<and> (of_char c :: nat) \<le> 57) \<or> isspace c
          \<or> c = CHR ''.'' \<or> c = CHR ''-'' \<or> c = CHR ''~'')"

definition xyz :: "pyrt \<Rightarrow> json \<Rightarrow> exn + string" where
  \<comment> \<open>\<open>f"{v[0]} {v[1]} {v[2]}"\<close>\<close>
  "xyz rt v =
     ebind (index v 0) (\<lambda>a. ebind (index v 1) (\<lambda>b. ebind (index v 2) (\<lambda>c.
       Inr (str rt a @ '' '' @ str rt b @ '' '' @ str rt c))))"

definition spawn_action ::
  "pyrt \<Rightarrow> json \<Rightarrow> json \<Rightarrow> json \<Rightarrow> json \<Rightarrow> json \<Rightarrow> CommandSequence \<times> BBSCommandGenerator
     \<Rightarrow> exn + CommandSequence \<times> BBSCommandGenerator" where
  \<comment> \<open>the branch \<open>action_type == 'spawn'\<close>; the registry is written by its last statement,
      so the branch that raises has not written it\<close>
  "spawn_action rt actor actor_name actor_id action tk st =
     ebind (get action ''position'' pos_default) (\<lambda>raw_pos.
     ebind (get actor ''type'' (JStr ''unknown'')) (\<lambda>ty.
     ebind (clean ty) (\<lambda>actor_type.
     ebind (clean actor_name) (\<lambda>clean_name.
       (let entity_id = entity_id_of actor_type clean_name;
            cmd = spawn_command (str rt actor_name) actor_type entity_id
        in ebind (add tk cmd (''Spawn '' @ str rt actor_name) ''minecraft'' (fst st)) (\<lambda>seq.
           ebind (hash_key actor_id) (\<lambda>k.
             Inr (seq,
                  (snd st)\<lparr>actor_registry := (actor_registry (snd st))
                     (k \<mapsto> \<lparr>entry_name = actor_name, entry_position = raw_pos,
                             entry_type = entity_id\<rparr>)\<rparr>))))))))"

definition other_action ::
  "pyrt \<Rightarrow> json \<Rightarrow> json \<Rightarrow> json \<Rightarrow> json \<Rightarrow> json \<Rightarrow> CommandSequence \<Rightarrow> exn + CommandSequence" where
  \<comment> \<open>the \<open>else\<close> branch: the actions that address an entity already there\<close>
  "other_action rt actor actor_name action tk action_type seq =
     ebind (get actor ''type'' (JStr ''unknown'')) (\<lambda>ty.
     ebind (get_target_selector actor_name ty) (\<lambda>selector.
       (let nm = str rt actor_name in
        if action_type = JStr ''walk_to'' \<or> action_type = JStr ''run_to'' then
          ebind (get action ''target_position'' pos_default) (\<lambda>target.
          ebind (xyz rt target) (\<lambda>p.
            add tk (''tp '' @ selector @ '' '' @ p) (nm @ '' moves to '' @ str rt target)
              ''minecraft'' seq))
        else if action_type = JStr ''sit'' then
          add tk
            (if contains ''camel'' (lower nm)
             then ''data merge entity '' @ selector @ '' {Pose:sitting}''
             else ''data merge entity '' @ selector @ '' {Sitting:1b}'')
            (nm @ '' sits'') ''minecraft'' seq
        else if action_type = JStr ''teleport'' then
          ebind (get action ''position'' pos_default) (\<lambda>pos.
          ebind (xyz rt pos) (\<lambda>p.
            add tk (''tp '' @ selector @ '' '' @ p) (''Teleport '' @ nm) ''minecraft'' seq))
        else if action_type = JStr ''jump'' then
          add tk (''execute as '' @ selector @ '' run data merge entity @s {Motion:[0.0d,0.6d,0.0d]}'')
            (nm @ '' jumps'') ''minecraft'' seq
        else if action_type = JStr ''attack'' \<or> action_type = JStr ''swipe'' then
          ebind (add tk
                   (''execute at '' @ selector
                      @ '' run playsound entity.player.attack.strong master @a ~ ~ ~ 1 1'')
                   (nm @ '' attacks (sound)'') ''minecraft'' seq) (\<lambda>seq1.
            add tk
              (''execute as '' @ selector @ '' run data merge entity @s {Motion:[0.0d,0.2d,0.4d]}'')
              (nm @ '' attacks (motion)'') ''minecraft'' seq1)
        else if action_type = JStr ''interact'' then
          add tk
            (''execute at '' @ selector
               @ '' run playsound entity.villager.trade master @a ~ ~ ~ 1 1'')
            (nm @ '' interacts'') ''minecraft'' seq
        else if action_type = JStr ''look_at'' then
          ebind (get action ''target'' (JStr ''0 0 0'')) (\<lambda>target.
            (case target of
               JList _ \<Rightarrow>
                 ebind (xyz rt target) (\<lambda>p.
                   add tk (''execute as '' @ selector @ '' at @s run facing '' @ p)
                     (nm @ '' looks at '' @ str rt target) ''minecraft'' seq)
             | _ \<Rightarrow>
                 if (case target of JStr s \<Rightarrow> coordinate_like s | _ \<Rightarrow> False) then
                   (let words = JList (map JStr (split (str rt target))) in
                    ebind (xyz rt words) (\<lambda>p.
                      add tk (''execute as '' @ selector @ '' at @s run facing '' @ p)
                        (nm @ '' looks at '' @ str rt words) ''minecraft'' seq))
                 else
                   ebind (get_target_selector target (JStr ''unknown'')) (\<lambda>target_sel.
                     add tk
                       (''execute as '' @ selector @ '' at @s run facing entity '' @ target_sel
                          @ '' eyes'')
                       (nm @ '' looks at '' @ str rt target) ''minecraft'' seq)))
        else Inr seq)))"

definition actor_action ::
  "pyrt \<Rightarrow> json \<Rightarrow> json \<Rightarrow> json \<Rightarrow> json \<Rightarrow> CommandSequence \<times> BBSCommandGenerator
     \<Rightarrow> exn + CommandSequence \<times> BBSCommandGenerator" where
  \<comment> \<open>the body of \<open>for action in actor.get('actions', [])\<close>\<close>
  "actor_action rt actor actor_name actor_id action st =
     ebind (get action ''tick'' (JInt 0)) (\<lambda>tk.
     ebind (get action ''type'' (JStr ''idle'')) (\<lambda>action_type.
       if action_type = JStr ''spawn'' then spawn_action rt actor actor_name actor_id action tk st
       else ebind (other_action rt actor actor_name action tk action_type (fst st))
              (\<lambda>seq. Inr (seq, snd st))))"

definition generate_actor_commands ::
  "pyrt \<Rightarrow> BBSCommandGenerator \<Rightarrow> json \<Rightarrow> CommandSequence outcome" where
  "generate_actor_commands rt self actor =
     attempt self (get actor ''id'' (JStr ''unknown'')) (\<lambda>id0.
     attempt self (get actor ''name'' (JStr ''actor'')) (\<lambda>actor_name.
     attempt self (get actor ''id'' (JStr ''actor_001'')) (\<lambda>actor_id.
     attempt self (get actor ''actions'' (JList [])) (\<lambda>actions.
     attempt self (iter actions) (\<lambda>acts.
       gfold (\<lambda>action seq g.
                attempt g (actor_action rt actor actor_name actor_id action (seq, g)) Inr)
         acts \<lparr>name = JStr (''actor_'' @ str rt id0), commands = [], duration_ticks = JInt 0\<rparr>
         self)))))"

subsection \<open>Camera\<close>

primrec emap :: "('a \<Rightarrow> exn + 'b) \<Rightarrow> 'a list \<Rightarrow> exn + 'b list" where
  \<comment> \<open>a loop that collects one value per item, or raises\<close>
  "emap f [] = Inr []"
| "emap f (x # xs) = ebind (f x) (\<lambda>y. ebind (emap f xs) (\<lambda>ys. Inr (y # ys)))"

definition parse_coord :: "pyrt \<Rightarrow> json \<Rightarrow> exn + real" where
  \<comment> \<open>the \<open>try\<close> of \<open>_parse_pos\<close>, which catches \<open>ValueError\<close> and \<open>TypeError\<close> only\<close>
  "parse_coord rt x =
     (case x of
        JStr s \<Rightarrow>
          (let val = replace CHR ''~'' [] s
           in case float rt (JStr (if val = [] then ''0'' else val)) of
                Inl e \<Rightarrow> if e = ValueError \<or> e = TypeError then Inr 0 else Inl e
              | Inr r \<Rightarrow> Inr r)
      | _ \<Rightarrow>
          (case float rt x of
             Inl e \<Rightarrow> if e = ValueError \<or> e = TypeError then Inr 0 else Inl e
           | Inr r \<Rightarrow> Inr r))"

definition parse_pos :: "pyrt \<Rightarrow> json \<Rightarrow> exn + real list" where
  "parse_pos rt pos = ebind (iter pos) (emap (parse_coord rt))"

definition coord :: "real list \<Rightarrow> nat \<Rightarrow> exn + real" where
  \<comment> \<open>\<open>p[i]\<close> for a parsed position\<close>
  "coord p i = (if i < length p then Inr (p ! i) else Inl IndexError)"

definition get_float :: "pyrt \<Rightarrow> json \<Rightarrow> string \<Rightarrow> int \<Rightarrow> exn + real" where
  \<comment> \<open>\<open>float(movement.get(key, default))\<close>\<close>
  "get_float rt movement key dflt = ebind (get movement key (JInt dflt)) (float rt)"

definition frame_count :: "json \<Rightarrow> json \<Rightarrow> exn + json" where
  \<comment> \<open>\<open>num_frames = min(20, (tick_end - tick_start) // 5)\<close>\<close>
  "frame_count tick_start tick_end =
     ebind (py_sub tick_end tick_start) (\<lambda>d. ebind (floordiv_int d 5) (min_int 20))"

definition range_incl :: "json \<Rightarrow> exn + nat list" where
  \<comment> \<open>\<open>range(num_frames + 1)\<close>: the bound must be an integer\<close>
  "range_incl num_frames =
     ebind (py_add num_frames (JInt 1)) (\<lambda>n.
       if is_int n then Inr [0 ..< nat (int_val n)] else Inl TypeError)"

definition fraction :: "nat \<Rightarrow> json \<Rightarrow> exn + real" where
  \<comment> \<open>\<open>t = i / num_frames\<close>, for the integer \<open>num_frames\<close> that \<open>range\<close> accepted\<close>
  "fraction i num_frames =
     (if int_val num_frames = 0 then Inl ZeroDivisionError
      else Inr (nearest (of_nat i / of_int (int_val num_frames))))"

definition trunc :: "real \<Rightarrow> int" where
  \<comment> \<open>\<open>int(x)\<close> for a float\<close>
  "trunc x = (if x \<ge> 0 then \<lfloor>x\<rfloor> else \<lceil>x\<rceil>)"

definition frame_tick :: "json \<Rightarrow> json \<Rightarrow> real \<Rightarrow> exn + json" where
  \<comment> \<open>\<open>tick = tick_start + int((tick_end - tick_start) * t)\<close>\<close>
  "frame_tick tick_start tick_end t =
     ebind (py_sub tick_end tick_start) (\<lambda>d. ebind (as_float d) (\<lambda>x.
       py_add tick_start (JInt (trunc (nearest (x * t))))))"

definition radians :: "real \<Rightarrow> real" where
  \<comment> \<open>\<open>math.radians(x)\<close>: the product with the double constant \<open>pi / 180.0\<close>\<close>
  "radians x = nearest (x * nearest (nearest pi / 180))"

definition lerp :: "real \<Rightarrow> real \<Rightarrow> real \<Rightarrow> real" where
  \<comment> \<open>\<open>a + (b - a) * t\<close> on floats\<close>
  "lerp a b t = nearest (a + nearest (nearest (b - a) * t))"

definition orbit_frame ::
  "pyrt \<Rightarrow> json \<Rightarrow> json \<Rightarrow> json \<Rightarrow> real list \<Rightarrow> real \<Rightarrow> real \<Rightarrow> real \<Rightarrow> real \<Rightarrow> nat
     \<Rightarrow> CommandSequence \<Rightarrow> exn + CommandSequence" where
  "orbit_frame rt tick_start tick_end num_frames center radius start_angle end_angle height i seq =
     ebind (fraction i num_frames) (\<lambda>t.
       (let angle = radians (lerp start_angle end_angle t) in
        ebind (coord center 0) (\<lambda>c0. ebind (coord center 2) (\<lambda>c2. ebind (coord center 1) (\<lambda>c1.
        ebind (frame_tick tick_start tick_end t) (\<lambda>tk.
          add tk
            (''tp @p '' @ format_1f rt (nearest (c0 + nearest (radius * math_cos rt angle)))
               @ '' '' @ format_1f rt (nearest (c1 + height)) @ '' ''
               @ format_1f rt (nearest (c2 + nearest (radius * math_sin rt angle)))
               @ '' facing '' @ str rt (JFloat c0) @ '' '' @ str rt (JFloat c1) @ '' ''
               @ str rt (JFloat c2))
            (''Orbit frame '' @ str_int (int i)) ''camera'' seq))))))"

definition dolly_frame ::
  "pyrt \<Rightarrow> BBSCommandGenerator \<Rightarrow> json \<Rightarrow> json \<Rightarrow> json \<Rightarrow> real list \<Rightarrow> real list \<Rightarrow> json \<Rightarrow> nat
     \<Rightarrow> CommandSequence \<Rightarrow> exn + CommandSequence" where
  "dolly_frame rt self tick_start tick_end num_frames start_pos end_pos look_at i seq =
     ebind (fraction i num_frames) (\<lambda>t.
     ebind (coord start_pos 0) (\<lambda>s0. ebind (coord end_pos 0) (\<lambda>e0.
     ebind (coord start_pos 1) (\<lambda>s1. ebind (coord end_pos 1) (\<lambda>e1.
     ebind (coord start_pos 2) (\<lambda>s2. ebind (coord end_pos 2) (\<lambda>e2.
     ebind (frame_tick tick_start tick_end t) (\<lambda>tk.
       (let p = ''tp @p '' @ format_1f rt (lerp s0 e0 t) @ '' ''
                  @ format_1f rt (lerp s1 e1 t) @ '' ''
                  @ format_1f rt (lerp s2 e2 t)
        in if truthy look_at then
             ebind (hash_key look_at) (\<lambda>k.
               (case actor_registry self k of
                  Some entry \<Rightarrow>
                    add tk (p @ '' facing entity @e[name='' @ dq @ str rt (entry_name entry)
                              @ dq @ '']'')
                      (''Dolly frame '' @ str_int (int i)) ''camera'' seq
                | None \<Rightarrow> add tk p (''Dolly frame '' @ str_int (int i)) ''camera'' seq))
           else add tk p (''Dolly frame '' @ str_int (int i)) ''camera'' seq)))))))))"

definition camera_movement ::
  "pyrt \<Rightarrow> BBSCommandGenerator \<Rightarrow> json \<Rightarrow> CommandSequence \<Rightarrow> exn + CommandSequence" where
  \<comment> \<open>the body of \<open>for movement in camera.get('movements', [])\<close>\<close>
  "camera_movement rt self movement seq =
     ebind (get movement ''tick_start'' (JInt 0)) (\<lambda>tick_start.
     ebind (get movement ''tick_end'' (JInt 100)) (\<lambda>tick_end.
     ebind (get movement ''type'' (JStr ''static'')) (\<lambda>move_type.
       if move_type = JStr ''static'' then
         ebind (get movement ''position'' (JList [JInt 0, JInt 70, JInt 0])) (\<lambda>pos.
         ebind (xyz rt pos) (\<lambda>p.
           add tick_start (''tp @p '' @ p) ''Static camera position'' ''camera'' seq))
       else if move_type = JStr ''orbit'' then
         ebind (get movement ''center'' pos_default) (\<lambda>c.
         ebind (parse_pos rt c) (\<lambda>center.
         ebind (get_float rt movement ''radius'' 10) (\<lambda>radius.
         ebind (get_float rt movement ''start_angle'' 0) (\<lambda>start_angle.
         ebind (get_float rt movement ''end_angle'' 360) (\<lambda>end_angle.
         ebind (get_float rt movement ''height'' 5) (\<lambda>height.
         ebind (frame_count tick_start tick_end) (\<lambda>num_frames.
         ebind (range_incl num_frames) (\<lambda>frames.
           efold (orbit_frame rt tick_start tick_end num_frames center radius start_angle
                    end_angle height) frames seq))))))))
       else if move_type = JStr ''dolly'' then
         ebind (get movement ''start_position'' (JList [JInt 0, JInt 70, JInt 0])) (\<lambda>s.
         ebind (parse_pos rt s) (\<lambda>start_pos.
         ebind (get movement ''end_position'' (JList [JInt 10, JInt 70, JInt 0])) (\<lambda>e.
         ebind (parse_pos rt e) (\<lambda>end_pos.
         ebind (get movement ''look_at'' JNull) (\<lambda>look_at.
         ebind (frame_count tick_start tick_end) (\<lambda>num_frames.
         ebind (range_incl num_frames) (\<lambda>frames.
           efold (dolly_frame rt self tick_start tick_end num_frames start_pos end_pos look_at)
             frames seq)))))))
       else if move_type = JStr ''follow'' then
         ebind (get movement ''target'' JNull) (\<lambda>target.
         ebind (get movement ''distance'' (JInt 5)) (\<lambda>distance.
         ebind (get movement ''height'' (JInt 2)) (\<lambda>height.
           add tick_start
             (''# Camera follows '' @ str rt target @ '' at distance '' @ str rt distance)
             ''Follow camera setup'' ''camera'' seq)))
       else Inr seq)))"

definition fov_keyframe :: "pyrt \<Rightarrow> json \<Rightarrow> CommandSequence \<Rightarrow> exn + CommandSequence" where
  "fov_keyframe rt fov_kf seq =
     ebind (get fov_kf ''tick'' (JInt 0)) (\<lambda>tk.
     ebind (get fov_kf ''fov'' (JInt 70)) (\<lambda>fov.
       add tk (''# Set FOV to '' @ str rt fov) ''FOV keyframe'' ''aperture'' seq))"

definition generate_camera_commands ::
  "pyrt \<Rightarrow> BBSCommandGenerator \<Rightarrow> json \<Rightarrow> exn + CommandSequence" where
  "generate_camera_commands rt self camera =
     ebind (get camera ''movements'' (JList [])) (\<lambda>ms. ebind (iter ms) (\<lambda>movements.
     ebind (efold (camera_movement rt self) movements
              \<lparr>name = JStr ''camera'', commands = [], duration_ticks = JInt 0\<rparr>) (\<lambda>seq.
     ebind (get camera ''fov_keyframes'' (JList [])) (\<lambda>fs. ebind (iter fs) (\<lambda>fov_keyframes.
       efold (fov_keyframe rt) fov_keyframes seq)))))"

subsection \<open>Effects, scenes and the whole script\<close>

definition particle_map :: "(string \<times> string) list" where
  "particle_map =
     [(''explosion'', ''explosion''), (''smoke'', ''smoke''), (''fire'', ''flame''),
      (''magic'', ''enchant''), (''portal'', ''portal''), (''heart'', ''heart''),
      (''cloud'', ''cloud''), (''dust'', ''dust 1 0 0 1''), (''growth'', ''happy_villager'')]"

definition generate_effect_command :: "pyrt \<Rightarrow> json \<Rightarrow> exn + BBSCommand" where
  "generate_effect_command rt effect =
     ebind (get effect ''tick'' (JInt 0)) (\<lambda>tk.
     ebind (get effect ''type'' (JStr ''particles'')) (\<lambda>effect_type.
       if effect_type = JStr ''particles'' then
         ebind (get effect ''particle_type'' (JStr ''cloud'')) (\<lambda>particle.
         ebind (get effect ''position'' pos_default) (\<lambda>pos.
         ebind (get effect ''count'' (JInt 10)) (\<lambda>count.
         ebind (lookup particle_map particle particle) (\<lambda>mc_particle.
         ebind (xyz rt pos) (\<lambda>p.
           Inr \<lparr>tick = tk,
                command = ''particle '' @ str rt mc_particle @ '' '' @ p @ '' 1 1 1 0 ''
                            @ str rt count,
                description = str rt particle @ '' effect'', command_type = ''minecraft''\<rparr>)))))
       else
         Inr \<lparr>tick = tk, command = ''# Unknown effect'', description = ''Placeholder'',
              command_type = ''comment''\<rparr>))"

definition time_map :: "(string \<times> string) list" where
  "time_map =
     [(''day'', ''time set day''), (''noon'', ''time set noon''), (''sunset'', ''time set 12000''),
      (''night'', ''time set night''), (''midnight'', ''time set midnight''),
      (''sunrise'', ''time set 23000'')]"

definition weather_map :: "(string \<times> string) list" where
  "weather_map =
     [(''clear'', ''weather clear''), (''rain'', ''weather rain''),
      (''thunder'', ''weather thunder''), (''storm'', ''weather thunder'')]"

definition time_command :: "pyrt \<Rightarrow> json \<Rightarrow> exn + string" where
  "time_command rt scene =
     ebind (get scene ''setting'' (JDict [])) (\<lambda>setting.
     ebind (get setting ''time_of_day'' (JStr ''day'')) (\<lambda>time_of_day.
     ebind (lookup time_map time_of_day (JStr ''time set day'')) (\<lambda>c. Inr (str rt c))))"

definition weather_command :: "pyrt \<Rightarrow> json \<Rightarrow> exn + string" where
  "weather_command rt scene =
     ebind (get scene ''setting'' (JDict [])) (\<lambda>setting.
     ebind (get setting ''weather'' (JStr ''clear'')) (\<lambda>weather.
     ebind (lookup weather_map weather (JStr ''weather clear'')) (\<lambda>c. Inr (str rt c))))"

definition world_modification ::
  "pyrt \<Rightarrow> nat \<times> json \<Rightarrow> CommandSequence \<Rightarrow> exn + CommandSequence" where
  \<comment> \<open>the body of \<open>for i, mod in enumerate(...)\<close>\<close>
  "world_modification rt im seq =
     ebind (str_lower (snd im)) (\<lambda>mod_lower.
       add (JInt (int (fst im) * 5))
         (if contains ''castle'' mod_lower
            then ''execute at @p run place structure minecraft:pillager_outpost ~ ~ ~''
          else if contains ''village'' mod_lower
            then ''execute at @p run place structure minecraft:village_plains ~ ~ ~''
          else if contains ''house'' mod_lower
            then ''execute at @p run place structure minecraft:plains_village_shepherds_house_1 ~ ~ ~''
          else if contains ''tower'' mod_lower
            then ''execute at @p run place structure minecraft:pillager_outpost ~ ~ ~''
          else ''say [Agent] World Mod: '' @ str rt (snd im))
         (''Build '' @ str rt (snd im)) ''minecraft'' seq)"

definition scene_actor ::
  "pyrt \<Rightarrow> json \<Rightarrow> CommandSequence \<Rightarrow> BBSCommandGenerator \<Rightarrow> CommandSequence outcome" where
  \<comment> \<open>the body of \<open>for actor in scene.get('actors', [])\<close>\<close>
  "scene_actor rt actor seq self =
     gbind (generate_actor_commands rt self actor) (\<lambda>actor_cmds g.
       Inr (seq\<lparr>commands := commands seq @ commands actor_cmds\<rparr>, g))"

definition generate_scene_commands ::
  "pyrt \<Rightarrow> BBSCommandGenerator \<Rightarrow> json \<Rightarrow> CommandSequence outcome" where
  "generate_scene_commands rt self scene =
     attempt self (get scene ''name'' (JStr ''unnamed_scene'')) (\<lambda>nm.
     attempt self (time_command rt scene) (\<lambda>time_cmd.
     attempt self (add (JInt 0) time_cmd ''Set time of day'' ''minecraft''
              \<lparr>name = nm, commands = [], duration_ticks = JInt 0\<rparr>) (\<lambda>seq1.
     attempt self (weather_command rt scene) (\<lambda>weather_cmd.
     attempt self (add (JInt 0) weather_cmd ''Set weather'' ''minecraft'' seq1) (\<lambda>seq2.
     attempt self (get scene ''setting'' (JDict [])) (\<lambda>setting.
     attempt self (get setting ''world_modifications'' (JList [])) (\<lambda>ms.
     attempt self (iter ms) (\<lambda>mods.
     attempt self (efold (world_modification rt) (enumerate 0 mods) seq2) (\<lambda>seq3.
     attempt self (get scene ''actors'' (JList [])) (\<lambda>as.
     attempt self (iter as) (\<lambda>actors.
     gbind (gfold (scene_actor rt) actors seq3 self) (\<lambda>seq4 g.
     attempt g (get scene ''camera'' (JDict [])) (\<lambda>camera.
     attempt g (generate_camera_commands rt g camera) (\<lambda>camera_cmds.
     attempt g (get scene ''effects'' (JList [])) (\<lambda>es.
     attempt g (iter es) (\<lambda>effects.
     attempt g (emap (generate_effect_command rt) effects) (\<lambda>effect_cmds.
     attempt g (get scene ''duration_seconds'' (JInt 30)) (\<lambda>duration_seconds.
     attempt g (mul_int duration_seconds 20) (\<lambda>d.
       Inr (seq4\<lparr>commands := commands seq4 @ commands camera_cmds @ effect_cmds,
                 duration_ticks := d\<rparr>,
            g))))))))))))))))))))"

record scene_entry =
  entry_scene_name :: json
  start_tick :: json
  entry_duration_ticks :: json
  entry_commands :: "BBSCommand list"

record script =
  title :: json
  total_duration_ticks :: json
  total_duration_seconds :: real
  scenes :: "scene_entry list"

definition to_list :: "BBSCommand list \<Rightarrow> BBSCommand list" where
  \<comment> \<open>\<open>CommandSequence.to_list\<close>: the commands in the order of their ticks, all of them
      numbers by then; Python's \<open>sorted\<close> is stable\<close>
  "to_list cmds = sort_key (\<lambda>c. num_val (tick c)) cmds"

definition offset_command :: "json \<Rightarrow> BBSCommand \<Rightarrow> exn + BBSCommand" where
  \<comment> \<open>\<open>cmd.tick += current_tick_offset\<close>\<close>
  "offset_command current_tick_offset cmd =
     ebind (py_add (tick cmd) current_tick_offset) (\<lambda>t. Inr (cmd\<lparr>tick := t\<rparr>))"

definition script_scene ::
  "pyrt \<Rightarrow> json \<Rightarrow> scene_entry list \<times> json \<Rightarrow> BBSCommandGenerator
     \<Rightarrow> (scene_entry list \<times> json) outcome" where
  \<comment> \<open>the body of \<open>for scene in storyboard.get('scenes', [])\<close>; the state of the loop is
      the list \<open>result["scenes"]\<close> with \<open>current_tick_offset\<close>\<close>
  "script_scene rt scene st self =
     (case st of (entries, current_tick_offset) \<Rightarrow>
        gbind (generate_scene_commands rt self scene) (\<lambda>scene_seq g.
        attempt g (emap (offset_command current_tick_offset) (commands scene_seq)) (\<lambda>cmds.
        attempt g (py_add current_tick_offset (duration_ticks scene_seq)) (\<lambda>next_offset.
          Inr ((entries
                  @ [\<lparr>entry_scene_name = name scene_seq, start_tick = current_tick_offset,
                      entry_duration_ticks = duration_ticks scene_seq,
                      entry_commands = to_list cmds\<rparr>],
                next_offset), g)))))"

definition generate_full_script :: "pyrt \<Rightarrow> BBSCommandGenerator \<Rightarrow> json \<Rightarrow> script outcome" where
  "generate_full_script rt self storyboard =
     attempt self (get storyboard ''title'' (JStr ''Untitled'')) (\<lambda>ttl.
     attempt self (get storyboard ''scenes'' (JList [])) (\<lambda>ss.
     attempt self (iter ss) (\<lambda>scs.
     gbind (gfold (script_scene rt) scs ([], JInt 0) self) (\<lambda>st g.
       (case st of (entries, current_tick_offset) \<Rightarrow>
          attempt g (truediv_int current_tick_offset 20) (\<lambda>seconds.
            Inr (\<lparr>title = ttl, total_duration_ticks = current_tick_offset,
                  total_duration_seconds = seconds, scenes = entries\<rparr>,
                 g)))))))"

text \<open>
  The agent builds one generator (\<open>self.command_gen = BBSCommandGenerator()\<close> in
  \<open>agent.py\<close>) and calls \<open>generate_full_script\<close> on it for each storyboard that it is given
  (\<open>generate_commands\<close>); the loop of \<open>run_agent.py\<close> catches the exception of one call and
  goes on with the next instruction. The generator after a series of such calls:
\<close>

definition compilations :: "pyrt \<Rightarrow> BBSCommandGenerator \<Rightarrow> json list \<Rightarrow> BBSCommandGenerator" where
  "compilations rt self storyboards =
     foldl (\<lambda>g storyboard. after (generate_full_script rt g storyboard)) self storyboards"

subsection \<open>What it means for an entry of the script to come from a scene\<close>

text \<open>
  The entry \<open>e\<close> of \<open>result["scenes"]\<close> is the assembled form of \<open>scene\<close>: the scene
  compiles (from some state of the generator) to a sequence whose name and duration are
  the entry's, the duration being \<open>duration_seconds * 20\<close>, and the entry's commands are
  the sequence's commands, each with the entry's \<open>start_tick\<close> added to its tick, sorted
  by tick.
\<close>

definition assembles :: "pyrt \<Rightarrow> json \<Rightarrow> scene_entry \<Rightarrow> bool" where
  "assembles rt scene e \<longleftrightarrow>
     (\<exists>self seq self' duration_seconds cmds.
        generate_scene_commands rt self scene = Inr (seq, self')
        \<and> entry_scene_name e = name seq
        \<and> get scene ''duration_seconds'' (JInt 30) = Inr duration_seconds
        \<and> mul_int duration_seconds 20 = Inr (entry_duration_ticks e)
        \<and> list_all2 (\<lambda>c c'. c' = c\<lparr>tick := tick c'\<rparr>
               \<and> num_val (tick c') = num_val (tick c) + num_val (start_tick e))
             (commands seq) cmds
        \<and> entry_commands e = to_list cmds)"


definition storyboard_scenes :: "json \<Rightarrow> exn + json list" where
  \<comment> \<open>the scenes that \<open>generate_full_script\<close> walks\<close>
  "storyboard_scenes storyboard = ebind (get storyboard ''scenes'' (JList [])) iter"

subsection \<open>What \<open>_parse_pos\<close> makes of one coordinate\<close>

text \<open>
  The documented default: a coordinate that \<open>float\<close> rejects with \<open>ValueError\<close> or
  \<open>TypeError\<close> (a string that is no number, \<open>None\<close>, a list, a dict) counts as 0.0.
\<close>

definition coordinate :: "pyrt \<Rightarrow> json \<Rightarrow> real" where
  "coordinate rt x =
     (case x of
        JStr s \<Rightarrow>
          (case float_of_str rt (let v = replace CHR ''~'' [] s in if v = [] then ''0'' else v) of
             None \<Rightarrow> 0 | Some r \<Rightarrow> r)
      | JFloat r \<Rightarrow> r
      | JInt i \<Rightarrow> nearest (of_int i)
      | JBool b \<Rightarrow> (if b then 1 else 0)
      | _ \<Rightarrow> 0)"

subsection \<open>Storyboards of the expected shape\<close>

text \<open>
  What the compiler expects of a storyboard, field by field. Every field may be missing:
  \<open>field d key P\<close> says that \<open>d\<close> is a mapping in which \<open>key\<close> is absent or has a value
  that satisfies \<open>P\<close>. A tick or a duration is a number; a position is a list of at
  least three items, of any type where \<open>_parse_pos\<close> reads it (the centre of an orbit,
  the ends of a dolly); a name or a type is a string; an id or a \<open>look_at\<close> is hashable;
  the radius, the angles and the height of an orbit are numbers or strings that \<open>float\<close>
  accepts; the target of a \<open>look_at\<close> action is a list of three items, or a string that
  either names an entity or holds three words. An orbit or a dolly has integer ticks
  whose difference is not from 0 to 4 (the frame count of such a movement is 0, and the
  interpolation divides by it).
\<close>

definition field :: "json \<Rightarrow> string \<Rightarrow> (json \<Rightarrow> bool) \<Rightarrow> bool" where
  "field d key P =
     (case d of
        JDict kvs \<Rightarrow> (case map_of kvs key of None \<Rightarrow> True | Some v \<Rightarrow> P v)
      | _ \<Rightarrow> False)"

definition is_str :: "json \<Rightarrow> bool" where
  "is_str v = (case v of JStr _ \<Rightarrow> True | _ \<Rightarrow> False)"

definition list_of :: "(json \<Rightarrow> bool) \<Rightarrow> json \<Rightarrow> bool" where
  "list_of P v = (case v of JList xs \<Rightarrow> list_all P xs | _ \<Rightarrow> False)"

definition hashable :: "json \<Rightarrow> bool" where
  "hashable v = (case v of JList _ \<Rightarrow> False | JDict _ \<Rightarrow> False | _ \<Rightarrow> True)"

definition triple :: "json \<Rightarrow> bool" where
  "triple v = (case v of JList xs \<Rightarrow> 3 \<le> length xs | _ \<Rightarrow> False)"

definition floatable :: "pyrt \<Rightarrow> json \<Rightarrow> bool" where
  "floatable rt v = (case v of JStr s \<Rightarrow> float_of_str rt s \<noteq> None | _ \<Rightarrow> is_number v)"

definition look_target :: "json \<Rightarrow> bool" where
  "look_target v =
     (case v of
        JList xs \<Rightarrow> 3 \<le> length xs
      | JStr s \<Rightarrow> coordinate_like s \<longrightarrow> 3 \<le> length (split s)
      | _ \<Rightarrow> False)"

definition action_ok :: "json \<Rightarrow> bool" where
  "action_ok action \<longleftrightarrow>
     field action ''tick'' is_number \<and> field action ''position'' triple
     \<and> field action ''target_position'' triple \<and> field action ''target'' look_target"

definition actor_ok :: "json \<Rightarrow> bool" where
  "actor_ok actor \<longleftrightarrow>
     field actor ''id'' hashable \<and> field actor ''name'' is_str \<and> field actor ''type'' is_str
     \<and> field actor ''actions'' (list_of action_ok)"

definition steps_ok :: "json \<Rightarrow> bool" where
  "steps_ok movement =
     (case (get movement ''type'' (JStr ''static''), get movement ''tick_start'' (JInt 0),
            get movement ''tick_end'' (JInt 100)) of
        (Inr move_type, Inr tick_start, Inr tick_end) \<Rightarrow>
          move_type = JStr ''orbit'' \<or> move_type = JStr ''dolly'' \<longrightarrow>
            is_int tick_start \<and> is_int tick_end
            \<and> \<not> (0 \<le> int_val tick_end - int_val tick_start
                  \<and> int_val tick_end - int_val tick_start < 5)
      | _ \<Rightarrow> False)"

definition movement_ok :: "pyrt \<Rightarrow> json \<Rightarrow> bool" where
  "movement_ok rt movement \<longleftrightarrow>
     field movement ''tick_start'' is_number \<and> field movement ''tick_end'' is_number
     \<and> field movement ''position'' triple \<and> field movement ''center'' triple
     \<and> field movement ''start_position'' triple \<and> field movement ''end_position'' triple
     \<and> field movement ''radius'' (floatable rt) \<and> field movement ''start_angle'' (floatable rt)
     \<and> field movement ''end_angle'' (floatable rt) \<and> field movement ''height'' (floatable rt)
     \<and> field movement ''look_at'' hashable \<and> steps_ok movement"

definition keyframe_ok :: "json \<Rightarrow> bool" where
  "keyframe_ok fov_kf \<longleftrightarrow> field fov_kf ''tick'' is_number"

definition camera_ok :: "pyrt \<Rightarrow> json \<Rightarrow> bool" where
  "camera_ok rt camera \<longleftrightarrow>
     field camera ''movements'' (list_of (movement_ok rt))
     \<and> field camera ''fov_keyframes'' (list_of keyframe_ok)"

definition effect_ok :: "json \<Rightarrow> bool" where
  "effect_ok effect \<longleftrightarrow>
     field effect ''tick'' is_number \<and> field effect ''particle_type'' hashable
     \<and> field effect ''position'' triple"

definition setting_ok :: "json \<Rightarrow> bool" where
  "setting_ok setting \<longleftrightarrow>
     field setting ''time_of_day'' hashable \<and> field setting ''weather'' hashable
     \<and> field setting ''world_modifications'' (list_of is_str)"

definition scene_ok :: "pyrt \<Rightarrow> json \<Rightarrow> bool" where
  "scene_ok rt scene \<longleftrightarrow>
     field scene ''setting'' setting_ok \<and> field scene ''actors'' (list_of actor_ok)
     \<and> field scene ''camera'' (camera_ok rt) \<and> field scene ''effects'' (list_of effect_ok)
     \<and> field scene ''duration_seconds'' is_number"

definition storyboard_ok :: "pyrt \<Rightarrow> json \<Rightarrow> bool" where
  "storyboard_ok rt storyboard \<longleftrightarrow> field storyboard ''scenes'' (list_of (scene_ok rt))"

text \<open>
  A call is \<open>safe\<close> when it returns a value with a given property or raises
  \<open>OverflowError\<close>, the exception of an integer that has no finite double; \<open>gsafe\<close> is the
  same for the methods that give the generator back. A sequence is \<open>numbered\<close> when its
  duration and the ticks of its commands are numbers.
\<close>

definition safe :: "exn + 'a \<Rightarrow> ('a \<Rightarrow> bool) \<Rightarrow> bool" where
  "safe m Q = (case m of Inl e \<Rightarrow> e = OverflowError | Inr x \<Rightarrow> Q x)"

definition gsafe :: "'a outcome \<Rightarrow> ('a \<Rightarrow> bool) \<Rightarrow> bool" where
  "gsafe m Q = (case m of Inl (e, g) \<Rightarrow> e = OverflowError | Inr (x, g) \<Rightarrow> Q x)"

definition numbered :: "CommandSequence \<Rightarrow> bool" where
  "numbered seq \<longleftrightarrow>
     is_number (duration_ticks seq) \<and> list_all (\<lambda>c. is_number (tick c)) (commands seq)"

subsection \<open>A runtime to evaluate examples with\<close>

text \<open>
  Its \<open>float\<close> accepts an optional sign followed by decimal digits and rejects every
  other string (CPython accepts more: fractions, exponents, \<open>inf\<close>, \<open>nan\<close>); its format
  \<open>.1f\<close> rounds half to even at the first decimal; its \<open>str\<close> shows a float with one
  decimal, which is what CPython shows for a float that has no more than one, and is
  not asked for lists and dicts in the examples; its cosine and sine are the doubles
  nearest to the exact ones.
\<close>

definition decimal :: "string \<Rightarrow> nat option" where
  "decimal s =
     (if s \<noteq> [] \<and> list_all (\<lambda>c. 48 \<le> (of_char c :: nat) \<and> (of_char c :: nat) \<le> 57) s
      then Some (foldl (\<lambda>n c. 10 * n + (of_char c - 48)) 0 s) else None)"

definition sample_float_of_str :: "string \<Rightarrow> real option" where
  "sample_float_of_str s =
     (case s of
        [] \<Rightarrow> None
      | c # t \<Rightarrow>
          if c = CHR ''-'' then map_option (\<lambda>n. - nearest (real n)) (decimal t)
          else if c = CHR ''+'' then map_option (\<lambda>n. nearest (real n)) (decimal t)
          else map_option (\<lambda>n. nearest (real n)) (decimal s))"

definition sample_format_1f :: "real \<Rightarrow> string" where
  "sample_format_1f x =
     (let m = nat (round_half_even (\<bar>x\<bar> * 10))
      in (if x < 0 then ''-'' else []) @ digits (m div 10) @ ''.'' @ digits (m mod 10))"

definition sample_rt :: pyrt where
  "sample_rt =
     \<lparr>float_of_str = sample_float_of_str, format_1f = sample_format_1f,
      repr = (\<lambda>v. case v of JFloat r \<Rightarrow> sample_format_1f r | _ \<Rightarrow> ''...''),
      math_cos = (\<lambda>x. nearest (cos x)), math_sin = (\<lambda>x. nearest (sin x))\<rparr>"

section \<open>Facts about floats\<close>

lemma round_half_even_of_int [simp]: "round_half_even (of_int i) = i"
  by (simp add: round_half_even_def)

lemma nearest_of_int:
  assumes "\<bar>i\<bar> < 2 ^ 53"
  shows "nearest (of_int i) = of_int i"
proof (cases "i = 0")
  case True
  then show ?thesis by (simp add: nearest_def)
next
  case False
  then have pos: "0 < \<bar>i\<bar>" by simp
  define k where "k = bitlen \<bar>i\<bar> - 1"
  from bitlen_bounds [OF pos] have lo: "2 ^ nat k \<le> \<bar>i\<bar>"
    by (simp add: k_def)
  from pos have k0: "0 \<le> k"
    using bitlen_alt_def [of "\<bar>i\<bar>"] by (simp add: k_def)
  have "k < 53"
  proof (rule ccontr)
    assume "\<not> k < 53"
    then have "(2::int) ^ 53 \<le> 2 ^ nat k"
      by (intro power_increasing) auto
    with lo assms show False by simp
  qed
  have "1 \<le> \<bar>real_of_int i\<bar>"
    using False by (simp flip: of_int_abs)
  then have ex: "exponent (of_int i) = k"
    by (simp add: exponent_def k_def flip: of_int_abs)
  have e: "max (exponent (of_int i)) (- 1022) - 52 = k - 52"
    using ex k0 by simp
  have scale: "(of_int i :: real) * 2 powi (- (k - 52)) = of_int (i * 2 ^ nat (52 - k))"
    using \<open>k < 53\<close> by (simp add: power_int_def)
  have rear: "(2::real) ^ nat (52 - k) * 2 powi (k - 52) = 1"
    using \<open>k < 53\<close> by (simp add: power_int_def nat_diff_distrib' field_simps)
  show ?thesis
    using False unfolding nearest_def e Let_def scale round_half_even_of_int
    using rear by (simp add: algebra_simps)
qed

lemma nearest_numeral [simp]:
  "numeral n < (2::int) ^ 53 \<Longrightarrow> nearest (numeral n) = numeral n"
  using nearest_of_int [of "numeral n"] by simp

lemma nearest_0 [simp]: "nearest 0 = 0" by (simp add: nearest_def)
lemma nearest_1 [simp]: "nearest 1 = 1" using nearest_of_int [of 1] by simp

lemma bitlen_eqI:
  assumes "2 ^ k \<le> x" "x < 2 ^ Suc k"
  shows "bitlen x = int k + 1"
proof -
  from assms(1) have pos: "0 < x"
    by (smt (verit) zero_less_power)
  from bitlen_bounds [OF pos] assms have "nat (bitlen x - 1) < Suc k" "k < nat (bitlen x)"
    by (smt (verit, best) power_less_imp_less_exp one_less_numeral_iff semiring_norm(76))+
  then show ?thesis by linarith
qed

lemma float_of_int_small:
  "\<bar>i\<bar> < 2 ^ 53 \<Longrightarrow> float_of_int i = Inr (of_int i)"
proof -
  assume a: "\<bar>i\<bar> < 2 ^ 53"
  then have "\<bar>real_of_int i\<bar> < 2 ^ 53"
    by (metis of_int_abs of_int_less_numeral_power_cancel_iff)
  also have "\<dots> < (2::real) ^ 1024"
    by simp
  finally show ?thesis
    using nearest_of_int [OF a] by (simp add: float_of_int_def)
qed

lemma float_of_int_numeral [simp]:
  "numeral n < (2::int) ^ 53 \<Longrightarrow> float_of_int (numeral n) = Inr (numeral n)"
  "float_of_int 0 = Inr 0" "float_of_int 1 = Inr 1"
  using float_of_int_small [of "numeral n"] float_of_int_small [of 0] float_of_int_small [of 1]
  by simp_all

lemma exponent_le:
  assumes "x \<noteq> 0"
  shows "2 powi (exponent x) \<le> \<bar>x\<bar>"
proof (cases "\<bar>x\<bar> \<ge> 1")
  case True
  then have pos: "0 < \<lfloor>\<bar>x\<bar>\<rfloor>" by linarith
  from bitlen_bounds [OF pos] have "2 ^ nat (bitlen \<lfloor>\<bar>x\<bar>\<rfloor> - 1) \<le> \<lfloor>\<bar>x\<bar>\<rfloor>"
    by simp
  then have "(2::real) ^ nat (bitlen \<lfloor>\<bar>x\<bar>\<rfloor> - 1) \<le> of_int \<lfloor>\<bar>x\<bar>\<rfloor>"
    by (metis of_int_le_iff of_int_numeral of_int_power)
  also have "\<dots> \<le> \<bar>x\<bar>" by linarith
  finally have "(2::real) ^ nat (bitlen \<lfloor>\<bar>x\<bar>\<rfloor> - 1) \<le> \<bar>x\<bar>" .
  moreover from pos have "0 \<le> bitlen \<lfloor>\<bar>x\<bar>\<rfloor> - 1"
    using bitlen_alt_def [of "\<lfloor>\<bar>x\<bar>\<rfloor>"] by simp
  ultimately show ?thesis
    using True by (simp add: exponent_def power_int_def)
next
  case False
  define n where "n = \<lceil>1 / \<bar>x\<bar>\<rceil> - 1"
  from False assms have small: "0 < \<bar>x\<bar>" "\<bar>x\<bar> < 1" by simp_all
  then have "1 < 1 / \<bar>x\<bar>" by simp
  then have pos: "0 < n" unfolding n_def by linarith
  from bitlen_bounds [OF pos] have "n < 2 ^ nat (bitlen n)" by simp
  then have "\<lceil>1 / \<bar>x\<bar>\<rceil> \<le> 2 ^ nat (bitlen n)" by (simp add: n_def)
  then have "1 / \<bar>x\<bar> \<le> of_int (2 ^ nat (bitlen n))"
    by (simp add: ceiling_le_iff)
  then have "1 / \<bar>x\<bar> \<le> 2 ^ nat (bitlen n)" by simp
  with small have "1 / 2 ^ nat (bitlen n) \<le> \<bar>x\<bar>"
    by (simp add: field_simps)
  moreover from pos have "0 < bitlen n"
    using bitlen_alt_def [of n] by simp
  ultimately show ?thesis
    using False by (simp add: exponent_def n_def power_int_def field_simps)
qed

lemma round_half_even_le: "x \<le> of_int n \<Longrightarrow> round_half_even x \<le> n"
  unfolding round_half_even_def Let_def by (auto split: if_splits; linarith)

lemma round_half_even_nonneg: "0 \<le> x \<Longrightarrow> 0 \<le> round_half_even x"
  unfolding round_half_even_def Let_def by (auto split: if_splits; linarith)

lemma nearest_nonneg: "0 \<le> x \<Longrightarrow> 0 \<le> nearest x"
  by (simp add: nearest_def Let_def round_half_even_nonneg)

lemma nearest_le_power2:
  assumes "0 \<le> x" "x \<le> 2 ^ k"
  shows "nearest x \<le> 2 ^ k"
proof (cases "x = 0")
  case True
  then show ?thesis by (simp add: nearest_def)
next
  case False
  define e where "e = max (exponent x) (- 1022) - 52"
  from exponent_le [OF False] assms have "2 powi (exponent x) \<le> (2::real) powi (int k)"
    by simp
  then have "exponent x \<le> int k"
    by (rule power_int_le_imp_le_exp [rotated]) simp_all
  then have ek: "e \<le> int k" by (simp add: e_def)
  have "x * 2 powi (- e) \<le> 2 ^ k * 2 powi (- e)"
    using assms(2) by (simp add: mult_right_mono)
  also have "\<dots> = 2 powi (int k - e)"
    by (simp add: power_int_diff power_int_minus field_simps)
  also have "\<dots> = of_int (2 ^ nat (int k - e))"
    using ek by (simp add: power_int_def)
  finally have "round_half_even (x * 2 powi (- e)) \<le> 2 ^ nat (int k - e)"
    by (rule round_half_even_le)
  then have "real_of_int (round_half_even (x * 2 powi (- e))) \<le> 2 ^ nat (int k - e)"
    by (metis of_int_le_iff of_int_numeral of_int_power)
  then have "of_int (round_half_even (x * 2 powi (- e))) * 2 powi e
      \<le> 2 ^ nat (int k - e) * (2::real) powi e"
    by (simp add: mult_right_mono)
  also have "\<dots> = 2 powi (int k - e) * 2 powi e"
    using ek by (simp add: power_int_def)
  also have "\<dots> = 2 ^ k"
    by (simp add: power_int_diff)
  finally show ?thesis
    using False by (simp add: nearest_def e_def)
qed

lemma sleepable_small:
  assumes "0 \<le> ms" "ms \<le> 2 ^ 40"
  shows "sleepable ms"
proof -
  from assms have "\<bar>ms\<bar> < 2 ^ 53" by simp
  then have conv: "float_of_int ms = Inr (of_int ms)"
    by (rule float_of_int_small)
  define secs where "secs = nearest (real_of_int ms / 1000)"
  from assms(2) have "real_of_int ms \<le> 2 ^ 40"
    by (metis of_int_le_iff of_int_numeral of_int_power)
  then have "real_of_int ms / 1000 \<le> 2 ^ 31" by simp
  moreover from assms(1) have "0 \<le> real_of_int ms / 1000" by simp
  ultimately have secs: "0 \<le> secs" "secs \<le> 2 ^ 31"
    unfolding secs_def using nearest_nonneg nearest_le_power2 by blast+
  then have "0 \<le> secs * 10 ^ 9" "secs * 10 ^ 9 \<le> 2 ^ 61" by simp_all
  then have "0 \<le> nearest (secs * 10 ^ 9)" "nearest (secs * 10 ^ 9) \<le> 2 ^ 61"
    using nearest_nonneg nearest_le_power2 by blast+
  moreover have "(2::real) ^ 61 < 2 ^ 63" by simp
  ultimately have "time_sleep secs = None"
    using secs(1) by (simp add: time_sleep_def Let_def)
  then show ?thesis
    by (simp add: sleepable_def conv secs_def)
qed

lemma float_2_53_1: "nearest 9007199254740993 = 9007199254740992"
proof -
  have "bitlen 9007199254740993 = int 53 + 1"
    by (rule bitlen_eqI) simp_all
  then have "exponent 9007199254740993 = 53"
    by (simp add: exponent_def)
  then show ?thesis
    by (simp add: nearest_def round_half_even_def power_int_def power_one_over divide_simps)
qed

lemma three_elevenths: "nearest (3 / 11) = 1228254443828317 / 2 ^ 52"
proof -
  have "bitlen 3 = int 1 + 1"
    by (rule bitlen_eqI) simp_all
  then have "exponent (3 / 11) = - 2"
    by (simp add: exponent_def)
  then show ?thesis
    by (simp add: nearest_def round_half_even_def power_int_def power_one_over divide_simps)
qed

lemma prod55: "nearest (55 * (1228254443828317 / 2 ^ 52)) = 8444249301319679 / 2 ^ 49"
proof -
  have "bitlen 14 = int 3 + 1"
    by (rule bitlen_eqI) simp_all
  moreover have "\<lfloor>(55 * 1228254443828317 / 2 ^ 52 :: real)\<rfloor> = 14"
    by (simp add: floor_eq_iff)
  ultimately have "exponent (55 * (1228254443828317 / 2 ^ 52)) = 3"
    by (simp add: exponent_def)
  then show ?thesis
    by (simp add: nearest_def round_half_even_def power_int_def power_one_over divide_simps)
qed

section \<open>Facts about the filter\<close>

lemma safety_filter_map:
  "safety_filter cmds = map (\<lambda>cmd. if blocked cmd then placeholder cmd else cmd) cmds"
  by (induction cmds) simp_all

lemma length_safety_filter: "length (safety_filter cmds) = length cmds"
  by (simp add: safety_filter_map)

lemma nth_safety_filter:
  "i < length cmds \<Longrightarrow>
     safety_filter cmds ! i = (if blocked (cmds ! i) then placeholder (cmds ! i) else cmds ! i)"
  by (simp add: safety_filter_map)

text \<open>
  Stripping keeps a prefix that begins and ends with a character that is not white space.
\<close>

lemma strip_keeps_prefix:
  assumes "p \<noteq> []" "\<not> isspace (hd p)" "\<not> isspace (last p)"
  shows "startswith (strip (p @ r)) p"
proof -
  have lead: "dropWhile isspace (p @ r) = p @ r"
    using assms(1,2) by (cases p) simp_all
  have rear: "\<exists>t. dropWhile isspace (rev r @ rev p) = t @ rev p"
  proof (cases "\<forall>x\<in>set (rev r). isspace x")
    case True
    have "dropWhile isspace (rev p) = rev p"
      using assms(1,3) by (cases "rev p") (simp_all add: hd_rev)
    with True have "dropWhile isspace (rev r @ rev p) = [] @ rev p"
      by (simp add: dropWhile_append)
    then show ?thesis by blast
  next
    case False
    then have "dropWhile isspace (rev r @ rev p) = dropWhile isspace (rev r) @ rev p"
      by (auto simp: dropWhile_append)
    then show ?thesis by blast
  qed
  then obtain t where "dropWhile isspace (rev r @ rev p) = t @ rev p" ..
  then have "strip (p @ r) = p @ rev t"
    by (simp add: strip_def lead)
  then show ?thesis
    by (simp add: startswith_def)
qed

lemma placeholder_strip: "\<not> startswith (strip (placeholder cmd)) ''tp @''"
proof -
  have "startswith (strip (''#'' @ ('' BLOCKED UNSAFE COMMAND: '' @ cmd))) ''#''"
    by (rule strip_keeps_prefix) (simp_all add: isspace_def)
  then show ?thesis
    by (auto simp: placeholder_def startswith_def prefix_def)
qed

lemma startswith_tp_strip:
  assumes "startswith cmd (''tp @'' @ q)"
  shows "startswith (strip cmd) ''tp @''"
proof -
  from assms obtain r where "cmd = ''tp @'' @ (q @ r)"
    by (auto simp: startswith_def prefix_def)
  moreover have "startswith (strip (''tp @'' @ (q @ r))) ''tp @''"
    by (rule strip_keeps_prefix) (simp_all add: isspace_def)
  ultimately show ?thesis by simp
qed

lemma contains_placeholder:
  "contains (CHR '' '' # p) (placeholder cmd) \<longleftrightarrow>
     contains (CHR '' '' # p) cmd \<or> startswith cmd p"
  if "p = ''tp @a'' \<or> p = ''tp @p''"
  using that
  by (auto simp: placeholder_def contains_def startswith_def sublist_Cons_right)

lemma blocked_placeholder:
  "blocked (placeholder cmd) \<longleftrightarrow>
     contains '' tp @a'' cmd \<or> contains '' tp @p'' cmd
     \<or> startswith cmd ''tp @a'' \<or> startswith cmd ''tp @p''"
  using contains_placeholder [of "''tp @a''" cmd] contains_placeholder [of "''tp @p''" cmd]
  by (auto simp: blocked_def placeholder_strip)

lemma reblocked_is_blocked:
  assumes "blocked (placeholder cmd)"
  shows "blocked cmd"
proof -
  from assms consider "contains '' tp @a'' cmd \<or> contains '' tp @p'' cmd"
    | "startswith cmd (''tp @'' @ ''a'')" | "startswith cmd (''tp @'' @ ''p'')"
    by (auto simp: blocked_placeholder)
  then show ?thesis
  proof cases
    case 1
    then show ?thesis by (auto simp: blocked_def)
  next
    case 2
    then show ?thesis using startswith_tp_strip by (simp add: blocked_def del: append.simps)
  next
    case 3
    then show ?thesis using startswith_tp_strip by (simp add: blocked_def del: append.simps)
  qed
qed

lemma placeholder_neq: "placeholder cmd \<noteq> cmd"
proof
  assume "placeholder cmd = cmd"
  then have "length (placeholder cmd) = length cmd" by simp
  then show False by (simp add: placeholder_def)
qed

lemma filter_twice_one:
  "(if blocked (if blocked cmd then placeholder cmd else cmd)
    then placeholder (if blocked cmd then placeholder cmd else cmd)
    else (if blocked cmd then placeholder cmd else cmd))
   = (if blocked cmd then placeholder cmd else cmd)
   \<longleftrightarrow> \<not> blocked (placeholder cmd)"
  using reblocked_is_blocked [of cmd] placeholder_neq [of "placeholder cmd"]
  by auto

text \<open>Every selector that the generator builds addresses entities.\<close>

lemma get_target_selector_prefix:
  assumes "get_target_selector nm actor_type = Inr selector"
  shows "\<exists>rest. selector = ''@e['' @ rest"
  using assms
  by (auto simp: get_target_selector_def ebind_def Let_def split: sum.splits if_splits json.splits)

section \<open>Claims about the safety filter\<close>

text \<open>
  C3 (as stated): the filter is idempotent on every list of command strings. The
  placeholder keeps the original text after a space, so the placeholder of a player
  teleport still contains \<open>" tp @p"\<close> and is wrapped a second time.
\<close>

theorem safety_filter_not_idempotent:
  "safety_filter (safety_filter [''tp @p 1 2 3'']) \<noteq> safety_filter [''tp @p 1 2 3'']"
  by (simp add: blocked_def placeholder_def startswith_def contains_def strip_def isspace_def
      sublist_Cons_right)

text \<open>
  C3 (amended): filtering a filtered list gives the same list exactly when no command of
  the original list contains \<open>" tp @a"\<close> or \<open>" tp @p"\<close> or starts with \<open>"tp @a"\<close> or
  \<open>"tp @p"\<close>; in particular the filter is idempotent on lists whose only teleports
  address entity selectors.
\<close>

theorem safety_filter_idempotent_iff:
  "safety_filter (safety_filter cmds) = safety_filter cmds \<longleftrightarrow>
     (\<forall>cmd\<in>set cmds.
        \<not> (contains '' tp @a'' cmd \<or> contains '' tp @p'' cmd
           \<or> startswith cmd ''tp @a'' \<or> startswith cmd ''tp @p''))"
proof -
  have "safety_filter (safety_filter cmds) = safety_filter cmds \<longleftrightarrow>
          (\<forall>cmd\<in>set cmds. \<not> blocked (placeholder cmd))"
    by (induction cmds) (simp_all add: filter_twice_one del: if_split)
  then show ?thesis
    by (simp add: blocked_placeholder)
qed

theorem safety_filter_idempotent_iff_witness:
  "safety_filter (safety_filter [''say hi'', ''tp @e[type=minecraft:cow] 1 2 3''])
     = safety_filter [''say hi'', ''tp @e[type=minecraft:cow] 1 2 3'']"
  using safety_filter_idempotent_iff [of "[''say hi'', ''tp @e[type=minecraft:cow] 1 2 3'']"]
  by (simp add: contains_def startswith_def sublist_Cons_right)

text \<open>
  C4: the filter keeps length and order; a blocked command is replaced, at its own
  position, by the one line \<open>"# BLOCKED UNSAFE COMMAND: "\<close> followed by the original text
  (so it contains \<open>"BLOCKED"\<close> and the original text), and a command that is not blocked
  is kept as it is; a command starting with \<open>"tp @p "\<close> is replaced in this way. No
  command of the output matches the blocked pattern: a line of the output that matches
  it is a placeholder, which starts with \<open>"#"\<close> and is therefore a comment that the run
  loop skips, and no line of the output, once stripped, starts with \<open>"tp @"\<close>.
\<close>

theorem safety_filter_in_place:
  "length (safety_filter cmds) = length cmds
   \<and> (\<forall>i<length cmds.
        (blocked (cmds ! i) \<longrightarrow>
           safety_filter cmds ! i = ''# BLOCKED UNSAFE COMMAND: '' @ cmds ! i
           \<and> contains ''BLOCKED'' (safety_filter cmds ! i)
           \<and> contains (cmds ! i) (safety_filter cmds ! i))
        \<and> (\<not> blocked (cmds ! i) \<longrightarrow> safety_filter cmds ! i = cmds ! i)
        \<and> \<not> startswith (strip (safety_filter cmds ! i)) ''tp @''
        \<and> (blocked (safety_filter cmds ! i) \<longrightarrow> startswith (safety_filter cmds ! i) ''#'')
        \<and> (executable (safety_filter cmds ! i) \<longrightarrow> \<not> blocked (safety_filter cmds ! i))
        \<and> (startswith (cmds ! i) ''tp @p '' \<longrightarrow> blocked (cmds ! i)))"
proof -
  have marker: "contains ''BLOCKED'' (placeholder c)" for c
    by (simp add: placeholder_def contains_def sublist_Cons_right)
  have original: "contains c (placeholder c)" for c
    unfolding placeholder_def contains_def by (rule sublist_append_leftI)
  have tp_p: "blocked c" if "startswith c ''tp @p ''" for c
    using that startswith_tp_strip [of c "''p ''"] by (simp add: blocked_def)
  have unblocked: "\<not> startswith (strip c) ''tp @''" if "\<not> blocked c" for c
    using that by (simp add: blocked_def)
  have hash: "startswith (placeholder c) ''#''" for c
    by (simp add: placeholder_def startswith_def)
  show ?thesis
    using marker original tp_p unblocked hash
    by (auto simp: nth_safety_filter length_safety_filter placeholder_strip executable_def)
      (simp_all add: placeholder_def)
qed

theorem safety_filter_in_place_witness:
  "safety_filter [''say hi'', ''tp @p 1 2 3'']
     = [''say hi'', ''# BLOCKED UNSAFE COMMAND: tp @p 1 2 3'']
   \<and> blocked ([''say hi'', ''tp @p 1 2 3''] ! 1)
   \<and> \<not> blocked ([''say hi'', ''tp @p 1 2 3''] ! 0)
   \<and> startswith (safety_filter [''say hi'', ''tp @p 1 2 3''] ! 1) ''#''
   \<and> \<not> executable (safety_filter [''say hi'', ''tp @p 1 2 3''] ! 1)
   \<and> executable (safety_filter [''say hi'', ''tp @p 1 2 3''] ! 0)"
proof -
  have b1: "blocked ''tp @p 1 2 3''"
    by (simp add: blocked_def startswith_def strip_def isspace_def)
  have b0: "\<not> blocked ''say hi''"
    by (simp add: blocked_def startswith_def strip_def isspace_def contains_def
        sublist_Cons_right)
  have e0: "executable ''say hi''"
    by (simp add: executable_def startswith_def strip_def isspace_def)
  from safety_filter_in_place [of "[''say hi'', ''tp @p 1 2 3'']"]
  have len: "length (safety_filter [''say hi'', ''tp @p 1 2 3'']) = 2"
    and at0: "safety_filter [''say hi'', ''tp @p 1 2 3''] ! 0 = ''say hi''"
    and at1: "safety_filter [''say hi'', ''tp @p 1 2 3''] ! 1
                = ''# BLOCKED UNSAFE COMMAND: tp @p 1 2 3''"
    using b0 b1 by (auto simp: less_Suc_eq)
  from len at0 at1 have "safety_filter [''say hi'', ''tp @p 1 2 3'']
      = [''say hi'', ''# BLOCKED UNSAFE COMMAND: tp @p 1 2 3'']"
    by (simp add: list_eq_iff_nth_eq less_Suc_eq numeral_2_eq_2)
  with b0 b1 e0 at1 show ?thesis
    by (simp add: startswith_def executable_def)
qed

text \<open>
  C10: the blocked set is wider than player teleports. In every list of commands, every
  command that, once stripped, starts with \<open>"tp @"\<close> is replaced by its placeholder
  whatever selector follows, and so is every command that contains \<open>" tp @p"\<close> or
  \<open>" tp @a"\<close>; hence the compiled actor movement \<open>"tp @e[...] x y z"\<close>, for every selector
  that \<open>_get_target_selector\<close> returns, and the compiled camera move \<open>"tp @p x y z"\<close> are
  both neutralised, although the former addresses no player. \<open>get_all_commands\<close> applies
  the filter to the commands of every scene.
\<close>

theorem blocked_set_is_wider:
  "length (safety_filter cmds) = length cmds
   \<and> (\<forall>i<length cmds.
        (startswith (strip (cmds ! i)) ''tp @'' \<or> contains '' tp @p'' (cmds ! i)
           \<or> contains '' tp @a'' (cmds ! i)
         \<longrightarrow> safety_filter cmds ! i = ''# BLOCKED UNSAFE COMMAND: '' @ cmds ! i)
        \<and> (\<forall>rest. cmds ! i = ''tp @e['' @ rest
              \<longrightarrow> safety_filter cmds ! i = ''# BLOCKED UNSAFE COMMAND: '' @ cmds ! i
                  \<and> \<not> startswith (cmds ! i) ''tp @p'' \<and> \<not> startswith (cmds ! i) ''tp @a'')
        \<and> (\<forall>rest. cmds ! i = ''tp @p '' @ rest
              \<longrightarrow> safety_filter cmds ! i = ''# BLOCKED UNSAFE COMMAND: '' @ cmds ! i)
        \<and> (\<forall>nm actor_type selector coords.
              get_target_selector nm actor_type = Inr selector
              \<and> cmds ! i = ''tp '' @ selector @ coords
              \<longrightarrow> safety_filter cmds ! i = ''# BLOCKED UNSAFE COMMAND: '' @ cmds ! i))
   \<and> get_all_commands (Some chat_scenes)
       = concat (map (\<lambda>scene.
           (''# === '' @ (case scene_name scene of None \<Rightarrow> ''Scene'' | Some n \<Rightarrow> n) @ '' ==='')
             # safety_filter (scene_commands scene)) chat_scenes)"
proof -
  have entity: "blocked (''tp @e['' @ r)" for r
  proof -
    have "startswith (''tp @e['' @ r) (''tp @'' @ ''e['')"
      by (simp add: startswith_def)
    then show ?thesis
      using startswith_tp_strip by (simp add: blocked_def del: append.simps)
  qed
  have player: "blocked (''tp @p '' @ r)" for r
  proof -
    have "startswith (''tp @p '' @ r) (''tp @'' @ ''p '')"
      by (simp add: startswith_def)
    then show ?thesis
      using startswith_tp_strip by (simp add: blocked_def del: append.simps)
  qed
  have compiled: "blocked (''tp '' @ selector @ coords)"
    if "get_target_selector nm actor_type = Inr selector" for nm actor_type selector coords
  proof -
    from get_target_selector_prefix [OF that] obtain r where "selector = ''@e['' @ r" ..
    then have eq: "''tp '' @ selector @ coords = ''tp @e['' @ (r @ coords)"
      by simp
    show ?thesis
      unfolding eq by (rule entity)
  qed
  have replaced: "safety_filter cmds ! i = ''# BLOCKED UNSAFE COMMAND: '' @ cmds ! i"
    if "i < length cmds" "blocked (cmds ! i)" for i
    using that by (simp add: nth_safety_filter placeholder_def)
  have pattern: "blocked c"
    if "startswith (strip c) ''tp @'' \<or> contains '' tp @p'' c \<or> contains '' tp @a'' c" for c
    using that by (auto simp: blocked_def)
  have not_player: "\<not> startswith (''tp @e['' @ r) ''tp @p'' \<and> \<not> startswith (''tp @e['' @ r) ''tp @a''"
    for r
    by (simp add: startswith_def)
  have whole: "scene_lines chat_scenes
       = concat (map (\<lambda>scene.
           (''# === '' @ (case scene_name scene of None \<Rightarrow> ''Scene'' | Some n \<Rightarrow> n) @ '' ==='')
             # safety_filter (scene_commands scene)) chat_scenes)"
    by (induction chat_scenes) simp_all
  have each: "(startswith (strip (cmds ! i)) ''tp @'' \<or> contains '' tp @p'' (cmds ! i)
           \<or> contains '' tp @a'' (cmds ! i)
         \<longrightarrow> safety_filter cmds ! i = ''# BLOCKED UNSAFE COMMAND: '' @ cmds ! i)
        \<and> (\<forall>rest. cmds ! i = ''tp @e['' @ rest
              \<longrightarrow> safety_filter cmds ! i = ''# BLOCKED UNSAFE COMMAND: '' @ cmds ! i
                  \<and> \<not> startswith (cmds ! i) ''tp @p'' \<and> \<not> startswith (cmds ! i) ''tp @a'')
        \<and> (\<forall>rest. cmds ! i = ''tp @p '' @ rest
              \<longrightarrow> safety_filter cmds ! i = ''# BLOCKED UNSAFE COMMAND: '' @ cmds ! i)
        \<and> (\<forall>nm actor_type selector coords.
              get_target_selector nm actor_type = Inr selector
              \<and> cmds ! i = ''tp '' @ selector @ coords
              \<longrightarrow> safety_filter cmds ! i = ''# BLOCKED UNSAFE COMMAND: '' @ cmds ! i)"
    if i: "i < length cmds" for i
  proof (intro conjI allI impI)
    assume "startswith (strip (cmds ! i)) ''tp @'' \<or> contains '' tp @p'' (cmds ! i)
           \<or> contains '' tp @a'' (cmds ! i)"
    then show "safety_filter cmds ! i = ''# BLOCKED UNSAFE COMMAND: '' @ cmds ! i"
      using replaced [OF i] pattern by blast
  next
    fix rest assume c: "cmds ! i = ''tp @e['' @ rest"
    then show "safety_filter cmds ! i = ''# BLOCKED UNSAFE COMMAND: '' @ cmds ! i"
      using replaced [OF i] entity [of rest] by simp
    from c show "\<not> startswith (cmds ! i) ''tp @p''" "\<not> startswith (cmds ! i) ''tp @a''"
      using not_player [of rest] by simp_all
  next
    fix rest assume "cmds ! i = ''tp @p '' @ rest"
    then show "safety_filter cmds ! i = ''# BLOCKED UNSAFE COMMAND: '' @ cmds ! i"
      using replaced [OF i] player [of rest] by simp
  next
    fix nm actor_type selector coords
    assume "get_target_selector nm actor_type = Inr selector
              \<and> cmds ! i = ''tp '' @ selector @ coords"
    then show "safety_filter cmds ! i = ''# BLOCKED UNSAFE COMMAND: '' @ cmds ! i"
      using replaced [OF i] compiled [of nm actor_type selector coords] by simp
  qed
  have all_commands: "get_all_commands (Some chat_scenes)
       = concat (map (\<lambda>scene.
           (''# === '' @ (case scene_name scene of None \<Rightarrow> ''Scene'' | Some n \<Rightarrow> n) @ '' ==='')
             # safety_filter (scene_commands scene)) chat_scenes)"
    using whole by (simp add: get_all_commands_def)
  show ?thesis
  proof (intro conjI allI impI)
    show "length (safety_filter cmds) = length cmds"
      by (rule length_safety_filter)
  qed (use each all_commands in blast)+
qed

theorem blocked_set_is_wider_witness:
  "length (safety_filter
       [''say hi'', ''  tp @e[type=minecraft:zombie,sort=nearest,limit=1] 110 64 100'',
        ''execute as @e run tp @a 0 64 0'']) = 3
   \<and> safety_filter
       [''say hi'', ''  tp @e[type=minecraft:zombie,sort=nearest,limit=1] 110 64 100'',
        ''execute as @e run tp @a 0 64 0''] ! 1
     = ''# BLOCKED UNSAFE COMMAND:   tp @e[type=minecraft:zombie,sort=nearest,limit=1] 110 64 100''
   \<and> safety_filter
       [''say hi'', ''  tp @e[type=minecraft:zombie,sort=nearest,limit=1] 110 64 100'',
        ''execute as @e run tp @a 0 64 0''] ! 2
     = ''# BLOCKED UNSAFE COMMAND: execute as @e run tp @a 0 64 0''"
proof -
  let ?cmds = "[''say hi'', ''  tp @e[type=minecraft:zombie,sort=nearest,limit=1] 110 64 100'',
        ''execute as @e run tp @a 0 64 0'']"
  have one: "startswith (strip (?cmds ! 1)) ''tp @''"
    by (simp add: startswith_def strip_def isspace_def)
  have two: "contains '' tp @a'' (?cmds ! 2)"
    by (simp add: contains_def sublist_Cons_right)
  have "(1::nat) < length ?cmds" "(2::nat) < length ?cmds"
    by simp_all
  with blocked_set_is_wider [of ?cmds] one two
  have "length (safety_filter ?cmds) = 3"
    and "safety_filter ?cmds ! 1 = ''# BLOCKED UNSAFE COMMAND: '' @ ?cmds ! 1"
    and "safety_filter ?cmds ! 2 = ''# BLOCKED UNSAFE COMMAND: '' @ ?cmds ! 2"
    by (simp, blast, blast)
  then show ?thesis by simp
qed

section \<open>Facts about the scheduler\<close>

lemma wait_for_tick_sleepable:
  assumes "realtime \<and> tk > last_tick st \<longrightarrow> sleepable ((tk - last_tick st) * d)"
    and "wait_for_tick d realtime tk st = (st', x)"
  shows "x = None" "results st' = results st" "mcr st' = mcr st"
    "last_tick st' = last_tick st" "submitted (trace st') = submitted (trace st)"
    "trace st' = trace st
       @ (if realtime \<and> tk > last_tick st then [Sleep ((tk - last_tick st) * d)] else [])"
  using assms
  by (auto simp: wait_for_tick_def sleepable_def Let_def submitted_def
      split: if_splits sum.splits)

lemma submit_fields:
  "results (submit cmd (get_tick c) (get_command c) st)
     = results st @ [result_of c (hd (answers cmd (mcr st) [c]))]"
  "submitted (trace (submit cmd (get_tick c) (get_command c) st))
     = submitted (trace st) @ (if is_comment c then [] else [get_command c])"
  "last_tick (submit cmd (get_tick c) (get_command c) st)
     = (if is_comment c then last_tick st else get_tick c)"
  "mcr (submit cmd (get_tick c) (get_command c) st)
     = (if is_comment c then mcr st else snd (cmd (mcr st) (get_command c)))"
  "trace (submit cmd (get_tick c) (get_command c) st)
     = trace st @ (if is_comment c then [] else [Submit (get_command c)])"
  by (auto simp: submit_def result_of_def is_comment_def submitted_def
      split: prod.splits sum.splits)

lemma sequence_loop_run:
  assumes "realtime \<longrightarrow> (\<forall>ms. Sleep ms \<in> set (pacing d (last_tick st) cmds) \<longrightarrow> sleepable ms)"
    and "sequence_loop cmd d realtime cmds st = (st', x)"
  shows "x = None
     \<and> results st' = results st @ map2 result_of cmds (answers cmd (mcr st) cmds)
     \<and> submitted (trace st')
         = submitted (trace st) @ map get_command (filter (\<lambda>c. \<not> is_comment c) cmds)
     \<and> (realtime \<longrightarrow> trace st' = trace st @ pacing d (last_tick st) cmds)"
  using assms
proof (induction cmds arbitrary: st)
  case Nil
  then show ?case by simp
next
  case (Cons c cs)
  obtain st1 x1 where w: "wait_for_tick d realtime (get_tick c) st = (st1, x1)"
    by (cases "wait_for_tick d realtime (get_tick c) st")
  from Cons.prems(1)
  have "realtime \<and> get_tick c > last_tick st \<longrightarrow> sleepable ((get_tick c - last_tick st) * d)"
    by simp
  note w1 = wait_for_tick_sleepable [OF this w]
  let ?st2 = "submit cmd (get_tick c) (get_command c) st1"
  from Cons.prems(2) w w1(1) have run: "sequence_loop cmd d realtime cs ?st2 = (st', x)"
    by simp
  have cursor: "last_tick ?st2 = (if is_comment c then last_tick st else get_tick c)"
    using submit_fields(3) [of cmd c st1] w1(4) by simp
  from Cons.prems(1)
  have rest: "realtime \<longrightarrow> (\<forall>ms. Sleep ms \<in> set (pacing d (last_tick ?st2) cs) \<longrightarrow> sleepable ms)"
    unfolding cursor by (auto split: if_splits)
  show ?case
    using Cons.IH [OF rest run] submit_fields(1,2,4,5) [of cmd c st1] w1(2,3,5,6) cursor
    by (auto split: prod.splits)
qed

text \<open>
  When no tick and no delay is negative and no tick is later than \<open>2 ^ 40\<close> milliseconds,
  every pause of the pacing is one that \<open>time.sleep\<close> carries out.
\<close>

lemma pauses_of_bounded_ticks:
  assumes "0 \<le> d" "0 \<le> cursor" "\<forall>c\<in>set cs. 0 \<le> get_tick c \<and> get_tick c * d \<le> 2 ^ 40"
  shows "\<forall>ms. Sleep ms \<in> set (pacing d cursor cs) \<longrightarrow> sleepable ms"
  using assms(2,3)
proof (induction cs arbitrary: cursor)
  case Nil
  then show ?case by simp
next
  case (Cons c cs)
  have head: "sleepable ((get_tick c - cursor) * d)" if "get_tick c > cursor"
  proof (rule sleepable_small)
    from that assms(1) show "0 \<le> (get_tick c - cursor) * d" by simp
    from Cons.prems(1) assms(1) have "0 \<le> cursor * d" by simp
    then have "(get_tick c - cursor) * d \<le> get_tick c * d"
      by (simp add: left_diff_distrib)
    also from Cons.prems(2) have "\<dots> \<le> 2 ^ 40" by simp
    finally show "(get_tick c - cursor) * d \<le> 2 ^ 40" .
  qed
  from Cons.prems have "0 \<le> get_tick c" "\<forall>c\<in>set cs. 0 \<le> get_tick c \<and> get_tick c * d \<le> 2 ^ 40"
    by simp_all
  with Cons.IH [of cursor] Cons.IH [of "get_tick c"] Cons.prems(1) head
  show ?case by auto
qed

lemma pause_of_ten_to_the_13: "time_sleep (nearest (10 ^ 13 / 1000)) \<noteq> None"
proof -
  have "bitlen 10000000000000000000 = int 63 + 1"
    by (rule bitlen_eqI) simp_all
  then have "exponent 10000000000000000000 = 63"
    by (simp add: exponent_def)
  then have "nearest 10000000000000000000 = 10000000000000000000"
    by (simp add: nearest_def round_half_even_def power_int_def power_one_over divide_simps)
  then show ?thesis
    by (simp add: time_sleep_def)
qed

text \<open>
  A pause that \<open>time.sleep\<close> refuses ends the run: the commands that remain are not
  submitted, and the last result reports the exception.
\<close>

lemma long_pause_ends_the_run:
  "execute_sequence
     \<lparr>mcrcon_available = True, connect = Inr (), mcr_command = (\<lambda>s c. (Inr ''ok'', s))\<rparr>
     [\<lparr>cd_tick = Some 0, cd_command = Some ''say a''\<rparr>,
      \<lparr>cd_tick = Some 200000000000, cd_command = Some ''say b''\<rparr>,
      \<lparr>cd_tick = Some 200000000001, cd_command = Some ''say c''\<rparr>] 50 True
   = ([\<lparr>success = True, response = ''ok'', result_tick = 0, result_command = ''say a''\<rparr>,
       \<lparr>success = False,
        response = ''Connection error: timestamp too large to convert to C _PyTime_t'',
        result_tick = 0, result_command = []\<rparr>],
      [Submit ''say a'', Sleep 10000000000000])"
proof -
  have conv: "float_of_int 10000000000000 = Inr 10000000000000"
    using float_of_int_small [of 10000000000000] by simp
  have "time_sleep (nearest (10000000000000 / 1000))
          = Some ''timestamp too large to convert to C _PyTime_t''"
    using pause_of_ten_to_the_13 by (simp add: time_sleep_def Let_def split: if_splits)
  then show ?thesis
    by (simp add: execute_sequence_def get_tick_def get_command_def wait_for_tick_def
        submit_def startswith_def conv Let_def)
qed

section \<open>Claims about the scheduler\<close>

text \<open>
  C7: with \<open>realtime\<close> set, and provided every pause of the pacing is one that
  \<open>time.sleep\<close> carries out (every pause from 0 to \<open>2 ^ 40\<close> milliseconds is), the calls of
  \<open>time.sleep\<close> and of the transport made by \<open>execute_sequence\<close> are exactly the pacing of
  the sorted commands from the cursor 0: before each command whose tick exceeds the
  cursor it sleeps \<open>(tick - last_tick) * tick_delay_ms\<close> milliseconds, and the cursor moves
  to the tick of each submitted command. For three real commands at ticks 0, 20 and 40
  and 50 ms per tick this is a sleep of 1000 ms before the second and before the third
  command.
\<close>

theorem execute_sequence_pacing:
  assumes "mcrcon_available t" "connect t = Inr s0"
    and "\<forall>ms. Sleep ms \<in> set (pacing tick_delay_ms 0 (sort_key get_tick cmds)) \<longrightarrow> sleepable ms"
  shows "snd (execute_sequence t cmds tick_delay_ms True)
           = pacing tick_delay_ms 0 (sort_key get_tick cmds)"
proof -
  let ?init = "\<lparr>results = [], last_tick = 0, mcr = s0, trace = []\<rparr>"
  obtain st x where run:
    "sequence_loop (mcr_command t) tick_delay_ms True (sort_key get_tick cmds) ?init = (st, x)"
    by (cases "sequence_loop (mcr_command t) tick_delay_ms True (sort_key get_tick cmds) ?init")
  from assms(3)
  have "True \<longrightarrow> (\<forall>ms. Sleep ms \<in> set (pacing tick_delay_ms (last_tick ?init)
                         (sort_key get_tick cmds)) \<longrightarrow> sleepable ms)"
    by simp
  from sequence_loop_run [OF this run]
  have "x = None" "trace st = pacing tick_delay_ms 0 (sort_key get_tick cmds)"
    by simp_all
  then show ?thesis
    using assms(1,2) run by (simp add: execute_sequence_def)
qed

theorem execute_sequence_pacing_witness:
  "snd (execute_sequence
          \<lparr>mcrcon_available = True, connect = Inr (), mcr_command = (\<lambda>s c. (Inr ''ok'', s))\<rparr>
          [\<lparr>cd_tick = Some 0, cd_command = Some ''say a''\<rparr>,
           \<lparr>cd_tick = Some 20, cd_command = Some ''say b''\<rparr>,
           \<lparr>cd_tick = Some 40, cd_command = Some ''say c''\<rparr>] 50 True)
     = [Submit ''say a'', Sleep 1000, Submit ''say b'', Sleep 1000, Submit ''say c'']"
proof -
  let ?t = "\<lparr>mcrcon_available = True, connect = Inr (),
             mcr_command = (\<lambda>s c. (Inr ''ok'', s :: unit))\<rparr>"
  let ?cmds = "[\<lparr>cd_tick = Some 0, cd_command = Some ''say a''\<rparr>,
           \<lparr>cd_tick = Some 20, cd_command = Some ''say b''\<rparr>,
           \<lparr>cd_tick = Some 40, cd_command = Some ''say c''\<rparr>]"
  have sorted: "sort_key get_tick ?cmds = ?cmds"
    by (simp add: get_tick_def)
  have pace: "pacing 50 0 ?cmds
      = [Submit ''say a'', Sleep 1000, Submit ''say b'', Sleep 1000, Submit ''say c'']"
    by (simp add: get_tick_def get_command_def is_comment_def startswith_def)
  have a1: "mcrcon_available ?t" and a2: "connect ?t = Inr ()"
    by simp_all
  have a3: "\<forall>ms. Sleep ms \<in> set (pacing 50 0 (sort_key get_tick ?cmds)) \<longrightarrow> sleepable ms"
    unfolding sorted pace using sleepable_small [of 1000] by simp
  from execute_sequence_pacing [OF a1 a2 a3] show ?thesis
    unfolding sorted pace .
qed

text \<open>
  C8: once the connection is open, and provided every pause of the pacing is one that
  \<open>time.sleep\<close> carries out when \<open>realtime\<close> is set (every pause from 0 to \<open>2 ^ 40\<close>
  milliseconds is), the scheduler returns one result per command, in sorted order,
  whatever the transport answers: a comment command is recorded as the successful
  result \<open>Skipped\<close> and is not submitted, every other command is submitted exactly once,
  and its result is a success with the response or a failure with the exception text;
  the commands after a failed one are still run.
\<close>

theorem execute_sequence_results:
  assumes "mcrcon_available t" "connect t = Inr s0"
    and "realtime \<longrightarrow>
           (\<forall>ms. Sleep ms \<in> set (pacing tick_delay_ms 0 (sort_key get_tick cmds))
                   \<longrightarrow> sleepable ms)"
  shows "fst (execute_sequence t cmds tick_delay_ms realtime)
           = map2 result_of (sort_key get_tick cmds)
               (answers (mcr_command t) s0 (sort_key get_tick cmds))
     \<and> submitted (snd (execute_sequence t cmds tick_delay_ms realtime))
           = map get_command (filter (\<lambda>c. \<not> is_comment c) (sort_key get_tick cmds))
     \<and> length (fst (execute_sequence t cmds tick_delay_ms realtime)) = length cmds"
proof -
  let ?init = "\<lparr>results = [], last_tick = 0, mcr = s0, trace = []\<rparr>"
  let ?sorted = "sort_key get_tick cmds"
  obtain st x where run:
    "sequence_loop (mcr_command t) tick_delay_ms realtime ?sorted ?init = (st, x)"
    by (cases "sequence_loop (mcr_command t) tick_delay_ms realtime ?sorted ?init")
  from assms(3)
  have "realtime \<longrightarrow> (\<forall>ms. Sleep ms \<in> set (pacing tick_delay_ms (last_tick ?init) ?sorted)
                         \<longrightarrow> sleepable ms)"
    by simp
  from sequence_loop_run [OF this run]
  have x: "x = None"
    and res: "results st = map2 result_of ?sorted (answers (mcr_command t) s0 ?sorted)"
    and sub: "submitted (trace st) = map get_command (filter (\<lambda>c. \<not> is_comment c) ?sorted)"
    by (simp_all add: submitted_def)
  have out: "execute_sequence t cmds tick_delay_ms realtime = (results st, trace st)"
    using assms(1,2) run x by (simp add: execute_sequence_def)
  have len: "length (answers cmd s cs) = length cs"
    for cmd :: "'a \<Rightarrow> string \<Rightarrow> (string + string) \<times> 'a" and s cs
    by (induction cs arbitrary: s) (simp_all split: prod.splits)
  show ?thesis
    by (simp add: out res sub len)
qed

theorem execute_sequence_results_witness:
  "fst (execute_sequence
          \<lparr>mcrcon_available = True, connect = Inr (),
           mcr_command = (\<lambda>s c. if c = ''say b'' then (Inl ''timed out'', s) else (Inr ''ok'', s))\<rparr>
          [\<lparr>cd_tick = Some 0, cd_command = Some ''say a''\<rparr>,
           \<lparr>cd_tick = Some 1, cd_command = Some ''# note''\<rparr>,
           \<lparr>cd_tick = Some 2, cd_command = Some ''say b''\<rparr>,
           \<lparr>cd_tick = Some 3, cd_command = Some ''say c''\<rparr>] 50 True)
     = [\<lparr>success = True, response = ''ok'', result_tick = 0, result_command = ''say a''\<rparr>,
        \<lparr>success = True, response = ''Skipped'', result_tick = 1, result_command = ''# note''\<rparr>,
        \<lparr>success = False, response = ''timed out'', result_tick = 2, result_command = ''say b''\<rparr>,
        \<lparr>success = True, response = ''ok'', result_tick = 3, result_command = ''say c''\<rparr>]"
proof -
  let ?t = "\<lparr>mcrcon_available = True, connect = Inr (),
             mcr_command = (\<lambda>s c. if c = ''say b'' then (Inl ''timed out'', s :: unit)
                                  else (Inr ''ok'', s))\<rparr>"
  let ?cmds = "[\<lparr>cd_tick = Some 0, cd_command = Some ''say a''\<rparr>,
           \<lparr>cd_tick = Some 1, cd_command = Some ''# note''\<rparr>,
           \<lparr>cd_tick = Some 2, cd_command = Some ''say b''\<rparr>,
           \<lparr>cd_tick = Some 3, cd_command = Some ''say c''\<rparr>]"
  have sorted: "sort_key get_tick ?cmds = ?cmds"
    by (simp add: get_tick_def)
  have pace: "pacing 50 0 ?cmds
      = [Submit ''say a'', Sleep 50, Sleep 100, Submit ''say b'', Sleep 50, Submit ''say c'']"
    by (simp add: get_tick_def get_command_def is_comment_def startswith_def)
  have a1: "mcrcon_available ?t" and a2: "connect ?t = Inr ()"
    by simp_all
  have a3: "True \<longrightarrow>
      (\<forall>ms. Sleep ms \<in> set (pacing 50 0 (sort_key get_tick ?cmds)) \<longrightarrow> sleepable ms)"
    unfolding sorted pace using sleepable_small [of 50] sleepable_small [of 100] by simp
  have replies: "answers (mcr_command ?t) () ?cmds
      = [Some (Inr ''ok''), None, Some (Inl ''timed out''), Some (Inr ''ok'')]"
    by (simp add: get_command_def is_comment_def startswith_def)
  from execute_sequence_results [OF a1 a2 a3, unfolded sorted replies]
  have "fst (execute_sequence ?t ?cmds 50 True)
          = map2 result_of ?cmds
              [Some (Inr ''ok''), None, Some (Inl ''timed out''), Some (Inr ''ok'')]"
    by (rule conjunct1)
  also have "\<dots> = [\<lparr>success = True, response = ''ok'', result_tick = 0, result_command = ''say a''\<rparr>,
        \<lparr>success = True, response = ''Skipped'', result_tick = 1, result_command = ''# note''\<rparr>,
        \<lparr>success = False, response = ''timed out'', result_tick = 2, result_command = ''say b''\<rparr>,
        \<lparr>success = True, response = ''ok'', result_tick = 3, result_command = ''say c''\<rparr>]"
    by (simp add: result_of_def get_tick_def get_command_def)
  finally show ?thesis .
qed

section \<open>Facts about the generator\<close>

lemma ebind_simps [simp]: "ebind (Inr x) f = f x" "ebind (Inl e) f = Inl e"
  by (simp_all add: ebind_def)

lemma ebind_InrE:
  assumes "ebind m f = Inr y"
  obtains x where "m = Inr x" "f x = Inr y"
  using assms by (cases m) simp_all

lemma attempt_simps [simp]:
  "attempt self (Inr x) f = f x" "attempt self (Inl e) f = Inl (e, self)"
  by (simp_all add: attempt_def)

lemma gbind_simps [simp]: "gbind (Inr (x, self)) f = f x self" "gbind (Inl eg) f = Inl eg"
  by (simp_all add: gbind_def)

lemma after_simps [simp]: "after (Inr (x, self)) = self" "after (Inl (e, self)) = self"
  by (simp_all add: after_def)

lemma attempt_InrE:
  assumes "attempt self m f = Inr y"
  obtains x where "m = Inr x" "f x = Inr y"
  using assms by (cases m) simp_all

lemma gbind_InrE:
  assumes "gbind m f = Inr y"
  obtains x self where "m = Inr (x, self)" "f x self = Inr y"
  using assms by (cases m) (auto simp: gbind_def)

lemma py_add_number:
  assumes "py_add a b = Inr c" "is_number a \<or> is_number b"
  shows "is_number a \<and> is_number b \<and> is_number c \<and> num_val c = num_val a + num_val b"
  using assms
  by (cases a; cases b)
    (auto simp: py_add_def arith_def is_number_def is_int_def int_val_def num_val_def
      as_float_def elim!: ebind_InrE split: if_splits)

lemma emap_offset:
  assumes "emap (offset_command off) cs = Inr cs'" "is_number off"
  shows "list_all2 (\<lambda>c c'. c' = c\<lparr>tick := tick c'\<rparr>
               \<and> num_val (tick c') = num_val (tick c) + num_val off) cs cs'"
  using assms(1)
proof (induction cs arbitrary: cs')
  case Nil
  then show ?case by simp
next
  case (Cons c cs)
  from Cons.prems obtain d ds where d: "offset_command off c = Inr d"
    and ds: "emap (offset_command off) cs = Inr ds" and cs': "cs' = d # ds"
    by (auto elim!: ebind_InrE)
  from d obtain t where t: "py_add (tick c) off = Inr t" and dd: "d = c\<lparr>tick := t\<rparr>"
    by (auto simp: offset_command_def elim!: ebind_InrE)
  from py_add_number [OF t] assms(2) have "num_val t = num_val (tick c) + num_val off"
    by simp
  with dd Cons.IH [OF ds] cs' show ?case by simp
qed

lemma scene_duration:
  assumes "generate_scene_commands rt self scene = Inr (seq, self')"
  shows "\<exists>ds. get scene ''duration_seconds'' (JInt 30) = Inr ds
            \<and> mul_int ds 20 = Inr (duration_ticks seq)"
  using assms unfolding generate_scene_commands_def
  by (elim attempt_InrE gbind_InrE) auto

lemma script_scene_step:
  assumes "script_scene rt scene (entries, off) self = Inr ((entries', off'), self')"
    and "is_number off"
  shows "\<exists>e. entries' = entries @ [e] \<and> start_tick e = off \<and> assembles rt scene e
           \<and> is_number off' \<and> num_val off' = num_val off + num_val (entry_duration_ticks e)"
proof -
  from assms(1) obtain seq cmds where
    gen: "generate_scene_commands rt self scene = Inr (seq, self')"
    and cmds: "emap (offset_command off) (commands seq) = Inr cmds"
    and nxt: "py_add off (duration_ticks seq) = Inr off'"
    and ent: "entries' = entries @ [\<lparr>entry_scene_name = name seq, start_tick = off,
                     entry_duration_ticks = duration_ticks seq, entry_commands = to_list cmds\<rparr>]"
    unfolding script_scene_def by (auto elim!: attempt_InrE gbind_InrE)
  let ?e = "\<lparr>entry_scene_name = name seq, start_tick = off,
                     entry_duration_ticks = duration_ticks seq, entry_commands = to_list cmds\<rparr>"
  from scene_duration [OF gen] emap_offset [OF cmds assms(2)] gen
  have "assembles rt scene ?e"
    unfolding assembles_def by fastforce
  moreover from py_add_number [OF nxt] assms(2)
  have "is_number off'" "num_val off' = num_val off + num_val (entry_duration_ticks ?e)"
    by simp_all
  ultimately show ?thesis using ent by auto
qed

lemma script_loop:
  assumes "gfold (script_scene rt) scs (entries, off) self = Inr ((entries', off'), self')"
    and "is_number off"
  shows "\<exists>new. entries' = entries @ new \<and> length new = length scs \<and> is_number off'
           \<and> num_val off' = num_val off + (\<Sum>e\<leftarrow>new. num_val (entry_duration_ticks e))
           \<and> (\<forall>k<length scs.
                 num_val (start_tick (new ! k))
                   = num_val off + (\<Sum>e\<leftarrow>take k new. num_val (entry_duration_ticks e))
                 \<and> assembles rt (scs ! k) (new ! k))"
  using assms
proof (induction scs arbitrary: entries off self)
  case Nil
  then show ?case by simp
next
  case (Cons sc scs)
  from Cons.prems(1) obtain st1 self1 where
    step: "script_scene rt sc (entries, off) self = Inr (st1, self1)"
    and rest: "gfold (script_scene rt) scs st1 self1 = Inr ((entries', off'), self')"
    by (auto elim!: gbind_InrE)
  obtain entries1 off1 where st1: "st1 = (entries1, off1)"
    by (cases st1)
  from script_scene_step [OF step [unfolded st1] Cons.prems(2)] obtain e where
    e: "entries1 = entries @ [e]" "start_tick e = off" "assembles rt sc e"
      "is_number off1" "num_val off1 = num_val off + num_val (entry_duration_ticks e)"
    by blast
  from Cons.IH [OF rest [unfolded st1] e(4)] obtain new where
    new: "entries' = entries1 @ new" "length new = length scs" "is_number off'"
      "num_val off' = num_val off1 + (\<Sum>e\<leftarrow>new. num_val (entry_duration_ticks e))"
      "\<forall>k<length scs.
                 num_val (start_tick (new ! k))
                   = num_val off1 + (\<Sum>e\<leftarrow>take k new. num_val (entry_duration_ticks e))
                 \<and> assembles rt (scs ! k) (new ! k)"
    by blast
  have "\<forall>k<length (sc # scs).
                 num_val (start_tick ((e # new) ! k))
                   = num_val off + (\<Sum>e\<leftarrow>take k (e # new). num_val (entry_duration_ticks e))
                 \<and> assembles rt ((sc # scs) ! k) ((e # new) ! k)"
  proof (intro allI impI)
    fix k assume "k < length (sc # scs)"
    then show "num_val (start_tick ((e # new) ! k))
                   = num_val off + (\<Sum>e\<leftarrow>take k (e # new). num_val (entry_duration_ticks e))
                 \<and> assembles rt ((sc # scs) ! k) ((e # new) ! k)"
      using e new(5) by (cases k) auto
  qed
  then show ?case
    using e new by (intro exI [of _ "e # new"]) simp
qed


text \<open>Evaluating the model on concrete storyboards.\<close>

lemmas py_eval =
  get_def iter_def index_def str_def str_int_def truthy_def is_int_def int_val_def is_number_def
  num_val_def as_float_def float_def arith_def py_add_def py_sub_def mul_int_def
  floordiv_int_def min_int_def max_num_def truediv_int_def hash_key_def lookup_def add_def
  pos_default_def xyz_def

lemma scene_with_late_effect:
  "generate_scene_commands rt self (JDict [(''duration_seconds'', JInt 30), (''effects'', JList [JDict [(''tick'', JInt 5000), (''type'', JStr ''flash'')]])])
    = Inr (\<lparr>name = JStr ''unnamed_scene'', commands = [
        \<lparr>tick = JInt 0, command = ''time set day'', description = ''Set time of day'', command_type = ''minecraft''\<rparr>,
        \<lparr>tick = JInt 0, command = ''weather clear'', description = ''Set weather'', command_type = ''minecraft''\<rparr>,
        \<lparr>tick = JInt 5000, command = ''# Unknown effect'', description = ''Placeholder'', command_type = ''comment''\<rparr>],
      duration_ticks = JInt 600\<rparr>, self)"
  by (simp add: generate_scene_commands_def time_command_def weather_command_def time_map_def weather_map_def
     generate_camera_commands_def generate_effect_command_def py_eval)


lemma scene_of_twenty_seconds:
  "generate_scene_commands rt self (JDict [(''duration_seconds'', JInt 20)])
    = Inr (\<lparr>name = JStr ''unnamed_scene'', commands = [
        \<lparr>tick = JInt 0, command = ''time set day'', description = ''Set time of day'', command_type = ''minecraft''\<rparr>,
        \<lparr>tick = JInt 0, command = ''weather clear'', description = ''Set weather'', command_type = ''minecraft''\<rparr>],
      duration_ticks = JInt 400\<rparr>, self)"
  by (simp add: generate_scene_commands_def time_command_def weather_command_def time_map_def weather_map_def
     generate_camera_commands_def generate_effect_command_def py_eval)

lemma two_scenes:
  "generate_full_script rt self
     (JDict [(''scenes'', JList
        [JDict [(''duration_seconds'', JInt 30),
                (''effects'', JList [JDict [(''tick'', JInt 5000), (''type'', JStr ''flash'')]])],
         JDict [(''duration_seconds'', JInt 20)]])])
   = Inr (\<lparr>title = JStr ''Untitled'', total_duration_ticks = JInt 1000, total_duration_seconds = 50,
      scenes = [
        \<lparr>entry_scene_name = JStr ''unnamed_scene'', start_tick = JInt 0, entry_duration_ticks = JInt 600,
          entry_commands = [
        \<lparr>tick = JInt 0, command = ''time set day'', description = ''Set time of day'', command_type = ''minecraft''\<rparr>,
        \<lparr>tick = JInt 0, command = ''weather clear'', description = ''Set weather'', command_type = ''minecraft''\<rparr>,
        \<lparr>tick = JInt 5000, command = ''# Unknown effect'', description = ''Placeholder'', command_type = ''comment''\<rparr>]\<rparr>,
        \<lparr>entry_scene_name = JStr ''unnamed_scene'', start_tick = JInt 600, entry_duration_ticks = JInt 400,
          entry_commands = [
        \<lparr>tick = JInt 600, command = ''time set day'', description = ''Set time of day'', command_type = ''minecraft''\<rparr>,
        \<lparr>tick = JInt 600, command = ''weather clear'', description = ''Set weather'', command_type = ''minecraft''\<rparr>]\<rparr>]\<rparr>, self)"
  by (simp add: generate_full_script_def script_scene_def scene_with_late_effect scene_of_twenty_seconds offset_command_def to_list_def py_eval)


section \<open>Claims about the script assembler\<close>




lemma add_number:
  assumes "is_number tk"
  shows "\<exists>seq'. add tk cmd desc ty seq = Inr seq'
           \<and> commands seq' = commands seq
                 @ [\<lparr>tick = tk, command = cmd, description = desc, command_type = ty\<rparr>]"
  using assms by (simp add: add_def max_num_def)


section \<open>Claims about the entity resolver\<close>

text \<open>
  C9 (as stated): a custom name is attached whenever the display name differs from the
  declared type and from the resolved identifier. The code attaches it when the
  lower-cased name differs from the type and does not occur inside the identifier, so
  the name \<open>Craft\<close>, which occurs in \<open>minecraft:zombie\<close>, gets none.
\<close>

theorem spawn_without_custom_name:
  "''Craft'' \<noteq> ''zombie'' \<and> ''Craft'' \<noteq> ''minecraft:zombie''
   \<and> (case generate_actor_commands sample_rt (init (0, 64, 0))
              (JDict [(''name'', JStr ''Craft''), (''type'', JStr ''zombie''),
                      (''actions'', JList [JDict [(''type'', JStr ''spawn'')]])]) of
         Inl e \<Rightarrow> False
       | Inr (seq, self') \<Rightarrow>
           map command (commands seq) = [''execute at @p run summon minecraft:zombie ~ ~ ~ ''])"
proof -
  have l: "lower ''Craft'' = ''craft''" "lower ''zombie'' = ''zombie''"
    by code_simp+
  show ?thesis
    by (simp add: generate_actor_commands_def actor_action_def spawn_action_def clean_def
        str_lower_def replace_def l entity_id_of_def spawn_command_def contains_def
        sublist_Cons_right py_eval)
qed

text \<open>
  C9 (amended): for a spawn action of an actor whose declared type, lower-cased and with
  spaces turned into underscores, is neither \<open>unknown\<close> nor \<open>actor\<close> and does not contain
  \<open>titan\<close>, the resolved identifier is \<open>minecraft:\<close> followed by that normalised type;
  the creation command summons it and, unless the identifier contains \<open>ender_dragon\<close>,
  carries the custom name equal to the display name exactly when the lower-cased
  display name differs from the normalised type and does not occur in the identifier.
\<close>

theorem spawn_declared_type:
  assumes "get actor ''type'' (JStr ''unknown'') = Inr (JStr declared_type)"
    and "actor_type = replace CHR '' '' ''_'' (lower declared_type)"
    and "actor_type \<noteq> ''unknown''" "actor_type \<noteq> ''actor''"
    and "\<not> contains ''titan'' actor_type"
    and "\<not> contains ''ender_dragon'' (''minecraft:'' @ actor_type)"
    and "get action ''position'' pos_default = Inr raw_pos"
    and "is_number tk" "hash_key actor_id = Inr k"
  shows "\<exists>seq' self'.
           spawn_action rt actor (JStr display_name) actor_id action tk (seq, self)
             = Inr (seq', self')
           \<and> commands seq' = commands seq
               @ [\<lparr>tick = tk,
                   command = ''execute at @p run summon minecraft:'' @ actor_type @ '' ~ ~ ~ ''
                     @ (if lower display_name \<noteq> actor_type
                           \<and> \<not> contains (lower display_name) (''minecraft:'' @ actor_type)
                        then ''{CustomName:'' @ sq @ ''{'' @ dq @ ''text'' @ dq @ '':'' @ dq
                               @ display_name @ dq @ ''}'' @ sq @ ''}''
                        else []),
                   description = ''Spawn '' @ display_name, command_type = ''minecraft''\<rparr>]
           \<and> actor_registry self' k
               = Some \<lparr>entry_name = JStr display_name, entry_position = raw_pos,
                       entry_type = ''minecraft:'' @ actor_type\<rparr>"
proof -
  have id: "entity_id_of actor_type c = ''minecraft:'' @ actor_type" for c
    using assms(3-5) by (simp add: entity_id_of_def)
  let ?cmd = "spawn_command display_name actor_type (''minecraft:'' @ actor_type)"
  have cmd: "?cmd = ''execute at @p run summon minecraft:'' @ actor_type @ '' ~ ~ ~ ''
                     @ (if lower display_name \<noteq> actor_type
                           \<and> \<not> contains (lower display_name) (''minecraft:'' @ actor_type)
                        then ''{CustomName:'' @ sq @ ''{'' @ dq @ ''text'' @ dq @ '':'' @ dq
                               @ display_name @ dq @ ''}'' @ sq @ ''}''
                        else [])"
    using assms(6) by (simp add: spawn_command_def Let_def)
  have cl: "clean (JStr declared_type) = Inr actor_type"
    and cn: "clean (JStr display_name) = Inr (replace CHR '' '' ''_'' (lower display_name))"
    using assms(2) by (simp_all add: clean_def str_lower_def)
  from add_number [OF assms(8), of ?cmd "''Spawn '' @ display_name" "''minecraft''" seq]
  obtain seq' where d: "add tk ?cmd (''Spawn '' @ display_name) ''minecraft'' seq = Inr seq'"
    and c: "commands seq' = commands seq
                   @ [\<lparr>tick = tk, command = ?cmd, description = ''Spawn '' @ display_name,
                       command_type = ''minecraft''\<rparr>]"
    by blast
  have "spawn_action rt actor (JStr display_name) actor_id action tk (seq, self)
      = Inr (seq', self\<lparr>actor_registry := (actor_registry self)
                     (k \<mapsto> \<lparr>entry_name = JStr display_name, entry_position = raw_pos,
                             entry_type = ''minecraft:'' @ actor_type\<rparr>)\<rparr>)"
    using assms(1,7,9) d
    by (simp add: spawn_action_def cl cn str_def id Let_def del: append.simps)
  then show ?thesis
    using c cmd by simp
qed


theorem spawn_declared_type_witness:
  "(case spawn_action sample_rt (JDict [(''name'', JStr ''Zoro''), (''type'', JStr ''zombie'')])
           (JStr ''Zoro'') (JStr ''actor_001'') (JDict [(''type'', JStr ''spawn'')]) (JInt 0)
           (\<lparr>name = JStr ''actor_unknown'', commands = [], duration_ticks = JInt 0\<rparr>,
            init (0, 64, 0)) of
      Inl e \<Rightarrow> False
    | Inr (seq, self') \<Rightarrow>
        map command (commands seq)
          = [''execute at @p run summon minecraft:zombie ~ ~ ~ {CustomName:'' @ sq @ ''{'' @ dq
               @ ''text'' @ dq @ '':'' @ dq @ ''Zoro'' @ dq @ ''}'' @ sq @ ''}'']
        \<and> map_option entry_type (actor_registry self' (KStr ''actor_001''))
            = Some ''minecraft:zombie'')"
proof -
  have l: "lower ''Zoro'' = ''zoro''" "''zombie'' = replace CHR '' '' ''_'' (lower ''zombie'')"
    by code_simp+
  have c: "\<not> contains ''titan'' ''zombie''" "\<not> contains ''ender_dragon'' (''minecraft:'' @ ''zombie'')"
    "\<not> contains ''zoro'' (''minecraft:'' @ ''zombie'')"
    by (simp_all add: contains_def sublist_Cons_right)
  have g: "get (JDict [(''name'', JStr ''Zoro''), (''type'', JStr ''zombie'')]) ''type''
             (JStr ''unknown'') = Inr (JStr ''zombie'')"
    "get (JDict [(''type'', JStr ''spawn'')]) ''position'' pos_default = Inr pos_default"
    "is_number (JInt 0)" "hash_key (JStr ''actor_001'') = Inr (KStr ''actor_001'')"
    by (simp_all add: get_def is_number_def hash_key_def)
  from spawn_declared_type [OF g(1) l(2) _ _ c(1,2) g(2,3,4), of sample_rt "''Zoro''"
      "\<lparr>name = JStr ''actor_unknown'', commands = [], duration_ticks = JInt 0\<rparr>" "init (0, 64, 0)"]
  obtain seq' self' where
    "spawn_action sample_rt (JDict [(''name'', JStr ''Zoro''), (''type'', JStr ''zombie'')])
           (JStr ''Zoro'') (JStr ''actor_001'') (JDict [(''type'', JStr ''spawn'')]) (JInt 0)
           (\<lparr>name = JStr ''actor_unknown'', commands = [], duration_ticks = JInt 0\<rparr>,
            init (0, 64, 0)) = Inr (seq', self')"
    and "map command (commands seq')
          = [''execute at @p run summon minecraft:zombie ~ ~ ~ {CustomName:'' @ sq @ ''{'' @ dq
               @ ''text'' @ dq @ '':'' @ dq @ ''Zoro'' @ dq @ ''}'' @ sq @ ''}'']"
    and "actor_registry self' (KStr ''actor_001'')
               = Some \<lparr>entry_name = JStr ''Zoro'', entry_position = pos_default,
                       entry_type = ''minecraft:'' @ ''zombie''\<rparr>"
    using l(1) c(3) by auto
  then show ?thesis by simp
qed

section \<open>Claims about the camera interpolator\<close>

text \<open>
  C2: a frame count of at least 1 is asked for. The code computes
  \<open>min(20, (tick_end - tick_start) // 5)\<close> with no lower bound, so for
  \<open>tick_end = tick_start\<close> the count is 0, the loop runs once with \<open>i = 0\<close>, and
  \<open>t = i / num_frames\<close> raises \<open>ZeroDivisionError\<close>, for orbit and for dolly alike: no
  keyframe is emitted.
\<close>

theorem interpolation_divides_by_zero:
  "generate_camera_commands rt self
     (JDict [(''movements'', JList [JDict [(''type'', JStr ''orbit''),
        (''tick_start'', JInt n), (''tick_end'', JInt n)]])])
   = Inl ZeroDivisionError
   \<and> generate_camera_commands rt self
     (JDict [(''movements'', JList [JDict [(''type'', JStr ''dolly''),
        (''tick_start'', JInt n), (''tick_end'', JInt n)]])])
   = Inl ZeroDivisionError"
  by (simp add: generate_camera_commands_def camera_movement_def parse_pos_def
      parse_coord_def get_float_def frame_count_def range_incl_def orbit_frame_def
      dolly_frame_def fraction_def py_eval)

text \<open>The registry only grows, whether a method returns or raises.\<close>

lemma attempt_grows:
  assumes "\<And>x. m = Inr x \<Longrightarrow> dom (actor_registry self) \<subseteq> dom (actor_registry (after (f x)))"
  shows "dom (actor_registry self) \<subseteq> dom (actor_registry (after (attempt self m f)))"
  using assms by (cases m) simp_all

lemma gbind_grows:
  assumes "dom (actor_registry self) \<subseteq> dom (actor_registry (after m))"
    and "\<And>x g. m = Inr (x, g) \<Longrightarrow> dom (actor_registry g) \<subseteq> dom (actor_registry (after (f x g)))"
  shows "dom (actor_registry self) \<subseteq> dom (actor_registry (after (gbind m f)))"
proof (cases m)
  case (Inl eg)
  with assms(1) show ?thesis
    by (cases eg) simp
next
  case (Inr xg)
  obtain x g where xg: "xg = (x, g)" by (cases xg)
  from assms(1) Inr xg have "dom (actor_registry self) \<subseteq> dom (actor_registry g)"
    by simp
  also from assms(2) Inr xg have "\<dots> \<subseteq> dom (actor_registry (after (f x g)))"
    by simp
  finally show ?thesis
    using Inr xg by simp
qed

lemma gfold_grows:
  assumes "\<And>x s g. dom (actor_registry g) \<subseteq> dom (actor_registry (after (body x s g)))"
  shows "dom (actor_registry self) \<subseteq> dom (actor_registry (after (gfold body xs s self)))"
proof (induction xs arbitrary: s self)
  case Nil
  show ?case by simp
next
  case (Cons x xs)
  show ?case
    unfolding gfold.simps by (rule gbind_grows) (rule assms, rule Cons.IH)
qed

lemma spawn_action_registry:
  assumes "spawn_action rt actor actor_name actor_id action tk st = Inr st'"
  shows "dom (actor_registry (snd st)) \<subseteq> dom (actor_registry (snd st'))"
  using assms unfolding spawn_action_def Let_def
  by (elim ebind_InrE) auto

lemma actor_action_registry:
  assumes "actor_action rt actor actor_name actor_id action st = Inr st'"
  shows "dom (actor_registry (snd st)) \<subseteq> dom (actor_registry (snd st'))"
  using assms spawn_action_registry unfolding actor_action_def
  by (elim ebind_InrE) (auto split: if_splits elim!: ebind_InrE)

lemma generate_actor_commands_registry:
  "dom (actor_registry self)
     \<subseteq> dom (actor_registry (after (generate_actor_commands rt self actor)))"
proof -
  have body: "dom (actor_registry g)
      \<subseteq> dom (actor_registry (after
            (attempt g (actor_action rt actor actor_name actor_id action (seq, g)) Inr)))"
    for actor_name actor_id action seq g
  proof (cases "actor_action rt actor actor_name actor_id action (seq, g)")
    case (Inl e)
    then show ?thesis by simp
  next
    case (Inr st')
    from actor_action_registry [OF this] Inr show ?thesis
      by (cases st') simp
  qed
  show ?thesis
    unfolding generate_actor_commands_def
    by (intro body attempt_grows gfold_grows)
qed

lemma scene_actor_registry:
  "dom (actor_registry self) \<subseteq> dom (actor_registry (after (scene_actor rt actor seq self)))"
  unfolding scene_actor_def
  by (rule gbind_grows) (simp_all add: generate_actor_commands_registry)

lemma generate_scene_commands_registry:
  "dom (actor_registry self)
     \<subseteq> dom (actor_registry (after (generate_scene_commands rt self scene)))"
  unfolding generate_scene_commands_def
  by (intro attempt_grows gbind_grows gfold_grows scene_actor_registry) simp

lemma script_scene_registry:
  "dom (actor_registry self) \<subseteq> dom (actor_registry (after (script_scene rt scene st self)))"
proof -
  obtain entries off where st: "st = (entries, off)"
    by (cases st)
  show ?thesis
    unfolding script_scene_def st prod.case
    by (intro gbind_grows attempt_grows generate_scene_commands_registry) simp
qed

lemma generate_full_script_registry:
  "dom (actor_registry self)
     \<subseteq> dom (actor_registry (after (generate_full_script rt self storyboard)))"
  unfolding generate_full_script_def
  by (intro attempt_grows gbind_grows gfold_grows script_scene_registry)
    (simp split: prod.splits, intro allI impI attempt_grows, simp)

lemma first_pass:
  "generate_full_script rt (init (0, 64, 0))
     (JDict [(''scenes'', JList [JDict [(''actors'', JList
        [JDict [(''id'', JStr ''hero''), (''name'', JStr ''Bob''), (''type'', JStr ''villager''),
                (''actions'', JList [JDict [(''type'', JStr ''spawn'')]])]])]])])
   = Inr (\<lparr>title = JStr ''Untitled'', total_duration_ticks = JInt 600,
           total_duration_seconds = 30,
           scenes = [\<lparr>entry_scene_name = JStr ''unnamed_scene'', start_tick = JInt 0,
             entry_duration_ticks = JInt 600,
             entry_commands =
               [\<lparr>tick = JInt 0, command = ''time set day'', description = ''Set time of day'',
                  command_type = ''minecraft''\<rparr>,
                \<lparr>tick = JInt 0, command = ''weather clear'', description = ''Set weather'',
                  command_type = ''minecraft''\<rparr>,
                \<lparr>tick = JInt 0,
                  command = ''execute at @p run summon minecraft:villager ~ ~ ~ {CustomName:''
                    @ sq @ ''{'' @ dq @ ''text'' @ dq @ '':'' @ dq @ ''Bob'' @ dq @ ''}'' @ sq
                    @ ''}'',
                  description = ''Spawn Bob'', command_type = ''minecraft''\<rparr>]\<rparr>]\<rparr>,
          \<lparr>base_x = 0, base_y = 64, base_z = 0,
           actor_registry = [KStr ''hero'' \<mapsto>
             \<lparr>entry_name = JStr ''Bob'', entry_position = JList [JInt 0, JInt 64, JInt 0],
              entry_type = ''minecraft:villager''\<rparr>]\<rparr>)"
proof -
  have l: "lower ''Bob'' = ''bob''" "lower ''villager'' = ''villager''"
    by code_simp+
  show ?thesis
    by (simp add: generate_full_script_def script_scene_def generate_scene_commands_def
        time_command_def weather_command_def time_map_def weather_map_def scene_actor_def
        generate_actor_commands_def actor_action_def spawn_action_def clean_def str_lower_def
        replace_def l entity_id_of_def spawn_command_def contains_def sublist_Cons_right
        generate_camera_commands_def offset_command_def to_list_def init_def py_eval)
qed

lemma interrupted_pass:
  "generate_full_script rt (init (0, 64, 0))
     (JDict [(''scenes'', JList [JDict [(''actors'', JList
        [JDict [(''id'', JStr ''hero''), (''name'', JStr ''Bob''), (''type'', JStr ''villager''),
                (''actions'', JList [JDict [(''type'', JStr ''spawn'')],
                                     JDict [(''type'', JStr ''jump''),
                                            (''tick'', JStr ''soon'')]])]])]])])
   = Inl (TypeError,
          \<lparr>base_x = 0, base_y = 64, base_z = 0,
           actor_registry = [KStr ''hero'' \<mapsto>
             \<lparr>entry_name = JStr ''Bob'', entry_position = JList [JInt 0, JInt 64, JInt 0],
              entry_type = ''minecraft:villager''\<rparr>]\<rparr>)"
proof -
  have l: "lower ''Bob'' = ''bob''" "lower ''villager'' = ''villager''"
    by code_simp+
  show ?thesis
    by (simp add: generate_full_script_def script_scene_def generate_scene_commands_def
        time_command_def weather_command_def time_map_def weather_map_def scene_actor_def
        generate_actor_commands_def actor_action_def spawn_action_def other_action_def
        get_target_selector_def clean_def str_lower_def
        replace_def l entity_id_of_def spawn_command_def contains_def sublist_Cons_right
        init_def py_eval)
qed

lemma digit_chars:
  "char_of (48::nat) = CHR ''0''" "char_of (49::nat) = CHR ''1''" "char_of (50::nat) = CHR ''2''"
  "char_of (51::nat) = CHR ''3''" "char_of (52::nat) = CHR ''4''" "char_of (53::nat) = CHR ''5''"
  "char_of (54::nat) = CHR ''6''" "char_of (55::nat) = CHR ''7''" "char_of (56::nat) = CHR ''8''"
  "char_of (57::nat) = CHR ''9''"
  by code_simp+

lemma sample_formats:
  "sample_format_1f 0 = ''0.0''" "sample_format_1f 70 = ''70.0''" "sample_format_1f 10 = ''10.0''"
  by (simp_all add: sample_format_1f_def round_half_even_def Let_def digits.simps digit_chars)

lemma second_pass:
  assumes "actor_registry self (KStr ''hero'') = Some entry" "entry_name entry = JStr ''Bob''"
  shows "generate_full_script sample_rt self
     (JDict [(''scenes'', JList [JDict [(''camera'', JDict [(''movements'', JList
        [JDict [(''type'', JStr ''dolly''), (''tick_end'', JInt 5),
                (''look_at'', JStr ''hero'')]])])]])])
   = Inr (\<lparr>title = JStr ''Untitled'', total_duration_ticks = JInt 600,
           total_duration_seconds = 30,
           scenes = [\<lparr>entry_scene_name = JStr ''unnamed_scene'', start_tick = JInt 0,
             entry_duration_ticks = JInt 600,
             entry_commands =
               [\<lparr>tick = JInt 0, command = ''time set day'', description = ''Set time of day'',
                  command_type = ''minecraft''\<rparr>,
                \<lparr>tick = JInt 0, command = ''weather clear'', description = ''Set weather'',
                  command_type = ''minecraft''\<rparr>,
                \<lparr>tick = JInt 0,
                  command = ''tp @p 0.0 70.0 0.0 facing entity @e[name='' @ dq @ ''Bob'' @ dq
                    @ '']'',
                  description = ''Dolly frame 0'', command_type = ''camera''\<rparr>,
                \<lparr>tick = JInt 5,
                  command = ''tp @p 10.0 70.0 0.0 facing entity @e[name='' @ dq @ ''Bob'' @ dq
                    @ '']'',
                  description = ''Dolly frame 1'', command_type = ''camera''\<rparr>]\<rparr>]\<rparr>,
          self)"
  using assms
  by (simp add: generate_full_script_def script_scene_def generate_scene_commands_def
        time_command_def weather_command_def time_map_def weather_map_def
        generate_camera_commands_def camera_movement_def parse_pos_def parse_coord_def
        frame_count_def range_incl_def dolly_frame_def fraction_def frame_tick_def trunc_def
        lerp_def coord_def sample_rt_def sample_formats digits.simps digit_chars
        offset_command_def to_list_def py_eval upt_rec)


lemma parse_coord_coordinate:
  assumes "\<And>i. x = JInt i \<Longrightarrow> \<bar>nearest (of_int i)\<bar> < 2 ^ 1024"
  shows "parse_coord rt x = Inr (coordinate rt x)"
  using assms
  by (cases x) (auto simp: parse_coord_def coordinate_def float_def float_of_int_def Let_def
      split: option.splits)

lemma emap_total:
  assumes "\<And>x. x \<in> set xs \<Longrightarrow> f x = Inr (g x)"
  shows "emap f xs = Inr (map g xs)"
  using assms by (induction xs) simp_all

lemma defaults:
  "generate_full_script rt self (JDict [])
     = Inr (\<lparr>title = JStr ''Untitled'', total_duration_ticks = JInt 0,
             total_duration_seconds = 0, scenes = []\<rparr>, self)"
  "generate_scene_commands rt self (JDict [])
     = Inr (\<lparr>name = JStr ''unnamed_scene'',
             commands =
               [\<lparr>tick = JInt 0, command = ''time set day'', description = ''Set time of day'',
                  command_type = ''minecraft''\<rparr>,
                \<lparr>tick = JInt 0, command = ''weather clear'', description = ''Set weather'',
                  command_type = ''minecraft''\<rparr>],
             duration_ticks = JInt 600\<rparr>, self)"
  by (simp_all add: generate_full_script_def generate_scene_commands_def
        time_command_def weather_command_def time_map_def weather_map_def
        generate_camera_commands_def py_eval)


section \<open>Claims about the entity registry\<close>

text \<open>
  C5 (as stated): the registry starts empty on every call of \<open>generate_full_script\<close>.
  The registry is set to the empty dict in \<open>__init__\<close> only. Here one generator compiles
  a storyboard that spawns the actor \<open>hero\<close>, named Bob, and then a second storyboard
  that has no actor at all and a dolly movement looking at \<open>hero\<close>: the second script
  aims the camera at the entity named Bob.
\<close>

theorem registry_seen_by_later_compilation:
  "(case generate_full_script sample_rt (init (0, 64, 0))
           (JDict [(''scenes'', JList [JDict [(''actors'', JList
              [JDict [(''id'', JStr ''hero''), (''name'', JStr ''Bob''), (''type'', JStr ''villager''),
                      (''actions'', JList [JDict [(''type'', JStr ''spawn'')]])]])]])]) of
      Inl e \<Rightarrow> False
    | Inr (r1, self1) \<Rightarrow>
        (case generate_full_script sample_rt self1
                (JDict [(''scenes'', JList [JDict [(''camera'', JDict [(''movements'', JList
                  [JDict [(''type'', JStr ''dolly''), (''tick_end'', JInt 5),
                          (''look_at'', JStr ''hero'')]])])]])]) of
           Inl e \<Rightarrow> False
         | Inr (r2, self2) \<Rightarrow>
             map (\<lambda>e. map command (entry_commands e)) (scenes r2)
               = [[''time set day'', ''weather clear'',
                   ''tp @p 0.0 70.0 0.0 facing entity @e[name='' @ dq @ ''Bob'' @ dq @ '']'',
                   ''tp @p 10.0 70.0 0.0 facing entity @e[name='' @ dq @ ''Bob'' @ dq @ '']'']]))"
proof -
  let ?entry = "\<lparr>entry_name = JStr ''Bob'', entry_position = JList [JInt 0, JInt 64, JInt 0],
              entry_type = ''minecraft:villager''\<rparr>"
  let ?self1 = "\<lparr>base_x = 0, base_y = 64, base_z = 0,
           actor_registry = [KStr ''hero'' \<mapsto> ?entry]\<rparr>"
  have "actor_registry ?self1 (KStr ''hero'') = Some ?entry" "entry_name ?entry = JStr ''Bob''"
    by simp_all
  note second = second_pass [OF this]
  show ?thesis
    by (simp add: first_pass second)
qed

text \<open>
  C5 (amended): the registry belongs to the generator instance. \<open>__init__\<close> creates it
  empty, and \<open>generate_full_script\<close> starts from the registry it finds and never removes
  a key, whether it returns or raises: every actor id registered by a spawn action
  stays registered through every later compilation by the same instance, where a dolly
  movement's \<open>look_at\<close> finds it; only a new generator starts empty.
\<close>

theorem registry_outlives_compilation:
  "actor_registry (init base_position) = Map.empty
   \<and> dom (actor_registry self)
       \<subseteq> dom (actor_registry (after (generate_full_script rt self storyboard)))
   \<and> dom (actor_registry self) \<subseteq> dom (actor_registry (compilations rt self storyboards))"
proof -
  have "dom (actor_registry g) \<subseteq> dom (actor_registry (compilations rt g storyboards))" for g
  proof (induction storyboards arbitrary: g)
    case Nil
    show ?case by (simp add: compilations_def)
  next
    case (Cons storyboard storyboards)
    have "dom (actor_registry g)
        \<subseteq> dom (actor_registry (after (generate_full_script rt g storyboard)))"
      by (rule generate_full_script_registry)
    also have "\<dots> \<subseteq> dom (actor_registry
        (compilations rt (after (generate_full_script rt g storyboard)) storyboards))"
      by (rule Cons.IH)
    finally show ?case by (simp add: compilations_def)
  qed
  then show ?thesis
    using generate_full_script_registry by (cases base_position) (simp add: init_def)
qed

theorem registry_outlives_compilation_witness:
  "generate_full_script sample_rt (init (0, 64, 0))
     (JDict [(''scenes'', JList [JDict [(''actors'', JList
        [JDict [(''id'', JStr ''hero''), (''name'', JStr ''Bob''), (''type'', JStr ''villager''),
                (''actions'', JList [JDict [(''type'', JStr ''spawn'')],
                                     JDict [(''type'', JStr ''jump''),
                                            (''tick'', JStr ''soon'')]])]])]])])
   = Inl (TypeError,
          \<lparr>base_x = 0, base_y = 64, base_z = 0,
           actor_registry = [KStr ''hero'' \<mapsto>
             \<lparr>entry_name = JStr ''Bob'', entry_position = JList [JInt 0, JInt 64, JInt 0],
              entry_type = ''minecraft:villager''\<rparr>]\<rparr>)
   \<and> KStr ''hero'' \<in> dom (actor_registry (compilations sample_rt (init (0, 64, 0))
       [JDict [(''scenes'', JList [JDict [(''actors'', JList
          [JDict [(''id'', JStr ''hero''), (''name'', JStr ''Bob''), (''type'', JStr ''villager''),
                  (''actions'', JList [JDict [(''type'', JStr ''spawn'')],
                                       JDict [(''type'', JStr ''jump''),
                                              (''tick'', JStr ''soon'')]])]])]])],
        JDict [(''scenes'', JList [JDict [(''camera'', JDict [(''movements'', JList
          [JDict [(''type'', JStr ''dolly''), (''tick_end'', JInt 5),
                  (''look_at'', JStr ''hero'')]])])]])],
        JDict []]))"
proof -
  let ?first = "JDict [(''scenes'', JList [JDict [(''actors'', JList
        [JDict [(''id'', JStr ''hero''), (''name'', JStr ''Bob''), (''type'', JStr ''villager''),
                (''actions'', JList [JDict [(''type'', JStr ''spawn'')],
                                     JDict [(''type'', JStr ''jump''),
                                            (''tick'', JStr ''soon'')]])]])]])]"
  let ?rest = "[JDict [(''scenes'', JList [JDict [(''camera'', JDict [(''movements'', JList
          [JDict [(''type'', JStr ''dolly''), (''tick_end'', JInt 5),
                  (''look_at'', JStr ''hero'')]])])]])],
        JDict []]"
  let ?self1 = "\<lparr>base_x = 0, base_y = 64, base_z = 0,
           actor_registry = [KStr ''hero'' \<mapsto>
             \<lparr>entry_name = JStr ''Bob'', entry_position = JList [JInt 0, JInt 64, JInt 0],
              entry_type = ''minecraft:villager''\<rparr>]\<rparr>"
  note first = interrupted_pass [of sample_rt]
  from registry_outlives_compilation [of "(0, 64, 0)" ?self1 sample_rt ?first ?rest]
  have "dom (actor_registry ?self1) \<subseteq> dom (actor_registry (compilations sample_rt ?self1 ?rest))"
    by blast
  then have "KStr ''hero'' \<in> dom (actor_registry (compilations sample_rt ?self1 ?rest))"
    by auto
  moreover have "compilations sample_rt (init (0, 64, 0)) (?first # ?rest)
      = compilations sample_rt ?self1 ?rest"
    unfolding compilations_def foldl_Cons first after_simps ..
  ultimately show ?thesis
    using first by simp
qed

section \<open>Facts about storyboards of the expected shape\<close>

lemma safe_Inr [simp]: "safe (Inr x) Q = Q x"
  by (simp add: safe_def)

lemma safe_Inl [simp]: "safe (Inl e) Q = (e = OverflowError)"
  by (simp add: safe_def)

lemma gsafe_Inr [simp]: "gsafe (Inr (x, g)) Q = Q x"
  by (simp add: gsafe_def)

lemma gsafe_Inl [simp]: "gsafe (Inl (e, g)) Q = (e = OverflowError)"
  by (simp add: gsafe_def)

lemma safe_ebind:
  assumes "safe m P" "\<And>x. m = Inr x \<Longrightarrow> P x \<Longrightarrow> safe (f x) Q"
  shows "safe (ebind m f) Q"
  using assms by (cases m) simp_all

lemma safe_mono:
  assumes "safe m P" "\<And>x. P x \<Longrightarrow> Q x"
  shows "safe m Q"
  using assms by (cases m) simp_all

lemma safe_efold:
  assumes "I s" "\<And>x s. x \<in> set xs \<Longrightarrow> I s \<Longrightarrow> safe (body x s) I"
  shows "safe (efold body xs s) I"
  using assms
proof (induction xs arbitrary: s)
  case Nil
  then show ?case by simp
next
  case (Cons x xs)
  show ?case
    unfolding efold.simps
    by (rule safe_ebind [where P = I]) (use Cons in auto)
qed

lemma safe_emap:
  assumes "\<And>x. x \<in> set xs \<Longrightarrow> safe (f x) P"
  shows "safe (emap f xs) (list_all P)"
  using assms
proof (induction xs)
  case Nil
  then show ?case by simp
next
  case (Cons x xs)
  show ?case
    unfolding emap.simps
    by (rule safe_ebind [where P = P], use Cons in simp)
      (rule safe_ebind [where P = "list_all P"], use Cons in auto)
qed

lemma gsafe_attempt:
  assumes "safe m P" "\<And>x. m = Inr x \<Longrightarrow> P x \<Longrightarrow> gsafe (f x) Q"
  shows "gsafe (attempt g m f) Q"
  using assms by (cases m) simp_all

lemma gsafe_gbind:
  assumes "gsafe m P" "\<And>x g. m = Inr (x, g) \<Longrightarrow> P x \<Longrightarrow> gsafe (f x g) Q"
  shows "gsafe (gbind m f) Q"
  using assms by (cases m) (auto simp: gsafe_def gbind_def)

lemma gsafe_gfold:
  assumes "I s" "\<And>x s g. x \<in> set xs \<Longrightarrow> I s \<Longrightarrow> gsafe (body x s g) I"
  shows "gsafe (gfold body xs s g) I"
  using assms
proof (induction xs arbitrary: s g)
  case Nil
  then show ?case by simp
next
  case (Cons x xs)
  show ?case
    unfolding gfold.simps
    by (rule gsafe_gbind [where P = I]) (use Cons in auto)
qed

lemma get_field:
  assumes "field d key P" "P dflt"
  shows "\<exists>v. get d key dflt = Inr v \<and> P v"
  using assms by (auto simp: field_def get_def split: json.splits option.splits)

lemma safe_get:
  assumes "field d key P" "P dflt"
  shows "safe (get d key dflt) P"
  using get_field [OF assms] by auto

lemma safe_iter:
  assumes "list_of P v"
  shows "safe (iter v) (list_all P)"
  using assms by (cases v) (simp_all add: list_of_def iter_def)


lemma safeI: "m = Inr x \<Longrightarrow> P x \<Longrightarrow> safe m P"
  by simp

lemma add_eq:
  assumes "is_number tk"
  shows "add tk cmd desc ty seq
    = Inr (seq\<lparr>commands := commands seq
                   @ [\<lparr>tick = tk, command = cmd, description = desc, command_type = ty\<rparr>],
               duration_ticks :=
                 (if num_val tk > num_val (duration_ticks seq) then tk else duration_ticks seq)\<rparr>)"
  using assms by (simp add: add_def max_num_def)

lemma numbered_add:
  assumes "is_number tk" "numbered seq"
  shows "numbered (seq\<lparr>commands := commands seq
                   @ [\<lparr>tick = tk, command = cmd, description = desc, command_type = ty\<rparr>],
               duration_ticks :=
                 (if num_val tk > num_val (duration_ticks seq) then tk else duration_ticks seq)\<rparr>)"
  using assms by (simp add: numbered_def)

lemma add_numbered:
  assumes "is_number tk" "numbered seq"
  shows "\<exists>seq'. add tk cmd desc ty seq = Inr seq' \<and> numbered seq'"
  using add_eq [OF assms(1)] numbered_add [OF assms] by simp

lemma xyz_triple:
  assumes "triple v"
  shows "\<exists>p. xyz rt v = Inr p"
  using assms by (cases v) (auto simp: triple_def xyz_def index_def)

lemma hash_key_hashable:
  assumes "hashable v"
  shows "\<exists>k. hash_key v = Inr k"
  using assms by (cases v) (simp_all add: hashable_def hash_key_def)

lemma lookup_hashable:
  assumes "hashable key"
  shows "\<exists>v. lookup table key dflt = Inr v"
  using hash_key_hashable [OF assms] by (auto simp: lookup_def)

lemma clean_str:
  assumes "is_str v"
  shows "\<exists>s. clean v = Inr s"
  using assms by (cases v) (simp_all add: is_str_def clean_def str_lower_def)

lemma get_target_selector_str:
  assumes "is_str nm" "is_str ty"
  shows "\<exists>selector. get_target_selector nm ty = Inr selector"
proof -
  from assms obtain s t where "nm = JStr s" "ty = JStr t"
    by (cases nm; cases ty) (simp_all add: is_str_def)
  then show ?thesis
    by (simp add: get_target_selector_def clean_def str_lower_def Let_def)
qed

lemma spawn_action_safe:
  assumes "field actor ''type'' is_str" "is_str actor_name" "hashable actor_id"
    and "action_ok action" "is_number tk" "numbered seq"
  shows "\<exists>seq' g'. spawn_action rt actor actor_name actor_id action tk (seq, g) = Inr (seq', g')
           \<and> numbered seq'"
proof -
  from assms(4) have "field action ''position'' (\<lambda>_. True)"
    by (auto simp: action_ok_def field_def split: json.splits option.splits)
  from get_field [OF this, of pos_default] obtain raw_pos where
    "get action ''position'' pos_default = Inr raw_pos" by auto
  moreover from get_field [OF assms(1), of "JStr ''unknown''"] obtain ty where
    "get actor ''type'' (JStr ''unknown'') = Inr ty" "is_str ty" by (auto simp: is_str_def)
  moreover from clean_str [OF \<open>is_str ty\<close>] obtain actor_type where "clean ty = Inr actor_type" ..
  moreover from clean_str [OF assms(2)] obtain clean_name where
    "clean actor_name = Inr clean_name" ..
  moreover from hash_key_hashable [OF assms(3)] obtain k where "hash_key actor_id = Inr k" ..
  ultimately show ?thesis
    using add_eq [OF assms(5)] numbered_add [OF assms(5,6)]
    by (simp add: spawn_action_def Let_def)
qed

lemma other_action_safe:
  assumes "field actor ''type'' is_str" "is_str actor_name"
    and "action_ok action" "is_number tk" "numbered seq"
  shows "\<exists>seq'. other_action rt actor actor_name action tk action_type seq = Inr seq'
           \<and> numbered seq'"
proof -
  note addn = add_numbered [OF assms(4,5)]
  from get_field [OF assms(1), of "JStr ''unknown''"] obtain ty where
    ty: "get actor ''type'' (JStr ''unknown'') = Inr ty" "is_str ty" by (auto simp: is_str_def)
  from get_target_selector_str [OF assms(2) ty(2)] obtain selector where
    sel: "get_target_selector actor_name ty = Inr selector" ..
  from assms(3) have f: "field action ''target_position'' triple" "field action ''position'' triple"
    "field action ''target'' look_target"
    by (simp_all add: action_ok_def)
  from get_field [OF f(1), of pos_default] obtain target_position where
    tp: "get action ''target_position'' pos_default = Inr target_position"
      "triple target_position"
    by (auto simp: pos_default_def triple_def)
  from xyz_triple [OF tp(2)] obtain p1 where p1: "xyz rt target_position = Inr p1" ..
  from get_field [OF f(2), of pos_default] obtain position where
    pos: "get action ''position'' pos_default = Inr position" "triple position"
    by (auto simp: pos_default_def triple_def)
  from xyz_triple [OF pos(2)] obtain p2 where p2: "xyz rt position = Inr p2" ..
  have "look_target (JStr ''0 0 0'')"
    by (simp add: look_target_def split_def isspace_def)
  from get_field [OF f(3) this] obtain target where
    tg: "get action ''target'' (JStr ''0 0 0'') = Inr target" "look_target target"
    by auto
  have look: "\<exists>seq'. (case target of
               JList _ \<Rightarrow>
                 ebind (xyz rt target) (\<lambda>p.
                   add tk (''execute as '' @ selector @ '' at @s run facing '' @ p)
                     (str rt actor_name @ '' looks at '' @ str rt target) ''minecraft'' seq)
             | _ \<Rightarrow>
                 if (case target of JStr s \<Rightarrow> coordinate_like s | _ \<Rightarrow> False) then
                   (let words = JList (map JStr (split (str rt target))) in
                    ebind (xyz rt words) (\<lambda>p.
                      add tk (''execute as '' @ selector @ '' at @s run facing '' @ p)
                        (str rt actor_name @ '' looks at '' @ str rt words) ''minecraft'' seq))
                 else
                   ebind (get_target_selector target (JStr ''unknown'')) (\<lambda>target_sel.
                     add tk
                       (''execute as '' @ selector @ '' at @s run facing entity '' @ target_sel
                          @ '' eyes'')
                       (str rt actor_name @ '' looks at '' @ str rt target) ''minecraft'' seq))
             = Inr seq' \<and> numbered seq'"
  proof (cases target)
    case (JList xs)
    with tg(2) have "triple target" by (simp add: look_target_def triple_def)
    from xyz_triple [OF this] obtain p where "xyz rt target = Inr p" ..
    then show ?thesis
      using JList addn by simp
  next
    case (JStr s)
    show ?thesis
    proof (cases "coordinate_like s")
      case True
      with tg(2) JStr have "triple (JList (map JStr (split s)))"
        by (simp add: look_target_def triple_def)
      from xyz_triple [OF this] obtain p where "xyz rt (JList (map JStr (split s))) = Inr p" ..
      then show ?thesis
        using JStr True addn by (simp add: str_def)
    next
      case False
      have "is_str target" "is_str (JStr ''unknown'')"
        using JStr by (simp_all add: is_str_def)
      from get_target_selector_str [OF this] obtain target_sel where
        "get_target_selector target (JStr ''unknown'') = Inr target_sel" ..
      then show ?thesis
        using JStr False addn by simp
    qed
  qed (use tg(2) in \<open>simp_all add: look_target_def\<close>)
  have attack: "\<exists>seq'. ebind (add tk c1 d1 ''minecraft'' seq) (\<lambda>seq1. add tk c2 d2 ''minecraft'' seq1)
                   = Inr seq' \<and> numbered seq'" for c1 d1 c2 d2
  proof -
    from addn obtain seq1 where "add tk c1 d1 ''minecraft'' seq = Inr seq1" "numbered seq1"
      by blast
    with add_numbered [OF assms(4) this(2)] show ?thesis by simp
  qed
  show ?thesis
    unfolding other_action_def
    using look
    by (simp add: ty sel tp p1 pos p2 tg addn attack assms(5) Let_def)
qed

lemma actor_action_safe:
  assumes "field actor ''type'' is_str" "is_str actor_name" "hashable actor_id"
    and "action_ok action" "numbered seq"
  shows "\<exists>seq' g'. actor_action rt actor actor_name actor_id action (seq, g) = Inr (seq', g')
           \<and> numbered seq'"
proof -
  from assms(4) have "field action ''tick'' is_number" "field action ''type'' (\<lambda>_. True)"
    by (auto simp: action_ok_def field_def split: json.splits option.splits)
  from get_field [OF this(1), of "JInt 0"] get_field [OF this(2), of "JStr ''idle''"]
  obtain tk action_type where
    tk: "get action ''tick'' (JInt 0) = Inr tk" "is_number tk"
    and ty: "get action ''type'' (JStr ''idle'') = Inr action_type"
    by (auto simp: is_number_def)
  from spawn_action_safe [OF assms(1-4) tk(2) assms(5)]
    other_action_safe [OF assms(1,2,4) tk(2) assms(5)]
  show ?thesis
    unfolding actor_action_def
    by (simp add: tk ty) (metis ebind_simps(1) fst_conv snd_conv)
qed

lemma generate_actor_commands_safe:
  assumes "actor_ok actor"
  shows "\<exists>seq g. generate_actor_commands rt self actor = Inr (seq, g) \<and> numbered seq"
proof -
  from assms have f: "field actor ''id'' hashable" "field actor ''name'' is_str"
    "field actor ''type'' is_str" "field actor ''actions'' (list_of action_ok)"
    by (simp_all add: actor_ok_def)
  from get_field [OF f(1), of "JStr ''unknown''"] get_field [OF f(1), of "JStr ''actor_001''"]
  obtain id0 actor_id where
    id: "get actor ''id'' (JStr ''unknown'') = Inr id0"
      "get actor ''id'' (JStr ''actor_001'') = Inr actor_id" "hashable actor_id"
    by (auto simp: hashable_def)
  from get_field [OF f(2), of "JStr ''actor''"] obtain actor_name where
    nm: "get actor ''name'' (JStr ''actor'') = Inr actor_name" "is_str actor_name"
    by (auto simp: is_str_def)
  from get_field [OF f(4), of "JList []"] obtain actions where
    "get actor ''actions'' (JList []) = Inr actions" "list_of action_ok actions"
    by (auto simp: list_of_def)
  then obtain acts where
    acts: "get actor ''actions'' (JList []) = Inr actions" "iter actions = Inr acts"
      "list_all action_ok acts"
    by (cases actions) (auto simp: list_of_def iter_def)
  have loop: "\<exists>seq' g'.
      gfold (\<lambda>action seq g.
               attempt g (actor_action rt actor actor_name actor_id action (seq, g)) Inr)
        as seq g = Inr (seq', g') \<and> numbered seq'"
    if "list_all action_ok as" "numbered seq" for as seq g
    using that
  proof (induction as arbitrary: seq g)
    case Nil
    then show ?case by simp
  next
    case (Cons a as)
    from Cons.prems have "action_ok a" "list_all action_ok as" by simp_all
    from actor_action_safe [OF f(3) nm(2) id(3) this(1) Cons.prems(2)]
    obtain seq1 g1 where
      "actor_action rt actor actor_name actor_id a (seq, g) = Inr (seq1, g1)" "numbered seq1"
      by blast
    with Cons.IH [OF \<open>list_all action_ok as\<close> this(2)] show ?case by simp
  qed
  have "numbered \<lparr>name = JStr (''actor_'' @ str rt id0), commands = [], duration_ticks = JInt 0\<rparr>"
    by (simp add: numbered_def is_number_def)
  from loop [OF acts(3) this] show ?thesis
    by (simp add: generate_actor_commands_def id nm acts)
qed


lemma safe_add:
  assumes "is_number tk" "numbered seq"
  shows "safe (add tk cmd desc ty seq) numbered"
  using add_numbered [OF assms, of cmd desc ty] by auto

lemma safe_float:
  assumes "floatable rt v"
  shows "safe (float rt v) (\<lambda>_. True)"
  using assms
  by (cases v) (auto simp: floatable_def float_def float_of_int_def is_number_def Let_def
      split: option.splits)

lemma safe_get_float:
  assumes "field movement key (floatable rt)"
  shows "safe (get_float rt movement key dflt) (\<lambda>_. True)"
proof -
  have "floatable rt (JInt dflt)"
    by (simp add: floatable_def is_number_def)
  from get_field [OF assms this] obtain v where "get movement key (JInt dflt) = Inr v"
    "floatable rt v" by blast
  with safe_float [OF this(2)] show ?thesis
    by (simp add: get_float_def)
qed

lemma safe_parse_coord: "safe (parse_coord rt x) (\<lambda>_. True)"
  by (cases x)
    (auto simp: parse_coord_def float_def float_of_int_def Let_def split: option.splits)

lemma emap_length:
  assumes "emap f xs = Inr ys"
  shows "length ys = length xs"
  using assms by (induction xs arbitrary: ys) (auto elim!: ebind_InrE)

lemma safe_parse_pos:
  assumes "triple v"
  shows "safe (parse_pos rt v) (\<lambda>p. 3 \<le> length p)"
proof -
  from assms obtain xs where v: "v = JList xs" "3 \<le> length xs"
    by (cases v) (simp_all add: triple_def)
  have "safe (emap (parse_coord rt) xs) (list_all (\<lambda>_. True))"
    by (rule safe_emap) (rule safe_parse_coord)
  then show ?thesis
    using v emap_length [of "parse_coord rt" xs]
    by (cases "emap (parse_coord rt) xs") (simp_all add: parse_pos_def iter_def)
qed

lemma safe_py_add:
  assumes "is_number a" "is_number b"
  shows "safe (py_add a b) is_number"
  using assms
  by (cases a; cases b)
    (auto simp: py_add_def arith_def is_number_def is_int_def as_float_def float_of_int_def
      Let_def)

lemma frame_count_int:
  assumes "is_int a" "is_int b"
  shows "frame_count a b = Inr (JInt (min 20 ((int_val b - int_val a) div 5)))"
  using assms
  by (simp add: frame_count_def py_sub_def arith_def is_number_def floordiv_int_def min_int_def
      is_int_def int_val_def num_val_def split: json.splits)

lemma range_incl_int: "range_incl (JInt n) = Inr [0 ..< nat (n + 1)]"
  by (simp add: range_incl_def py_add_def arith_def is_number_def is_int_def int_val_def)

lemma safe_frame_tick:
  assumes "is_int a" "is_int b"
  shows "safe (frame_tick a b t) is_number"
  using assms
  by (auto simp: frame_tick_def py_sub_def py_add_def arith_def is_number_def is_int_def
      int_val_def as_float_def float_of_int_def Let_def split: json.splits)

lemma coord_triple:
  assumes "3 \<le> length p"
  shows "coord p 0 = Inr (p ! 0)" "coord p (Suc 0) = Inr (p ! Suc 0)" "coord p 2 = Inr (p ! 2)"
  using assms by (auto simp: coord_def)

lemma safe_orbit_frame:
  assumes "int_val num_frames \<noteq> 0" "is_int tick_start" "is_int tick_end" "3 \<le> length center"
    and "numbered seq"
  shows "safe (orbit_frame rt tick_start tick_end num_frames center radius start_angle end_angle
                 height i seq) numbered"
  unfolding orbit_frame_def Let_def
  using assms(1)
  by (simp add: fraction_def coord_triple [OF assms(4)])
    (rule safe_ebind [OF safe_frame_tick [OF assms(2,3)]], rule safe_add, assumption,
      rule assms(5))

lemma safe_dolly_frame:
  assumes "int_val num_frames \<noteq> 0" "is_int tick_start" "is_int tick_end"
    and "3 \<le> length start_pos" "3 \<le> length end_pos" "hashable look_at" "numbered seq"
  shows "safe (dolly_frame rt self tick_start tick_end num_frames start_pos end_pos look_at i seq)
           numbered"
proof -
  from hash_key_hashable [OF assms(6)] obtain k where k: "hash_key look_at = Inr k" ..
  show ?thesis
    unfolding dolly_frame_def Let_def
    using assms(1)
    by (simp add: fraction_def coord_triple [OF assms(4)] coord_triple [OF assms(5)] k)
      (rule safe_ebind [OF safe_frame_tick [OF assms(2,3)]],
        auto simp: k intro!: safe_add assms(7) split: option.splits)
qed


lemma steps_nonzero:
  assumes "\<not> (0 \<le> d \<and> d < 5)"
  shows "min 20 (d div 5) \<noteq> (0::int)"
  using assms by (auto simp: min_def) 

lemma safe_camera_movement:
  assumes "movement_ok rt movement" "numbered seq"
  shows "safe (camera_movement rt self movement seq) numbered"
proof -
  from assms(1) have f: "field movement ''tick_start'' is_number"
    "field movement ''tick_end'' is_number" "field movement ''position'' triple"
    "field movement ''center'' triple" "field movement ''start_position'' triple"
    "field movement ''end_position'' triple" "field movement ''radius'' (floatable rt)"
    "field movement ''start_angle'' (floatable rt)" "field movement ''end_angle'' (floatable rt)"
    "field movement ''height'' (floatable rt)" "field movement ''look_at'' hashable"
    and steps: "steps_ok movement"
    by (simp_all add: movement_ok_def)
  from f(1) have any: "field movement key (\<lambda>_. True)" for key
    by (auto simp: field_def split: json.splits option.splits)
  from get_field [OF f(1), of "JInt 0"] obtain tick_start where
    ts: "get movement ''tick_start'' (JInt 0) = Inr tick_start" "is_number tick_start"
    by (auto simp: is_number_def)
  from get_field [OF f(2), of "JInt 100"] obtain tick_end where
    te: "get movement ''tick_end'' (JInt 100) = Inr tick_end" "is_number tick_end"
    by (auto simp: is_number_def)
  from get_field [OF any [of "''type''"], of "JStr ''static''"] obtain move_type where
    mt: "get movement ''type'' (JStr ''static'') = Inr move_type"
    by auto
  from steps have ints: "is_int tick_start" "is_int tick_end"
    "min 20 ((int_val tick_end - int_val tick_start) div 5) \<noteq> 0"
    if "move_type = JStr ''orbit'' \<or> move_type = JStr ''dolly''"
    using that steps_nonzero [of "int_val tick_end - int_val tick_start"]
    by (simp_all add: steps_ok_def ts te mt)
  have static: "safe (ebind (get movement ''position'' (JList [JInt 0, JInt 70, JInt 0])) (\<lambda>pos.
         ebind (xyz rt pos) (\<lambda>p.
           add tick_start (''tp @p '' @ p) ''Static camera position'' ''camera'' seq))) numbered"
  proof -
    from get_field [OF f(3), of "JList [JInt 0, JInt 70, JInt 0]"] obtain pos where
      "get movement ''position'' (JList [JInt 0, JInt 70, JInt 0]) = Inr pos" "triple pos"
      by (auto simp: triple_def)
    moreover from xyz_triple [OF this(2)] obtain p where "xyz rt pos = Inr p" ..
    ultimately show ?thesis
      using safe_add [OF ts(2) assms(2)] by simp
  qed
  have orbit: "safe (ebind (get movement ''center'' pos_default) (\<lambda>c.
         ebind (parse_pos rt c) (\<lambda>center.
         ebind (get_float rt movement ''radius'' 10) (\<lambda>radius.
         ebind (get_float rt movement ''start_angle'' 0) (\<lambda>start_angle.
         ebind (get_float rt movement ''end_angle'' 360) (\<lambda>end_angle.
         ebind (get_float rt movement ''height'' 5) (\<lambda>height.
         ebind (frame_count tick_start tick_end) (\<lambda>num_frames.
         ebind (range_incl num_frames) (\<lambda>frames.
           efold (orbit_frame rt tick_start tick_end num_frames center radius start_angle
                    end_angle height) frames seq))))))))) numbered"
    if "move_type = JStr ''orbit''"
  proof -
    from that have i: "is_int tick_start" "is_int tick_end"
      "min 20 ((int_val tick_end - int_val tick_start) div 5) \<noteq> 0"
      using ints by simp_all
    from get_field [OF f(4), of pos_default] obtain c where
      c: "get movement ''center'' pos_default = Inr c" "triple c"
      by (auto simp: triple_def pos_default_def)
    have loop: "safe (efold (orbit_frame rt tick_start tick_end
                  (JInt (min 20 ((int_val tick_end - int_val tick_start) div 5)))
                  center radius start_angle end_angle height) frames seq) numbered"
      if "3 \<le> length center" for center radius start_angle end_angle height frames
      by (rule safe_efold [where I = numbered, OF assms(2)], rule safe_orbit_frame)
        (use i that in \<open>simp_all add: int_val_def\<close>)
    show ?thesis
      unfolding c ebind_simps frame_count_int [OF i(1,2)] range_incl_int
      by (rule safe_ebind [OF safe_parse_pos [OF c(2)]], rule safe_ebind [OF safe_get_float [OF f(7)]],
          rule safe_ebind [OF safe_get_float [OF f(8)]], rule safe_ebind [OF safe_get_float [OF f(9)]],
          rule safe_ebind [OF safe_get_float [OF f(10)]], rule loop)
  qed
  have dolly: "safe (ebind (get movement ''start_position'' (JList [JInt 0, JInt 70, JInt 0])) (\<lambda>s.
         ebind (parse_pos rt s) (\<lambda>start_pos.
         ebind (get movement ''end_position'' (JList [JInt 10, JInt 70, JInt 0])) (\<lambda>e.
         ebind (parse_pos rt e) (\<lambda>end_pos.
         ebind (get movement ''look_at'' JNull) (\<lambda>look_at.
         ebind (frame_count tick_start tick_end) (\<lambda>num_frames.
         ebind (range_incl num_frames) (\<lambda>frames.
           efold (dolly_frame rt self tick_start tick_end num_frames start_pos end_pos look_at)
             frames seq)))))))) numbered"
    if "move_type = JStr ''dolly''"
  proof -
    from that have i: "is_int tick_start" "is_int tick_end"
      "min 20 ((int_val tick_end - int_val tick_start) div 5) \<noteq> 0"
      using ints by simp_all
    from get_field [OF f(5), of "JList [JInt 0, JInt 70, JInt 0]"] obtain s where
      s: "get movement ''start_position'' (JList [JInt 0, JInt 70, JInt 0]) = Inr s" "triple s"
      by (auto simp: triple_def)
    from get_field [OF f(6), of "JList [JInt 10, JInt 70, JInt 0]"] obtain e where
      e: "get movement ''end_position'' (JList [JInt 10, JInt 70, JInt 0]) = Inr e" "triple e"
      by (auto simp: triple_def)
    from get_field [OF f(11), of JNull] obtain look_at where
      l: "get movement ''look_at'' JNull = Inr look_at" "hashable look_at"
      by (auto simp: hashable_def)
    have loop: "safe (efold (dolly_frame rt self tick_start tick_end
                  (JInt (min 20 ((int_val tick_end - int_val tick_start) div 5)))
                  start_pos end_pos look_at) frames seq) numbered"
      if "3 \<le> length start_pos" "3 \<le> length end_pos" for start_pos end_pos frames
      by (rule safe_efold [where I = numbered, OF assms(2)], rule safe_dolly_frame)
        (use i that l(2) in \<open>simp_all add: int_val_def\<close>)
    show ?thesis
      unfolding s e l ebind_simps frame_count_int [OF i(1,2)] range_incl_int
      by (rule safe_ebind [OF safe_parse_pos [OF s(2)]],
          rule safe_ebind [OF safe_parse_pos [OF e(2)]], rule loop)
  qed
  have follow: "safe (ebind (get movement ''target'' JNull) (\<lambda>target.
         ebind (get movement ''distance'' (JInt 5)) (\<lambda>distance.
         ebind (get movement ''height'' (JInt 2)) (\<lambda>height.
           add tick_start
             (''# Camera follows '' @ str rt target @ '' at distance '' @ str rt distance)
             ''Follow camera setup'' ''camera'' seq)))) numbered"
  proof -
    from get_field [OF any [of "''target''"], of JNull]
      get_field [OF any [of "''distance''"], of "JInt 5"]
      get_field [OF any [of "''height''"], of "JInt 2"]
    obtain target distance height where "get movement ''target'' JNull = Inr target"
      "get movement ''distance'' (JInt 5) = Inr distance"
      "get movement ''height'' (JInt 2) = Inr height"
      by auto
    then show ?thesis
      using safe_add [OF ts(2) assms(2)] by simp
  qed
  show ?thesis
    unfolding camera_movement_def ts te mt ebind_simps
    using static orbit dolly follow assms(2) by simp
qed

lemma safe_fov_keyframe:
  assumes "keyframe_ok fov_kf" "numbered seq"
  shows "safe (fov_keyframe rt fov_kf seq) numbered"
proof -
  from assms(1) have f: "field fov_kf ''tick'' is_number"
    by (simp add: keyframe_ok_def)
  then have any: "field fov_kf ''fov'' (\<lambda>_. True)"
    by (auto simp: field_def split: json.splits option.splits)
  from get_field [OF f, of "JInt 0"] get_field [OF any, of "JInt 70"] obtain tk fov where
    "get fov_kf ''tick'' (JInt 0) = Inr tk" "is_number tk" "get fov_kf ''fov'' (JInt 70) = Inr fov"
    by (auto simp: is_number_def)
  then show ?thesis
    using safe_add [OF _ assms(2)] by (simp add: fov_keyframe_def)
qed

lemma safe_generate_camera_commands:
  assumes "camera_ok rt camera"
  shows "safe (generate_camera_commands rt self camera) numbered"
proof -
  from assms have f: "field camera ''movements'' (list_of (movement_ok rt))"
    "field camera ''fov_keyframes'' (list_of keyframe_ok)"
    by (simp_all add: camera_ok_def)
  from get_field [OF f(1), of "JList []"] obtain ms where
    "get camera ''movements'' (JList []) = Inr ms" "list_of (movement_ok rt) ms"
    by (auto simp: list_of_def)
  then obtain movements where
    ms: "get camera ''movements'' (JList []) = Inr ms" "iter ms = Inr movements"
      "list_all (movement_ok rt) movements"
    by (cases ms) (auto simp: list_of_def iter_def)
  from get_field [OF f(2), of "JList []"] obtain fs where
    "get camera ''fov_keyframes'' (JList []) = Inr fs" "list_of keyframe_ok fs"
    by (auto simp: list_of_def)
  then obtain fov_keyframes where
    fs: "get camera ''fov_keyframes'' (JList []) = Inr fs" "iter fs = Inr fov_keyframes"
      "list_all keyframe_ok fov_keyframes"
    by (cases fs) (auto simp: list_of_def iter_def)
  have start: "numbered \<lparr>name = JStr ''camera'', commands = [], duration_ticks = JInt 0\<rparr>"
    by (simp add: numbered_def is_number_def)
  have first: "safe (efold (camera_movement rt self) movements
              \<lparr>name = JStr ''camera'', commands = [], duration_ticks = JInt 0\<rparr>) numbered"
    by (rule safe_efold [where I = numbered, OF start], rule safe_camera_movement)
      (use ms(3) in \<open>simp_all add: list_all_iff\<close>)
  show ?thesis
    unfolding generate_camera_commands_def ms fs ebind_simps
    by (rule safe_ebind [OF first], rule safe_efold [where I = numbered], assumption,
        rule safe_fov_keyframe)
      (use fs(3) in \<open>simp_all add: list_all_iff\<close>)
qed


lemma generate_effect_command_safe:
  assumes "effect_ok effect"
  shows "\<exists>c. generate_effect_command rt effect = Inr c \<and> is_number (tick c)"
proof -
  from assms have f: "field effect ''tick'' is_number" "field effect ''particle_type'' hashable"
    "field effect ''position'' triple"
    by (simp_all add: effect_ok_def)
  from f(1) have any: "field effect key (\<lambda>_. True)" for key
    by (auto simp: field_def split: json.splits option.splits)
  from get_field [OF f(1), of "JInt 0"] obtain tk where
    tk: "get effect ''tick'' (JInt 0) = Inr tk" "is_number tk"
    by (auto simp: is_number_def)
  from get_field [OF any [of "''type''"], of "JStr ''particles''"]
    get_field [OF any [of "''count''"], of "JInt 10"]
  obtain effect_type count where
    ty: "get effect ''type'' (JStr ''particles'') = Inr effect_type"
      "get effect ''count'' (JInt 10) = Inr count"
    by auto
  from get_field [OF f(2), of "JStr ''cloud''"] obtain particle where
    pa: "get effect ''particle_type'' (JStr ''cloud'') = Inr particle" "hashable particle"
    by (auto simp: hashable_def)
  from lookup_hashable [OF pa(2)] obtain mc_particle where
    mc: "lookup particle_map particle particle = Inr mc_particle" ..
  from get_field [OF f(3), of pos_default] obtain pos where
    pos: "get effect ''position'' pos_default = Inr pos" "triple pos"
    by (auto simp: triple_def pos_default_def)
  from xyz_triple [OF pos(2)] obtain p where p: "xyz rt pos = Inr p" ..
  show ?thesis
    by (simp add: generate_effect_command_def tk ty pa mc pos p)
qed

lemma safe_generate_effect_command:
  assumes "effect_ok effect"
  shows "safe (generate_effect_command rt effect) (\<lambda>c. is_number (tick c))"
  using generate_effect_command_safe [OF assms, of rt] by auto

lemma setting_commands:
  assumes "field scene ''setting'' setting_ok"
  shows "\<exists>c. time_command rt scene = Inr c" "\<exists>c. weather_command rt scene = Inr c"
proof -
  have "setting_ok (JDict [])"
    by (simp add: setting_ok_def field_def)
  from get_field [OF assms this] obtain setting where
    st: "get scene ''setting'' (JDict []) = Inr setting" "setting_ok setting"
    by blast
  then have f: "field setting ''time_of_day'' hashable" "field setting ''weather'' hashable"
    by (simp_all add: setting_ok_def)
  from get_field [OF f(1), of "JStr ''day''"] obtain time_of_day where
    t: "get setting ''time_of_day'' (JStr ''day'') = Inr time_of_day" "hashable time_of_day"
    by (auto simp: hashable_def)
  from get_field [OF f(2), of "JStr ''clear''"] obtain weather where
    w: "get setting ''weather'' (JStr ''clear'') = Inr weather" "hashable weather"
    by (auto simp: hashable_def)
  from lookup_hashable [OF t(2)] obtain c1 where
    "lookup time_map time_of_day (JStr ''time set day'') = Inr c1" ..
  then show "\<exists>c. time_command rt scene = Inr c"
    by (simp add: time_command_def st t)
  from lookup_hashable [OF w(2)] obtain c2 where
    "lookup weather_map weather (JStr ''weather clear'') = Inr c2" ..
  then show "\<exists>c. weather_command rt scene = Inr c"
    by (simp add: weather_command_def st w)
qed

lemma safe_world_modification:
  assumes "is_str (snd im)" "numbered seq"
  shows "safe (world_modification rt im seq) numbered"
proof -
  from assms(1) obtain s where s: "snd im = JStr s"
    by (cases "snd im") (simp_all add: is_str_def)
  have "is_number (JInt (int (fst im) * 5))"
    by (simp add: is_number_def)
  from safe_add [OF this assms(2)] show ?thesis
    unfolding world_modification_def
    by (simp add: str_lower_def s)
qed

lemma gsafeI: "m = Inr (x, g) \<Longrightarrow> P x \<Longrightarrow> gsafe m P"
  by simp

lemma gsafe_scene_actor:
  assumes "actor_ok actor" "numbered seq"
  shows "gsafe (scene_actor rt actor seq self) numbered"
proof -
  from generate_actor_commands_safe [OF assms(1)] obtain actor_cmds g where
    "generate_actor_commands rt self actor = Inr (actor_cmds, g)" "numbered actor_cmds"
    by blast
  then show ?thesis
    using assms(2) by (simp add: scene_actor_def numbered_def)
qed

lemma gsafe_generate_scene_commands:
  assumes "scene_ok rt scene"
  shows "gsafe (generate_scene_commands rt self scene) numbered"
proof -
  from assms have f: "field scene ''setting'' setting_ok" "field scene ''actors'' (list_of actor_ok)"
    "field scene ''camera'' (camera_ok rt)" "field scene ''effects'' (list_of effect_ok)"
    "field scene ''duration_seconds'' is_number"
    by (simp_all add: scene_ok_def)
  from f(1) have any: "field scene key (\<lambda>_. True)" for key
    by (auto simp: field_def split: json.splits option.splits)
  from get_field [OF any [of "''name''"], of "JStr ''unnamed_scene''"] obtain nm where
    nm: "get scene ''name'' (JStr ''unnamed_scene'') = Inr nm" by auto
  from setting_commands [OF f(1)] obtain time_cmd weather_cmd where
    tw: "time_command rt scene = Inr time_cmd" "weather_command rt scene = Inr weather_cmd"
    by blast
  have zero: "is_number (JInt 0)" by (simp add: is_number_def)
  have "numbered \<lparr>name = nm, commands = [], duration_ticks = JInt 0\<rparr>"
    by (simp add: numbered_def is_number_def)
  from add_numbered [OF zero this] obtain seq1 where
    s1: "add (JInt 0) time_cmd ''Set time of day'' ''minecraft''
           \<lparr>name = nm, commands = [], duration_ticks = JInt 0\<rparr> = Inr seq1" "numbered seq1"
    by blast
  from add_numbered [OF zero s1(2)] obtain seq2 where
    s2: "add (JInt 0) weather_cmd ''Set weather'' ''minecraft'' seq1 = Inr seq2" "numbered seq2"
    by blast
  have "setting_ok (JDict [])"
    by (simp add: setting_ok_def field_def)
  from get_field [OF f(1) this] obtain setting where
    st: "get scene ''setting'' (JDict []) = Inr setting" "setting_ok setting"
    by blast
  then have "field setting ''world_modifications'' (list_of is_str)"
    by (simp add: setting_ok_def)
  from get_field [OF this, of "JList []"] obtain ms where
    "get setting ''world_modifications'' (JList []) = Inr ms" "list_of is_str ms"
    by (auto simp: list_of_def)
  then obtain mods where
    ms: "get setting ''world_modifications'' (JList []) = Inr ms" "iter ms = Inr mods"
      "list_all is_str mods"
    by (cases ms) (auto simp: list_of_def iter_def)
  have mods: "safe (efold (world_modification rt) (enumerate 0 mods) seq2) numbered"
    by (rule safe_efold [where I = numbered, OF s2(2)], rule safe_world_modification)
      (use ms(3) in \<open>auto simp: list_all_iff in_set_enumerate_eq\<close>)
  from get_field [OF f(2), of "JList []"] obtain as where
    "get scene ''actors'' (JList []) = Inr as" "list_of actor_ok as"
    by (auto simp: list_of_def)
  then obtain actors where
    as: "get scene ''actors'' (JList []) = Inr as" "iter as = Inr actors"
      "list_all actor_ok actors"
    by (cases as) (auto simp: list_of_def iter_def)
  have "camera_ok rt (JDict [])"
    by (simp add: camera_ok_def field_def)
  from get_field [OF f(3) this] obtain camera where
    cam: "get scene ''camera'' (JDict []) = Inr camera" "camera_ok rt camera"
    by blast
  from get_field [OF f(4), of "JList []"] obtain es where
    "get scene ''effects'' (JList []) = Inr es" "list_of effect_ok es"
    by (auto simp: list_of_def)
  then obtain effects where
    es: "get scene ''effects'' (JList []) = Inr es" "iter es = Inr effects"
      "list_all effect_ok effects"
    by (cases es) (auto simp: list_of_def iter_def)
  have effects: "safe (emap (generate_effect_command rt) effects)
                   (list_all (\<lambda>c. is_number (tick c)))"
    by (rule safe_emap, rule safe_generate_effect_command)
      (use es(3) in \<open>simp add: list_all_iff\<close>)
  from get_field [OF f(5), of "JInt 30"] obtain duration_seconds where
    ds: "get scene ''duration_seconds'' (JInt 30) = Inr duration_seconds"
      "is_number duration_seconds"
    by (auto simp: is_number_def)
  then obtain d where d: "mul_int duration_seconds 20 = Inr d" "is_number d"
    by (cases duration_seconds) (auto simp: mul_int_def is_number_def is_int_def)
  show ?thesis
    unfolding generate_scene_commands_def nm tw s1 s2 st ms as attempt_simps
  proof (rule gsafe_attempt [OF mods], rule gsafe_gbind [where P = numbered])
    fix seq3 assume "numbered seq3"
    then show "gsafe (gfold (scene_actor rt) actors seq3 self) numbered"
      by (rule gsafe_gfold) (use as(3) in \<open>auto simp: list_all_iff intro: gsafe_scene_actor\<close>)
  next
    fix seq3 seq4 g assume "numbered seq4"
    then show "gsafe
        (attempt g (get scene ''camera'' (JDict [])) (\<lambda>camera.
         attempt g (generate_camera_commands rt g camera) (\<lambda>camera_cmds.
         attempt g (get scene ''effects'' (JList [])) (\<lambda>es.
         attempt g (iter es) (\<lambda>effects.
         attempt g (emap (generate_effect_command rt) effects) (\<lambda>effect_cmds.
         attempt g (get scene ''duration_seconds'' (JInt 30)) (\<lambda>duration_seconds.
         attempt g (mul_int duration_seconds 20) (\<lambda>d.
           Inr (seq4\<lparr>commands := commands seq4 @ commands camera_cmds @ effect_cmds,
                     duration_ticks := d\<rparr>,
                g))))))))) numbered"
      unfolding cam es ds d attempt_simps
      by (intro gsafe_attempt [OF safe_generate_camera_commands [OF cam(2)]]
            gsafe_attempt [OF effects])
        (simp add: numbered_def d)
  qed
qed

lemma safe_offset_commands:
  assumes "list_all (\<lambda>c. is_number (tick c)) cmds" "is_number off"
  shows "safe (emap (offset_command off) cmds) (\<lambda>_. True)"
proof -
  have "safe (emap (offset_command off) cmds) (list_all (\<lambda>_. True))"
  proof (rule safe_emap)
    fix c assume "c \<in> set cmds"
    with assms(1) have "is_number (tick c)" by (simp add: list_all_iff)
    from safe_py_add [OF this assms(2)] show "safe (offset_command off c) (\<lambda>_. True)"
      by (cases "py_add (tick c) off") (simp_all add: offset_command_def)
  qed
  then show ?thesis by (rule safe_mono) simp
qed

lemma gsafe_script_scene:
  assumes "scene_ok rt scene" "is_number (snd st)"
  shows "gsafe (script_scene rt scene st self) (\<lambda>st'. is_number (snd st'))"
proof -
  obtain entries off where st: "st = (entries, off)" by (cases st)
  with assms(2) have off: "is_number off" by simp
  show ?thesis
    unfolding script_scene_def st prod.case
  proof (rule gsafe_gbind [OF gsafe_generate_scene_commands [OF assms(1)]])
    fix scene_seq g assume "numbered scene_seq"
    then have n: "list_all (\<lambda>c. is_number (tick c)) (commands scene_seq)"
      "is_number (duration_ticks scene_seq)"
      by (simp_all add: numbered_def)
    show "gsafe
        (attempt g (emap (offset_command off) (commands scene_seq)) (\<lambda>cmds.
         attempt g (py_add off (duration_ticks scene_seq)) (\<lambda>next_offset.
           Inr ((entries
                   @ [\<lparr>entry_scene_name = name scene_seq, start_tick = off,
                       entry_duration_ticks = duration_ticks scene_seq,
                       entry_commands = to_list cmds\<rparr>],
                 next_offset), g)))) (\<lambda>st'. is_number (snd st'))"
      by (rule gsafe_attempt [OF safe_offset_commands [OF n(1) off]],
          rule gsafe_attempt [OF safe_py_add [OF off n(2)]]) simp
  qed
qed

lemma safe_truediv_int:
  assumes "is_number a"
  shows "safe (truediv_int a n) (\<lambda>_. True)"
  using assms by (cases a) (simp_all add: truediv_int_def is_number_def Let_def)

lemma gsafe_generate_full_script:
  assumes "storyboard_ok rt storyboard"
  shows "gsafe (generate_full_script rt self storyboard) (\<lambda>_. True)"
proof -
  from assms have f: "field storyboard ''scenes'' (list_of (scene_ok rt))"
    by (simp add: storyboard_ok_def)
  then have any: "field storyboard key (\<lambda>_. True)" for key
    by (auto simp: field_def split: json.splits option.splits)
  from get_field [OF any [of "''title''"], of "JStr ''Untitled''"] obtain ttl where
    ttl: "get storyboard ''title'' (JStr ''Untitled'') = Inr ttl" by auto
  from get_field [OF f, of "JList []"] obtain ss where
    "get storyboard ''scenes'' (JList []) = Inr ss" "list_of (scene_ok rt) ss"
    by (auto simp: list_of_def)
  then obtain scs where
    ss: "get storyboard ''scenes'' (JList []) = Inr ss" "iter ss = Inr scs"
      "list_all (scene_ok rt) scs"
    by (cases ss) (auto simp: list_of_def iter_def)
  have zero: "is_number (snd (([] :: scene_entry list), JInt 0))"
    by (simp add: is_number_def)
  have loop: "gsafe (gfold (script_scene rt) scs ([], JInt 0) self) (\<lambda>st'. is_number (snd st'))"
    by (rule gsafe_gfold [where I = "\<lambda>st'. is_number (snd st')", OF zero],
        rule gsafe_script_scene)
      (use ss(3) in \<open>simp_all add: list_all_iff\<close>)
  show ?thesis
    unfolding generate_full_script_def ttl ss attempt_simps
    by (rule gsafe_gbind [OF loop])
      (auto intro!: gsafe_attempt [OF safe_truediv_int])
qed

section \<open>Claims about malformed input\<close>


text \<open>Examples: defaults of an action and of a movement, and the compilation of a storyboard of
  the expected shape with missing fields and coordinates that are no numbers.\<close>

lemma more_formats:
  "sample_format_1f 5 = ''5.0''"
  by (simp_all add: sample_format_1f_def round_half_even_def Let_def digits.simps digit_chars)

lemma idle_action:
  "generate_actor_commands rt self (JDict [(''actions'', JList [JDict []])])
     = Inr (\<lparr>name = JStr ''actor_unknown'', commands = [], duration_ticks = JInt 0\<rparr>, self)"
proof -
  have l: "lower ''actor'' = ''actor''" "lower ''unknown'' = ''unknown''"
    by code_simp+
  show ?thesis
    by (simp add: generate_actor_commands_def actor_action_def other_action_def
        get_target_selector_def clean_def str_lower_def replace_def l contains_def
        sublist_Cons_right py_eval)
qed

lemma static_default:
  "generate_camera_commands rt self (JDict [(''movements'', JList [JDict []])])
     = Inr \<lparr>name = JStr ''camera'',
             commands = [\<lparr>tick = JInt 0, command = ''tp @p 0 70 0'',
                          description = ''Static camera position'', command_type = ''camera''\<rparr>],
             duration_ticks = JInt 0\<rparr>"
  by (simp add: generate_camera_commands_def camera_movement_def digits.simps digit_chars py_eval)

lemma expected_shape:
  "storyboard_ok sample_rt
     (JDict [(''scenes'', JList [JDict
        [(''actors'', JList [JDict [(''name'', JStr ''Bob''), (''type'', JStr ''villager''),
            (''actions'', JList [JDict [(''type'', JStr ''spawn'')],
                                 JDict [(''type'', JStr ''teleport'')]])]]),
         (''camera'', JDict [(''movements'', JList [JDict [(''type'', JStr ''orbit''),
            (''tick_end'', JInt 5), (''end_angle'', JInt 0),
            (''center'', JList [JStr ''abc'', JNull, JStr ''~5''])]])])]])])"
  by (simp add: storyboard_ok_def scene_ok_def actor_ok_def action_ok_def camera_ok_def
      movement_ok_def steps_ok_def field_def list_of_def is_str_def triple_def floatable_def
      hashable_def get_def is_number_def is_int_def int_val_def)

lemma expected_shape_compiles:
  "generate_full_script sample_rt (init (0, 64, 0))
     (JDict [(''scenes'', JList [JDict
        [(''actors'', JList [JDict [(''name'', JStr ''Bob''), (''type'', JStr ''villager''),
            (''actions'', JList [JDict [(''type'', JStr ''spawn'')],
                                 JDict [(''type'', JStr ''teleport'')]])]]),
         (''camera'', JDict [(''movements'', JList [JDict [(''type'', JStr ''orbit''),
            (''tick_end'', JInt 5), (''end_angle'', JInt 0),
            (''center'', JList [JStr ''abc'', JNull, JStr ''~5''])]])])]])])
   = Inr (\<lparr>title = JStr ''Untitled'', total_duration_ticks = JInt 600,
           total_duration_seconds = 30,
           scenes = [\<lparr>entry_scene_name = JStr ''unnamed_scene'', start_tick = JInt 0,
             entry_duration_ticks = JInt 600,
             entry_commands =
               [\<lparr>tick = JInt 0, command = ''time set day'', description = ''Set time of day'',
                  command_type = ''minecraft''\<rparr>,
                \<lparr>tick = JInt 0, command = ''weather clear'', description = ''Set weather'',
                  command_type = ''minecraft''\<rparr>,
                \<lparr>tick = JInt 0,
                  command = ''execute at @p run summon minecraft:villager ~ ~ ~ {CustomName:''
                    @ sq @ ''{'' @ dq @ ''text'' @ dq @ '':'' @ dq @ ''Bob'' @ dq @ ''}'' @ sq
                    @ ''}'',
                  description = ''Spawn Bob'', command_type = ''minecraft''\<rparr>,
                \<lparr>tick = JInt 0,
                  command = ''tp @e[name='' @ dq @ ''Bob'' @ dq @ '',sort=nearest,limit=1] 0 64 0'',
                  description = ''Teleport Bob'', command_type = ''minecraft''\<rparr>,
                \<lparr>tick = JInt 0, command = ''tp @p 10.0 5.0 5.0 facing 0.0 0.0 5.0'',
                  description = ''Orbit frame 0'', command_type = ''camera''\<rparr>,
                \<lparr>tick = JInt 5, command = ''tp @p 10.0 5.0 5.0 facing 0.0 0.0 5.0'',
                  description = ''Orbit frame 1'', command_type = ''camera''\<rparr>]\<rparr>]\<rparr>,
          \<lparr>base_x = 0, base_y = 64, base_z = 0,
           actor_registry = [KStr ''actor_001'' \<mapsto>
             \<lparr>entry_name = JStr ''Bob'', entry_position = JList [JInt 0, JInt 64, JInt 0],
              entry_type = ''minecraft:villager''\<rparr>]\<rparr>)"
proof -
  have l: "lower ''Bob'' = ''bob''" "lower ''villager'' = ''villager''"
    by code_simp+
  have actor: "generate_actor_commands sample_rt (init (0, 64, 0))
      (JDict [(''name'', JStr ''Bob''), (''type'', JStr ''villager''),
            (''actions'', JList [JDict [(''type'', JStr ''spawn'')],
                                 JDict [(''type'', JStr ''teleport'')]])])
    = Inr (\<lparr>name = JStr ''actor_unknown'', commands =
        [\<lparr>tick = JInt 0,
                  command = ''execute at @p run summon minecraft:villager ~ ~ ~ {CustomName:''
                    @ sq @ ''{'' @ dq @ ''text'' @ dq @ '':'' @ dq @ ''Bob'' @ dq @ ''}'' @ sq
                    @ ''}'',
                  description = ''Spawn Bob'', command_type = ''minecraft''\<rparr>,
                \<lparr>tick = JInt 0,
                  command = ''tp @e[name='' @ dq @ ''Bob'' @ dq @ '',sort=nearest,limit=1] 0 64 0'',
                  description = ''Teleport Bob'', command_type = ''minecraft''\<rparr>],
        duration_ticks = JInt 0\<rparr>,
       \<lparr>base_x = 0, base_y = 64, base_z = 0,
           actor_registry = [KStr ''actor_001'' \<mapsto>
             \<lparr>entry_name = JStr ''Bob'', entry_position = JList [JInt 0, JInt 64, JInt 0],
              entry_type = ''minecraft:villager''\<rparr>]\<rparr>)"
    by (simp add: generate_actor_commands_def actor_action_def spawn_action_def other_action_def
        get_target_selector_def clean_def str_lower_def
        replace_def l entity_id_of_def spawn_command_def contains_def sublist_Cons_right
        digits.simps digit_chars init_def py_eval)
  have camera: "generate_camera_commands sample_rt g
      (JDict [(''movements'', JList [JDict [(''type'', JStr ''orbit''),
            (''tick_end'', JInt 5), (''end_angle'', JInt 0),
            (''center'', JList [JStr ''abc'', JNull, JStr ''~5''])]])])
    = Inr \<lparr>name = JStr ''camera'', commands =
        [\<lparr>tick = JInt 0, command = ''tp @p 10.0 5.0 5.0 facing 0.0 0.0 5.0'',
                  description = ''Orbit frame 0'', command_type = ''camera''\<rparr>,
                \<lparr>tick = JInt 5, command = ''tp @p 10.0 5.0 5.0 facing 0.0 0.0 5.0'',
                  description = ''Orbit frame 1'', command_type = ''camera''\<rparr>],
        duration_ticks = JInt 5\<rparr>" for g
    by (simp add: generate_camera_commands_def camera_movement_def parse_pos_def parse_coord_def
        get_float_def frame_count_def range_incl_def orbit_frame_def fraction_def frame_tick_def
        trunc_def lerp_def radians_def coord_def sample_rt_def sample_float_of_str_def
        decimal_def replace_def sample_formats more_formats digits.simps digit_chars
        py_eval upt_rec)
  show ?thesis
    by (simp add: generate_full_script_def script_scene_def generate_scene_commands_def
        time_command_def weather_command_def time_map_def weather_map_def scene_actor_def
        actor camera offset_command_def to_list_def py_eval)
qed

lemma float_rounds: "float rt (JInt 9007199254740993) = Inr 9007199254740992"
  using float_2_53_1 by (simp add: float_def float_of_int_def)

lemma frame_tick_rounds:
  "ebind (fraction 3 (JInt 11)) (frame_tick (JInt 0) (JInt 55)) = Inr (JInt 14)"
proof -
  have "trunc (nearest (55 * nearest (3 / 11))) = 14"
    unfolding three_elevenths prod55 by (simp add: trunc_def floor_eq_iff)
  then show ?thesis
    by (simp add: fraction_def frame_tick_def py_eval)
qed



end
